(* ===== verification/Prelude.thy ===== *)
theory Prelude
  imports Complex_Main "HOL-Library.AList" "HOL-Library.Word"
begin

text \<open>
  What every component of the development shares: the values, strings, containers and
  exceptions of Python as the modelled services use them.

  \<^item> Bytes are lists of 8-bit words, text is \<^typ>\<open>string\<close> (one \<^typ>\<open>char\<close> for each
    character of the Latin-1 range), integers are \<^typ>\<open>int\<close> and floats are \<^typ>\<open>rat\<close>: the
    services copy, compare and store floats and the model keeps those operations exact
    (not-a-number and the infinities are outside the model).
  \<^item> A dictionary is an association list in insertion order without repeated keys, with the
    operations of HOL-Library.AList.
  \<^item> \<open>pyval\<close> is a value of Python's dynamic types, as JSON and the drivers deliver it; \<open>PTime\<close> is
    a \<^verbatim>\<open>datetime\<close> of a database row, by its ISO format.
  \<^item> A program that may raise and that changes a state is a function from the state to an
    exception or a result, with the new state.
\<close>

named_theorems py_defs \<open>definitions of the string and container operations\<close>

section \<open>Values and exceptions\<close>

type_synonym byte = "8 word"
type_synonym bytes = "byte list"
type_synonym pyfloat = rat

datatype exn_class =
    ValueError | TypeErr | KeyErr | IndexErr | RuntimeErr | OSErr | FileNotFound
  | TimeoutErr | QueueFull | QueueEmpty | RpcErr | ClientErr | RedisErr | RedisResponseErr
  | PgErr | PgOperationalErr | DockerErr | JSONDecodeErr | SubprocessTimeout
  | ProcessErr | OtherErr

text \<open>An exception is its class and what \<^verbatim>\<open>str(e)\<close> gives.\<close>

datatype exn = Exn exn_class string

fun exn_cls :: "exn \<Rightarrow> exn_class" where
  "exn_cls (Exn c _) = c"

fun exn_str :: "exn \<Rightarrow> string" where
  "exn_str (Exn _ m) = m"

datatype pyval =
    PNone
  | PBool bool
  | PInt int
  | PFloat pyfloat
  | PStr string
  | PBytes bytes
  | PList "pyval list"
  | PDict "(string \<times> pyval) list"
  | PTime string

text \<open>The truth value of \<^verbatim>\<open>if v\<close>, \<^verbatim>\<open>v or w\<close> and \<^verbatim>\<open>not v\<close>.\<close>

fun truthy :: "pyval \<Rightarrow> bool" where
  "truthy PNone = False"
| "truthy (PBool b) = b"
| "truthy (PInt n) = (n \<noteq> 0)"
| "truthy (PFloat x) = (x \<noteq> 0)"
| "truthy (PStr s) = (s \<noteq> [])"
| "truthy (PBytes b) = (b \<noteq> [])"
| "truthy (PList l) = (l \<noteq> [])"
| "truthy (PDict d) = (d \<noteq> [])"
| "truthy (PTime t) = True"

definition py_or :: "pyval \<Rightarrow> pyval \<Rightarrow> pyval" where
  "py_or v w = (if truthy v then v else w)"

section \<open>Strings\<close>

definition startswith :: "'a list \<Rightarrow> 'a list \<Rightarrow> bool" where
  "startswith s p \<longleftrightarrow> take (length p) s = p"

definition endswith :: "'a list \<Rightarrow> 'a list \<Rightarrow> bool" where
  "endswith s p \<longleftrightarrow> length p \<le> length s \<and> drop (length s - length p) s = p"

fun contains :: "'a list \<Rightarrow> 'a list \<Rightarrow> bool" where
  "contains [] p = (p = [])"
| "contains (c # s) p = (startswith (c # s) p \<or> contains s p)"

text \<open>White space as \<^verbatim>\<open>str.strip\<close> sees it in the ASCII range.\<close>

definition is_space :: "char \<Rightarrow> bool" where
  "is_space c \<longleftrightarrow> c \<in> set [CHR 0x20, CHR 0x09, CHR 0x0A, CHR 0x0B, CHR 0x0C, CHR 0x0D,
     CHR 0x1C, CHR 0x1D, CHR 0x1E, CHR 0x1F]"

abbreviation newline :: char where
  "newline \<equiv> CHR 0x0A"

definition lstrip :: "string \<Rightarrow> string" where
  "lstrip s = dropWhile is_space s"

definition rstrip :: "string \<Rightarrow> string" where
  "rstrip s = rev (dropWhile is_space (rev s))"

definition strip :: "string \<Rightarrow> string" where
  "strip s = rstrip (lstrip s)"

definition rstrip_char :: "char \<Rightarrow> string \<Rightarrow> string" where
  "rstrip_char d s = rev (dropWhile (\<lambda>c. c = d) (rev s))"

text \<open>\<^verbatim>\<open>s.split(d)\<close> for a one-character separator: never the empty list.\<close>

fun split_on :: "'a \<Rightarrow> 'a list \<Rightarrow> 'a list list" where
  "split_on d [] = [[]]"
| "split_on d (c # cs) =
     (if c = d then [] # split_on d cs
      else (case split_on d cs of [] \<Rightarrow> [[c]] | x # xs \<Rightarrow> (c # x) # xs))"

text \<open>\<^verbatim>\<open>s.split(d, 1)\<close>: at the first separator only.\<close>

definition split_first :: "'a \<Rightarrow> 'a list \<Rightarrow> 'a list list" where
  "split_first d s =
     (if d \<in> set s then [takeWhile (\<lambda>c. c \<noteq> d) s, tl (dropWhile (\<lambda>c. c \<noteq> d) s)] else [s])"

fun join :: "'a list \<Rightarrow> 'a list list \<Rightarrow> 'a list" where
  "join d [] = []"
| "join d [x] = x"
| "join d (x # y # ys) = x @ d @ join d (y # ys)"

text \<open>\<^verbatim>\<open>str.splitlines\<close>: the accumulator holds the current line backwards.\<close>

definition is_linebreak :: "char \<Rightarrow> bool" where
  "is_linebreak c \<longleftrightarrow> c \<in> set [CHR 0x0A, CHR 0x0B, CHR 0x0C, CHR 0x0D, CHR 0x1C, CHR 0x1D, CHR 0x1E]"

fun splitlines_aux :: "string \<Rightarrow> string \<Rightarrow> string list" where
  "splitlines_aux cur [] = (if cur = [] then [] else [rev cur])"
| "splitlines_aux cur (c # cs) =
     (if c = CHR 0x0D \<and> cs \<noteq> [] \<and> hd cs = CHR 0x0A then rev cur # splitlines_aux [] (tl cs)
      else if is_linebreak c then rev cur # splitlines_aux [] cs
      else splitlines_aux (c # cur) cs)"

definition splitlines :: "string \<Rightarrow> string list" where
  "splitlines s = splitlines_aux [] s"

definition lower_char :: "char \<Rightarrow> char" where
  "lower_char c = (if 65 \<le> (of_char c :: nat) \<and> (of_char c :: nat) \<le> 90
     then char_of ((of_char c :: nat) + 32) else c)"

definition upper_char :: "char \<Rightarrow> char" where
  "upper_char c = (if 97 \<le> (of_char c :: nat) \<and> (of_char c :: nat) \<le> 122
     then char_of ((of_char c :: nat) - 32) else c)"

definition lower :: "string \<Rightarrow> string" where
  "lower s = map lower_char s"

definition upper :: "string \<Rightarrow> string" where
  "upper s = map upper_char s"

text \<open>\<^verbatim>\<open>s.replace(old, new)\<close> for a non-empty \<^verbatim>\<open>old\<close>: left to right, not overlapping.\<close>

function replace_str :: "'a list \<Rightarrow> 'a list \<Rightarrow> 'a list \<Rightarrow> 'a list" where
  "replace_str old new s =
     (case s of [] \<Rightarrow> []
      | c # cs \<Rightarrow> (if old \<noteq> [] \<and> startswith s old then new @ replace_str old new (drop (length old) s)
                else c # replace_str old new cs))"
  by pat_completeness auto
termination
  by (relation "measure (\<lambda>(old, new, s). length s)") auto

declare replace_str.simps [simp del]

text \<open>
  \<^verbatim>\<open>bytes.find\<close> and \<^verbatim>\<open>bytes.rfind\<close>: the first and the last position where the pattern
  stands, -1 if there is none.
\<close>

fun find_from :: "int \<Rightarrow> 'a list \<Rightarrow> 'a list \<Rightarrow> int" where
  "find_from i [] p = (if p = [] then i else -1)"
| "find_from i (c # s) p = (if startswith (c # s) p then i else find_from (i + 1) s p)"

definition py_find :: "'a list \<Rightarrow> 'a list \<Rightarrow> int" where
  "py_find s p = find_from 0 s p"

fun rfind_from :: "int \<Rightarrow> 'a list \<Rightarrow> 'a list \<Rightarrow> int" where
  "rfind_from i [] p = (if p = [] then i else -1)"
| "rfind_from i (c # s) p =
     (let r = rfind_from (i + 1) s p
      in if r \<noteq> -1 then r else if startswith (c # s) p then i else -1)"

definition py_rfind :: "'a list \<Rightarrow> 'a list \<Rightarrow> int" where
  "py_rfind s p = rfind_from 0 s p"

text \<open>
  Slices: \<^verbatim>\<open>xs[a:b]\<close> with the bounds as Python reads them (a negative one counts from the
  end, both are clamped to the list).
\<close>

definition slice_index :: "nat \<Rightarrow> int \<Rightarrow> nat" where
  "slice_index n i = nat (min (int n) (max 0 (if i < 0 then int n + i else i)))"

definition slice_to :: "'a list \<Rightarrow> int \<Rightarrow> 'a list" where
  "slice_to xs b = take (slice_index (length xs) b) xs"

definition slice_from :: "'a list \<Rightarrow> int \<Rightarrow> 'a list" where
  "slice_from xs a = drop (slice_index (length xs) a) xs"

definition slice :: "'a list \<Rightarrow> int \<Rightarrow> int \<Rightarrow> 'a list" where
  "slice xs a b =
     take (slice_index (length xs) b - slice_index (length xs) a)
       (drop (slice_index (length xs) a) xs)"

text \<open>\<^verbatim>\<open>xs[i]\<close>: a negative index counts from the end, out of range raises.\<close>

definition py_nth :: "'a list \<Rightarrow> int \<Rightarrow> exn + 'a" where
  "py_nth xs i =
     (if 0 \<le> i \<and> nat i < length xs then Inr (xs ! nat i)
      else if i < 0 \<and> nat (- i) \<le> length xs then Inr (rev xs ! (nat (- i) - 1))
      else Inl (Exn IndexErr ''list index out of range''))"

text \<open>\<^verbatim>\<open>range(a, b, s)\<close> for a positive step.\<close>

definition py_range :: "int \<Rightarrow> int \<Rightarrow> int \<Rightarrow> int list" where
  "py_range a b s = map (\<lambda>i. a + s * int i) [0..<nat ((b - a + s - 1) div s)]"

subsection \<open>Decimal numbers\<close>

definition digit_char :: "nat \<Rightarrow> char" where
  "digit_char n = char_of (48 + n)"

definition is_digit :: "char \<Rightarrow> bool" where
  "is_digit c \<longleftrightarrow> 48 \<le> (of_char c :: nat) \<and> (of_char c :: nat) \<le> 57"

definition digit_val :: "char \<Rightarrow> nat" where
  "digit_val c = of_char c - 48"

fun nat_str :: "nat \<Rightarrow> string" where
  "nat_str n = (if n < 10 then [digit_char n] else nat_str (n div 10) @ [digit_char (n mod 10)])"

declare nat_str.simps [simp del]

text \<open>\<^verbatim>\<open>str(n)\<close> of an integer.\<close>

definition int_str :: "int \<Rightarrow> string" where
  "int_str n = (if n < 0 then CHR ''-'' # nat_str (nat (- n)) else nat_str (nat n))"

text \<open>What \<^verbatim>\<open>int(s)\<close> takes after the sign: digits, with single underscores between them.\<close>

fun int_body :: "string \<Rightarrow> bool" where
  "int_body [] = False"
| "int_body [c] = is_digit c"
| "int_body (c # d # cs) = (is_digit c \<and> (if d = CHR ''_'' then int_body cs else int_body (d # cs)))"

definition digits_val :: "string \<Rightarrow> nat" where
  "digits_val s = foldl (\<lambda>a c. 10 * a + digit_val c) 0 (filter is_digit s)"

text \<open>\<^verbatim>\<open>int(s)\<close>: white space around, an optional sign; \<^const>\<open>ValueError\<close> otherwise.\<close>

definition py_int :: "string \<Rightarrow> exn + int" where
  "py_int s =
     (let t = strip s;
          neg = startswith t ''-'';
          body = (if neg \<or> startswith t ''+'' then drop 1 t else t)
      in if int_body body then Inr (if neg then - int (digits_val body) else int (digits_val body))
         else Inl (Exn ValueError ''invalid literal for int() with base 10''))"

text \<open>\<^verbatim>\<open>int(x)\<close> of a float truncates towards zero.\<close>

definition py_trunc :: "pyfloat \<Rightarrow> int" where
  "py_trunc x = (if x < 0 then - floor (- x) else floor x)"


text \<open>\<^verbatim>\<open>a or b\<close> on strings, and a text in the Latin-1 range as bytes.\<close>

definition or_str :: "string \<Rightarrow> string \<Rightarrow> string" where
  "or_str a b = (if a \<noteq> [] then a else b)"

definition encode :: "string \<Rightarrow> bytes" where
  "encode s = map (\<lambda>c. of_nat (of_char c)) s"

text \<open>A loop that collects the results of a function that may raise.\<close>

primrec collect :: "('a \<Rightarrow> exn + 'b) \<Rightarrow> 'a list \<Rightarrow> exn + 'b list" where
  "collect f [] = Inr []"
| "collect f (x # xs) = (case f x of Inl e \<Rightarrow> Inl e | Inr y \<Rightarrow>
     (case collect f xs of Inl e \<Rightarrow> Inl e | Inr ys \<Rightarrow> Inr (y # ys)))"

section \<open>Dictionaries\<close>

text \<open>\<^verbatim>\<open>d.get(k, v)\<close> and \<^verbatim>\<open>d[k]\<close>.\<close>

definition dict_get :: "('k \<times> 'v) list \<Rightarrow> 'k \<Rightarrow> 'v \<Rightarrow> 'v" where
  "dict_get d k v = (case map_of d k of Some x \<Rightarrow> x | None \<Rightarrow> v)"

definition dict_item :: "('k \<times> 'v) list \<Rightarrow> 'k \<Rightarrow> exn + 'v" where
  "dict_item d k = (case map_of d k of Some x \<Rightarrow> Inr x | None \<Rightarrow> Inl (Exn KeyErr ''key''))"

section \<open>Generic lemmas\<close>

lemma startswith_Nil [simp]: "startswith s []"
  by (simp add: startswith_def)

lemma startswith_append [simp]: "startswith (p @ s) p"
  by (simp add: startswith_def)

lemma startswith_same [simp]: "startswith p p"
  by (simp add: startswith_def)

lemma startswith_Cons [simp]: "startswith (c # s) (d # p) \<longleftrightarrow> c = d \<and> startswith s p"
  by (auto simp: startswith_def)

lemma startswith_Nil_Cons [simp]: "\<not> startswith [] (d # p)"
  by (simp add: startswith_def)

lemma startswith_length: "startswith s p \<Longrightarrow> length p \<le> length s"
  unfolding startswith_def by (metis length_take min.cobounded1)

lemma startswith_take: "length p \<le> n \<Longrightarrow> startswith (take n s) p \<longleftrightarrow> startswith s p"
  by (simp add: startswith_def min_absorb1)

lemma startswith_append_right: "startswith s p \<Longrightarrow> startswith (s @ t) p"
  using startswith_length [of s p] by (simp add: startswith_def)

lemma endswith_append [simp]: "endswith (s @ p) p"
  by (simp add: endswith_def)

lemma startswith_drop_decomp: "startswith s p \<Longrightarrow> s = p @ drop (length p) s"
  by (metis append_take_drop_id startswith_def)

subsection \<open>Stripping\<close>

lemma set_strip: "set (strip s) \<subseteq> set s"
  unfolding strip_def rstrip_def lstrip_def
  by (auto dest!: set_dropWhileD)

lemma dropWhile_idem_hd: "s = [] \<or> \<not> P (hd s) \<Longrightarrow> dropWhile P s = s"
  by (cases s) auto

lemma rstrip_id: "s = [] \<or> \<not> is_space (last s) \<Longrightarrow> rstrip s = s"
  unfolding rstrip_def by (cases s rule: rev_cases) auto

lemma strip_id: "s = [] \<or> \<not> is_space (hd s) \<and> \<not> is_space (last s) \<Longrightarrow> strip s = s"
  by (auto simp: strip_def lstrip_def rstrip_id dropWhile_idem_hd)

lemma hd_lstrip: "lstrip s \<noteq> [] \<Longrightarrow> \<not> is_space (hd (lstrip s))"
  unfolding lstrip_def by (metis hd_dropWhile)

lemma last_rstrip: "rstrip s \<noteq> [] \<Longrightarrow> \<not> is_space (last (rstrip s))"
  unfolding rstrip_def by (metis hd_dropWhile last_rev rev_is_Nil_conv)

lemma rstrip_prefix: "\<exists>t. s = rstrip s @ t"
  unfolding rstrip_def by (metis rev_append rev_rev_ident takeWhile_dropWhile_id)

lemma hd_rstrip: "rstrip s \<noteq> [] \<Longrightarrow> hd (rstrip s) = hd s"
  using rstrip_prefix [of s] by (metis hd_append2)

lemma strip_ends: "strip s \<noteq> [] \<Longrightarrow> \<not> is_space (hd (strip s)) \<and> \<not> is_space (last (strip s))"
proof -
  assume ne: "strip s \<noteq> []"
  then have "lstrip s \<noteq> []" by (auto simp: strip_def rstrip_def)
  with ne show ?thesis
    using hd_rstrip [of "lstrip s"] hd_lstrip [of s] last_rstrip [of "lstrip s"]
    by (simp add: strip_def)
qed

lemma strip_strip [simp]: "strip (strip s) = strip s"
  using strip_ends strip_id by blast

subsection \<open>Splitting and joining\<close>

lemma split_on_ne [simp]: "split_on d s \<noteq> []"
  by (induction s) (auto split: list.splits)

lemma split_on_parts: "x \<in> set (split_on d s) \<Longrightarrow> d \<notin> set x"
  by (induction s arbitrary: x) (auto split: list.splits if_splits)

lemma join_Cons: "join d (x # ys) = x @ (if ys = [] then [] else d @ join d ys)"
  by (cases ys) auto

lemma join_split_on: "join [d] (split_on d s) = s"
  by (induction s) (auto split: list.splits simp: join_Cons)

lemma split_on_append_sep:
  "d \<notin> set x \<Longrightarrow> split_on d (x @ d # s) = x # split_on d s"
  by (induction x) auto

lemma split_on_single: "d \<notin> set x \<Longrightarrow> split_on d x = [x]"
  by (induction x) auto

lemma split_on_join:
  "xs \<noteq> [] \<Longrightarrow> (\<And>x. x \<in> set xs \<Longrightarrow> d \<notin> set x) \<Longrightarrow> split_on d (join [d] xs) = xs"
proof (induction xs)
  case Nil
  then show ?case by simp
next
  case (Cons x xs)
  then show ?case
    by (cases "xs = []") (simp_all add: split_on_single join_Cons split_on_append_sep)
qed

lemma concat_split_on: "d \<notin> set (concat (split_on d s))"
  by (auto dest: split_on_parts)

subsection \<open>Slices\<close>

lemma slice_index_le: "slice_index n i \<le> n"
  by (auto simp: slice_index_def min_def)

lemma slice_to_nonneg: "0 \<le> b \<Longrightarrow> slice_to xs b = take (nat b) xs"
  by (auto simp: slice_to_def slice_index_def min_def nat_le_iff)

lemma slice_from_neg: "0 < k \<Longrightarrow> slice_from xs (- int k) = drop (length xs - k) xs"
  by (auto simp: slice_from_def slice_index_def min_def max_def nat_diff_distrib' intro!: arg_cong2 [where f = drop])

lemma slice_from_zero: "slice_from xs 0 = xs"
  by (simp add: slice_from_def slice_index_def)

lemma set_slice_to: "set (slice_to xs b) \<subseteq> set xs"
  by (simp add: slice_to_def set_take_subset)

lemma length_slice_to: "0 \<le> b \<Longrightarrow> length (slice_to xs b) \<le> nat b"
  by (simp add: slice_to_nonneg)

subsection \<open>Searching\<close>

lemma find_from_lower: "find_from i s p = -1 \<or> i \<le> find_from i s p"
  by (induction i s p rule: find_from.induct) auto

lemma find_from_found:
  "0 \<le> i \<Longrightarrow> find_from i s p = j \<Longrightarrow> j \<noteq> -1 \<Longrightarrow>
     i \<le> j \<and> startswith (drop (nat (j - i)) s) p \<and> nat (j - i) \<le> length s"
proof (induction i s p arbitrary: j rule: find_from.induct)
  case (1 i p)
  then show ?case by (auto split: if_splits)
next
  case (2 i c s p)
  show ?case
  proof (cases "startswith (c # s) p")
    case True
    with 2 show ?thesis by auto
  next
    case False
    with 2 have ih: "i + 1 \<le> j" "startswith (drop (nat (j - (i + 1))) s) p"
        "nat (j - (i + 1)) \<le> length s"
      by auto
    then have "nat (j - i) = Suc (nat (j - (i + 1)))" by simp
    with ih show ?thesis by simp
  qed
qed

lemma rfind_from_found:
  "0 \<le> i \<Longrightarrow> rfind_from i s p = j \<Longrightarrow> j \<noteq> -1 \<Longrightarrow>
     i \<le> j \<and> startswith (drop (nat (j - i)) s) p \<and> nat (j - i) \<le> length s"
proof (induction i s p arbitrary: j rule: rfind_from.induct)
  case (1 i p)
  then show ?case by (auto split: if_splits)
next
  case (2 i c s p)
  show ?case
  proof (cases "rfind_from (i + 1) s p = -1")
    case True
    with 2 show ?thesis by (auto simp: Let_def split: if_splits)
  next
    case False
    with 2 have ih: "i + 1 \<le> j" "startswith (drop (nat (j - (i + 1))) s) p"
        "nat (j - (i + 1)) \<le> length s"
      by (auto simp: Let_def)
    then have "nat (j - i) = Suc (nat (j - (i + 1)))" by simp
    with ih show ?thesis by simp
  qed
qed

subsection \<open>Printing and reading integers\<close>

lemma of_char_digit [simp]: "n < 10 \<Longrightarrow> (of_char (digit_char n) :: nat) = 48 + n"
  by (simp add: digit_char_def)

lemma is_digit_digit_char [simp]: "n < 10 \<Longrightarrow> is_digit (digit_char n)"
  by (simp add: is_digit_def)

lemma digit_val_digit_char [simp]: "n < 10 \<Longrightarrow> digit_val (digit_char n) = n"
  by (simp add: digit_val_def)

lemma digit_char_lit [simp]:
  "digit_char 0 = CHR ''0''" "digit_char 1 = CHR ''1''" "digit_char (Suc 0) = CHR ''1''"
  "digit_char 2 = CHR ''2''" "digit_char 3 = CHR ''3''" "digit_char 4 = CHR ''4''"
  "digit_char 5 = CHR ''5''" "digit_char 6 = CHR ''6''" "digit_char 7 = CHR ''7''"
  "digit_char 8 = CHR ''8''" "digit_char 9 = CHR ''9''"
  by code_simp+

lemma nat_str_ne [simp]: "nat_str n \<noteq> []"
  by (subst nat_str.simps) simp

lemma nat_str_digits: "c \<in> set (nat_str n) \<Longrightarrow> is_digit c"
proof (induction n rule: nat_str.induct)
  case (1 n)
  then show ?case
    by (cases "n < 10") (auto simp: nat_str.simps [of n])
qed

lemma digits_val_append_digit:
  "is_digit c \<Longrightarrow> digits_val (s @ [c]) = 10 * digits_val s + digit_val c"
  by (simp add: digits_val_def)

lemma digits_val_nat_str [simp]: "digits_val (nat_str n) = n"
proof (induction n rule: nat_str.induct)
  case (1 n)
  show ?case
  proof (cases "n < 10")
    case True
    then show ?thesis by (simp add: nat_str.simps [of n] digits_val_def)
  next
    case False
    with 1 show ?thesis
      by (simp add: nat_str.simps [of n] digits_val_append_digit)
  qed
qed

lemma digit_not_special:
  "is_digit c \<Longrightarrow> c \<noteq> CHR ''_'' \<and> c \<noteq> CHR ''-'' \<and> c \<noteq> CHR ''+'' \<and> \<not> is_space c"
  by (auto simp: is_digit_def is_space_def)

lemma int_body_digits:
  "s \<noteq> [] \<Longrightarrow> (\<And>c. c \<in> set s \<Longrightarrow> is_digit c) \<Longrightarrow> int_body s"
  by (induction s rule: int_body.induct) (auto dest: digit_not_special)

lemma nat_str_ends:
  "is_digit (hd (nat_str n)) \<and> is_digit (last (nat_str n))"
  by (metis hd_in_set last_in_set nat_str_digits nat_str_ne)

lemma strip_nat_str [simp]: "strip (nat_str n) = nat_str n"
  using nat_str_ends [of n] digit_not_special strip_id by blast

lemma strip_minus_nat_str [simp]: "strip (CHR ''-'' # nat_str n) = CHR ''-'' # nat_str n"
proof (rule strip_id)
  have "\<not> is_space CHR ''-''" by (simp add: is_space_def)
  with nat_str_ends [of n] digit_not_special
  show "CHR ''-'' # nat_str n = [] \<or>
      \<not> is_space (hd (CHR ''-'' # nat_str n)) \<and> \<not> is_space (last (CHR ''-'' # nat_str n))"
    by auto
qed

lemma nat_str_no_sign: "\<not> startswith (nat_str n) ''-'' \<and> \<not> startswith (nat_str n) ''+''"
proof -
  obtain c cs where cs: "nat_str n = c # cs" by (cases "nat_str n") auto
  with nat_str_ends [of n] have "is_digit c" by simp
  with cs digit_not_special [of c] show ?thesis by simp
qed

lemma py_int_int_str [simp]: "py_int (int_str n) = Inr n"
proof (cases "n < 0")
  case True
  then show ?thesis
    by (simp add: int_str_def py_int_def Let_def int_body_digits nat_str_digits)
next
  case False
  then show ?thesis
    using nat_str_no_sign [of "nat n"]
    by (simp add: int_str_def py_int_def Let_def int_body_digits nat_str_digits)
qed

lemma py_int_0 [simp]: "py_int ''0'' = Inr 0"
  using py_int_int_str [of 0] by (simp add: int_str_def nat_str.simps)

lemma int_str_inj: "int_str m = int_str n \<Longrightarrow> m = n"
  by (metis py_int_int_str sum.inject(2))

lemma int_str_ne [simp]: "int_str n \<noteq> []"
  by (simp add: int_str_def)

subsection \<open>Collecting results\<close>

lemma collect_length: "collect f xs = Inr ys \<Longrightarrow> length ys = length xs"
  by (induction xs arbitrary: ys) (auto split: sum.splits)

lemma collect_nth: "collect f xs = Inr ys \<Longrightarrow> i < length xs \<Longrightarrow> f (xs ! i) = Inr (ys ! i)"
  by (induction xs arbitrary: ys i) (auto split: sum.splits simp: nth_Cons split: nat.splits)

lemma collect_cong: "(\<And>x. x \<in> set xs \<Longrightarrow> f x = g x) \<Longrightarrow> collect f xs = collect g xs"
  by (induction xs) (auto split: sum.splits)

subsection \<open>Laws of dictionaries\<close>

lemma map_of_update [simp]: "map_of (AList.update k v d) = (map_of d)(k \<mapsto> v)"
  by (simp add: AList.update_conv')

lemma map_of_delete [simp]: "map_of (AList.delete k d) = (map_of d)(k := None)"
  by (simp add: AList.delete_conv')

end
