(* ===== verification/Images.thy ===== *)
theory Images
  imports Prelude
begin

text \<open>
  Image detection by leading bytes. Three copies of it exist: \<^verbatim>\<open>_sniff_image\<close> of
  routing-system/servicer.py, \<^verbatim>\<open>_sniff_image\<close> of stegnar-proxy/addon.py and
  \<^verbatim>\<open>_is_image_bytes\<close> of soc-api/server.py. The locales state what their clients rely on:
  the answer is decided by a bounded prefix of the payload.
\<close>

section \<open>Interfaces\<close>

text \<open>A probe that looks at the first \<open>window\<close> bytes only.\<close>

locale prefix_probe =
  fixes probe :: "bytes \<Rightarrow> bool" and window :: nat
  assumes probe_take: "probe (take window d) = probe d"
begin

lemma probe_head: "window \<le> n \<Longrightarrow> probe (take n d) = probe d"
  using probe_take [of d] probe_take [of "take n d"] by (simp add: min_absorb1)

lemma probe_extend: "window \<le> length d \<Longrightarrow> probe (d @ e) = probe d"
  using probe_take [of d] probe_take [of "d @ e"] by simp

end

text \<open>A probe that looks the payload's prefix up in a table of signatures.\<close>

locale magic_probe =
  fixes table :: "bytes list" and sniff :: "bytes \<Rightarrow> bool" and window :: nat
  assumes sniff_table: "sniff d \<longleftrightarrow> (\<exists>m \<in> set table. startswith d m)"
    and table_window: "m \<in> set table \<Longrightarrow> length m \<le> window"
begin

lemma sniff_mono: "sniff d \<Longrightarrow> sniff (d @ e)"
  by (auto simp: sniff_table intro: startswith_append_right)

lemma sniff_take: "sniff (take window d) = sniff d"
  using table_window by (auto simp: sniff_table startswith_take)

end

sublocale magic_probe < head: prefix_probe sniff window
  by unfold_locales (rule sniff_take)

section \<open>The routing system and the proxy\<close>

abbreviation jpeg_magic :: bytes where "jpeg_magic \<equiv> [0xFF, 0xD8, 0xFF]"
abbreviation png6_magic :: bytes where "png6_magic \<equiv> [0x89, 0x50, 0x4E, 0x47, 0x0D, 0x0A]"
abbreviation png_magic :: bytes where "png_magic \<equiv> png6_magic @ [0x1A, 0x0A]"
abbreviation riff_magic :: bytes where "riff_magic \<equiv> [0x52, 0x49, 0x46, 0x46]"
abbreviation webp_tag :: bytes where "webp_tag \<equiv> [0x57, 0x45, 0x42, 0x50]"
abbreviation bmp_magic :: bytes where "bmp_magic \<equiv> [0x42, 0x4D]"
abbreviation gif87_magic :: bytes where "gif87_magic \<equiv> [0x47, 0x49, 0x46, 0x38, 0x37, 0x61]"
abbreviation gif89_magic :: bytes where "gif89_magic \<equiv> [0x47, 0x49, 0x46, 0x38, 0x39, 0x61]"
abbreviation tiff_le_magic :: bytes where "tiff_le_magic \<equiv> [0x49, 0x49, 0x2A, 0x00]"
abbreviation tiff_be_magic :: bytes where "tiff_be_magic \<equiv> [0x4D, 0x4D, 0x00, 0x2A]"

definition image_magic :: "(bytes \<times> string) list" where
  "image_magic =
     [(jpeg_magic, ''jpeg''), (png6_magic, ''png''), (riff_magic, ''webp''),
      (bmp_magic, ''bmp''), (gif87_magic, ''gif''), (gif89_magic, ''gif'')]"

fun sniff_loop :: "(bytes \<times> string) list \<Rightarrow> bytes \<Rightarrow> bool" where
  "sniff_loop [] raw = False"
| "sniff_loop ((magic, kind) # rest) raw =
     (if take (length magic) raw = magic then True else sniff_loop rest raw)"

definition sniff_image :: "bytes \<Rightarrow> bool" where
  "sniff_image raw = sniff_loop image_magic raw"

definition addon_sniff_image :: "bytes \<Rightarrow> bool" where
  "addon_sniff_image raw =
     sniff_loop [(jpeg_magic, ''jpeg''), (png6_magic, ''png''), (riff_magic, ''webp''),
       (bmp_magic, ''bmp''), (gif87_magic, ''gif''), (gif89_magic, ''gif'')] raw"

section \<open>The SOC API\<close>

definition is_image_bytes :: "bytes \<Rightarrow> bool" where
  "is_image_bytes data =
     (if length data < 4 then False
      else if startswith data jpeg_magic then True
      else if startswith data png_magic then True
      else if startswith data gif87_magic \<or> startswith data gif89_magic then True
      else if startswith data riff_magic \<and> contains (slice data 8 16) webp_tag then True
      else if startswith data bmp_magic then True
      else if startswith data tiff_le_magic \<or> startswith data tiff_be_magic then True
      else False)"

section \<open>Lemmas\<close>

lemma sniff_loop_table: "sniff_loop t d \<longleftrightarrow> (\<exists>m \<in> set (map fst t). startswith d m)"
  by (induction t) (auto simp: startswith_def)

lemma sniff_image_iff: "sniff_image d \<longleftrightarrow> (\<exists>m \<in> set (map fst image_magic). startswith d m)"
  by (simp only: sniff_image_def sniff_loop_table)

interpretation routing_sniff: magic_probe "map fst image_magic" sniff_image 6
  by unfold_locales (auto simp: sniff_image_iff image_magic_def)

interpretation proxy_sniff: magic_probe "map fst image_magic" addon_sniff_image 6
  by unfold_locales (auto simp: addon_sniff_image_def sniff_loop_table image_magic_def)

lemma slice_8_16: "slice d 8 16 = take 8 (drop 8 d)"
proof (cases "16 \<le> length d")
  case True
  then show ?thesis by (simp add: slice_def slice_index_def)
next
  case False
  then have "slice_index (length d) 16 = length d"
    by (simp add: slice_index_def)
  moreover have "slice_index (length d) 8 = min (length d) 8"
    by (simp add: slice_index_def min_def)
  ultimately show ?thesis
    using False by (simp add: slice_def min_def)
qed

lemma is_image_bytes_cases:
  "is_image_bytes d \<longleftrightarrow> 4 \<le> length d \<and>
     (startswith d jpeg_magic \<or> startswith d png_magic
      \<or> startswith d gif87_magic \<or> startswith d gif89_magic
      \<or> startswith d riff_magic \<and> contains (take 8 (drop 8 d)) webp_tag
      \<or> startswith d bmp_magic \<or> startswith d tiff_le_magic \<or> startswith d tiff_be_magic)"
  by (auto simp: is_image_bytes_def slice_8_16)

lemma is_image_bytes_take: "is_image_bytes (take 16 d) = is_image_bytes d"
  by (simp add: is_image_bytes_cases startswith_take drop_take)

interpretation soc_probe: prefix_probe is_image_bytes 16
  by unfold_locales (rule is_image_bytes_take)


lemma sniff_image_cases:
  "sniff_image d \<longleftrightarrow> startswith d jpeg_magic \<or> startswith d png6_magic \<or> startswith d riff_magic
     \<or> startswith d bmp_magic \<or> startswith d gif87_magic \<or> startswith d gif89_magic"
  by (simp add: sniff_image_iff image_magic_def)

lemma startswith_trans: "startswith d (p @ q) \<Longrightarrow> startswith d p"
  by (metis append.assoc startswith_append startswith_drop_decomp)

lemma startswith_png: "startswith d png_magic \<Longrightarrow> startswith d png6_magic"
  using startswith_trans [of d png6_magic "[0x1A, 0x0A]"] by simp


section \<open>Properties\<close>

text \<open>
The SOC's content check against the routing system's sniffer. On payloads of at least four
bytes the SOC accepts exactly what the router sniffs, except that it also takes TIFF, wants the
full eight-byte PNG signature, and wants a WEBP tag in a RIFF container.
\<close>

theorem soc_check_vs_router_sniff:
  assumes len: "4 \<le> length d"
  shows "is_image_bytes d \<longleftrightarrow>
     (sniff_image d
       \<and> (startswith d riff_magic \<longrightarrow> contains (take 8 (drop 8 d)) webp_tag)
       \<and> (startswith d png6_magic \<longrightarrow> startswith d png_magic))
     \<or> startswith d tiff_le_magic \<or> startswith d tiff_be_magic"
proof -
  from len obtain a b c e d' where d: "d = a # b # c # e # d'"
    by (auto simp: numeral_eq_Suc Suc_le_length_iff)
  consider "a = 0x52" | "a = 0x89" | "a \<noteq> 0x52" "a \<noteq> 0x89" by blast
  then show ?thesis
  proof cases
    case 1
    then show ?thesis by (simp add: is_image_bytes_cases sniff_image_cases d) blast
  next
    case 2
    then show ?thesis
      using startswith_trans [of d' "[0x0D, 0x0A]" "[0x1A, 0x0A]"]
      by (simp add: is_image_bytes_cases sniff_image_cases d) blast
  next
    case 3
    then show ?thesis by (simp add: is_image_bytes_cases sniff_image_cases d) blast
  qed
qed

theorem soc_check_vs_router_sniff_witness:
  "is_image_bytes [0x52, 0x49, 0x46, 0x46, 0, 0, 0, 0, 0x57, 0x41, 0x56, 0x45] = False
   \<and> sniff_image [0x52, 0x49, 0x46, 0x46, 0, 0, 0, 0, 0x57, 0x41, 0x56, 0x45]"
proof -
  let ?wav = "[0x52, 0x49, 0x46, 0x46, 0, 0, 0, 0, 0x57, 0x41, 0x56, 0x45] :: bytes"
  have "4 \<le> length ?wav" by simp
  from soc_check_vs_router_sniff [OF this]
  show ?thesis by (simp add: sniff_image_cases is_image_bytes_cases)
qed

text \<open>
The router's sniffer, the proxy's copy of it and the SOC's check are decided by the first
6, 6 and 16 bytes; the two copies of the sniffer agree everywhere.
\<close>

theorem image_probes_decided_by_head:
  "sniff_image (take 6 d) = sniff_image d
   \<and> addon_sniff_image d = sniff_image d
   \<and> is_image_bytes (take 16 d) = is_image_bytes d"
  using routing_sniff.sniff_take [of d] soc_probe.probe_head [of 16 d]
    routing_sniff.sniff_table proxy_sniff.sniff_table
  by auto

end
