(* ===== verification/Tables.thy ===== *)
theory Tables
  imports Prelude
begin

text \<open>
  The interface of a keyed table, as the routing system uses its stream table and its key store and
  the SOC uses its job table and its settings: lookup, insertion or replacement, deletion, and the
  keys in insertion order. The facts the clients need are proved from the laws once; \<open>alist\<close>
  interprets them on the dictionaries of the model.
\<close>

locale table =
  fixes empty_t :: "'m"
    and get :: "'m \<Rightarrow> 'k \<Rightarrow> 'v option"
    and put :: "'k \<Rightarrow> 'v \<Rightarrow> 'm \<Rightarrow> 'm"
    and del :: "'k \<Rightarrow> 'm \<Rightarrow> 'm"
  assumes get_empty: "get empty_t k = None"
    and get_put: "get (put k v m) k' = (if k' = k then Some v else get m k')"
    and get_del: "get (del k m) k' = (if k' = k then None else get m k')"
begin

text \<open>Add one item to the entry of its key, starting a new entry where there is none.\<close>

definition push :: "('x \<Rightarrow> 'k) \<Rightarrow> ('v option \<Rightarrow> 'x \<Rightarrow> 'v) \<Rightarrow> 'm \<Rightarrow> 'x \<Rightarrow> 'm" where
  "push key f m x = put (key x) (f (get m (key x)) x) m"

lemma get_push: "get (push key f m x) k = (if k = key x then Some (f (get m k) x) else get m k)"
  by (auto simp: push_def get_put)

text \<open>After any sequence of items an entry is the fold of the items with its key.\<close>

lemma get_pushes:
  "get (foldl (push key f) m xs) k =
     foldl (\<lambda>v x. Some (f v x)) (get m k) (filter (\<lambda>x. key x = k) xs)"
  by (induction xs arbitrary: m) (auto simp: get_push)

lemma get_pushes_empty_None:
  "get (foldl (push key f) empty_t xs) k = None \<longleftrightarrow> k \<notin> key ` set xs"
proof -
  have "foldl (\<lambda>v x. Some (f v x)) v ys = None \<longleftrightarrow> ys = [] \<and> v = None" for v ys
    by (induction ys arbitrary: v) auto
  then show ?thesis by (auto simp: get_pushes get_empty filter_empty_conv)
qed

lemma get_dels: "get (foldl (\<lambda>m k. del k m) m ks) k = (if k \<in> set ks then None else get m k)"
  by (induction ks arbitrary: m) (auto simp: get_del)

lemma get_puts:
  "distinct (map fst kvs) \<Longrightarrow>
     get (foldl (\<lambda>m e. put (fst e) (snd e) m) m kvs) k =
       (case map_of kvs k of Some v \<Rightarrow> Some v | None \<Rightarrow> get m k)"
proof (induction kvs arbitrary: m)
  case Nil
  then show ?case by simp
next
  case (Cons e kvs)
  then have "map_of kvs (fst e) = None" by (simp add: map_of_eq_None_iff)
  with Cons show ?case
    by (cases e) (simp add: get_put split: option.split)
qed

end

interpretation alist: table "[]" map_of AList.update AList.delete
  by unfold_locales (simp_all add: update_conv' delete_conv')

text \<open>Dictionaries have no repeated keys, and the operations keep it so.\<close>

definition dict_ok :: "('k \<times> 'v) list \<Rightarrow> bool" where
  "dict_ok d \<longleftrightarrow> distinct (map fst d)"

lemma dict_ok_update [simp]: "dict_ok d \<Longrightarrow> dict_ok (AList.update k v d)"
  by (simp add: dict_ok_def distinct_update)

lemma dict_ok_delete [simp]: "dict_ok d \<Longrightarrow> dict_ok (AList.delete k d)"
  by (simp add: dict_ok_def distinct_delete)

lemma dict_ok_Nil [simp]: "dict_ok []"
  by (simp add: dict_ok_def)

lemma dict_ok_filter: "dict_ok d \<Longrightarrow> dict_ok (filter P d)"
  by (simp add: dict_ok_def distinct_map_filter)

lemma dict_keys_update: "set (map fst (AList.update k v d)) = insert k (set (map fst d))"
  by (induction d) auto

lemma dict_map_of: "dict_ok d \<Longrightarrow> (k, v) \<in> set d \<longleftrightarrow> map_of d k = Some v"
  by (simp add: dict_ok_def)

end
