(* ===== verification/Effects.thy ===== *)
theory Effects
  imports Prelude
begin

text \<open>
  How the model runs code that talks to the outside. Every request to a service that is not
  part of the repository (Redis, PostgreSQL, MinIO, gRPC peers, the file system, external
  programs, Docker) is a value of \<open>call\<close>. What the outside answers is a parameter:
  an environment \<open>env\<close> gives the reply, or the exception, to a call after a history of earlier
  calls. A program passes a world on that records the history, so what the code did is the list
  of events it added. Nothing is assumed of an environment; a theorem that needs documented
  behaviour of a service states it as a hypothesis.

  The second part is a small program logic over the events: \<open>emits\<close> (each event a program adds
  satisfies a predicate, whatever the environment answers), \<open>no_raise\<close> (a program that never
  raises) and \<open>wp\<close> (weakest precondition).
\<close>

section \<open>Calls to the outside\<close>

datatype redis_cmd =
    HGetAll string
  | HGet string string
  | HSet string "(string \<times> string) list"
  | HIncrBy string string int
  | Expire string int
  | ZRemRangeByScore string int
  | ZCard string
  | ZAdd string "(string \<times> int) list"
  | XAdd string "(string \<times> string) list" int
  | XGroupCreate string string string
  | XReadGroup string string string int int
  | XAck string string string
  | XLen string
  | XInfoGroups string
  | XRange string int
  | RKeys string
  | RType string
  | RTtl string
  | RGet string
  | RInfo string
  | RDbSize
  | RPing
  | RClose

datatype pg_cmd =
    PgConnect
  | PgExecute string "pyval list"
  | PgFetchAll
  | PgFetchOne
  | PgRowCount
  | PgCommit
  | PgClose

datatype s3_cmd =
    S3Connect
  | S3HeadBucket string
  | S3CreateBucket string
  | S3UploadFile string string string
  | S3PutObject string string bytes
  | S3Presign string string int
  | S3ListObjects string

datatype fs_cmd =
    FsExists string
  | FsIsFile string
  | FsRead string
  | FsReadHead string nat
  | FsReadFrom string nat
  | FsSize string
  | FsWrite string bytes
  | FsMkTemp string
  | FsMkDTemp string
  | FsMakeDirs string
  | FsListDir string
  | FsWalk string
  | FsRemove string
  | FsRmTree string

datatype tool_cmd =
    Which string
  | RunProc "string list" string nat
  | ScapyIP bytes
  | ScapyBuild string string pyval pyval string int int bytes
  | ScapyWrPcap string "pyval list"
  | CfgRead string
  | TfSession string string "int list" string
  | JsonLoads string
  | JsonDumps pyval
  | PortProbe string int
  | SysExit int

datatype docker_cmd =
    DkFromEnv
  | DkPing
  | DkVersion
  | DkNetworks
  | DkGet string
  | DkAttrs string
  | DkStatus string
  | DkReload string
  | DkLogs string int
  | DkCreate string string string
  | DkStart string
  | DkPutArchive string string string bytes
  | DkExec string "string list"
  | DkRemove string

datatype grpc_cmd =
    GrpcAnalyze string bytes string string string string
  | GrpcSendChunk string string bytes string string string string nat nat int
  | GrpcStreamAck
  | GrpcChannelClose
  | GrpcServerStart string
  | GrpcServerStop nat

datatype http_cmd =
    HttpPost string string
  | WsSend pyval

datatype call =
    Clock
  | Monotonic
  | UuidHex
  | Sleep pyfloat
  | Redis redis_cmd
  | RedisPipe "redis_cmd list"
  | Pg pg_cmd
  | S3 s3_cmd
  | Fs fs_cmd
  | Tool tool_cmd
  | Docker docker_cmd
  | Grpc grpc_cmd
  | Http http_cmd
  | StopSignal

type_synonym reply = "exn + pyval"
type_synonym event = "call \<times> reply"
type_synonym hist = "event list"
type_synonym env = "hist \<Rightarrow> call \<Rightarrow> reply"

record world =
  trace :: hist

section \<open>Programs\<close>

type_synonym ('s, 'a) prog = "'s \<Rightarrow> (exn + 'a) \<times> 's"

definition ret :: "'a \<Rightarrow> ('s, 'a) prog" where
  "ret x s = (Inr x, s)"

definition raise :: "exn \<Rightarrow> ('s, 'a) prog" where
  "raise e s = (Inl e, s)"

definition bindp :: "('s, 'a) prog \<Rightarrow> ('a \<Rightarrow> ('s, 'b) prog) \<Rightarrow> ('s, 'b) prog" where
  "bindp m f s = (case m s of (Inl e, s') \<Rightarrow> (Inl e, s') | (Inr x, s') \<Rightarrow> f x s')"

definition seqp :: "('s, 'a) prog \<Rightarrow> ('s, 'b) prog \<Rightarrow> ('s, 'b) prog" where
  "seqp m n = bindp m (\<lambda>_. n)"

text \<open>\<^verbatim>\<open>try: m except Exception as e: h(e)\<close>\<close>

definition catchp :: "('s, 'a) prog \<Rightarrow> (exn \<Rightarrow> ('s, 'a) prog) \<Rightarrow> ('s, 'a) prog" where
  "catchp m h s = (case m s of (Inl e, s') \<Rightarrow> h e s' | (Inr x, s') \<Rightarrow> (Inr x, s'))"

text \<open>\<^verbatim>\<open>try: m finally: f\<close>; an exception of the \<^verbatim>\<open>finally\<close> block wins.\<close>

definition finallyp :: "('s, 'a) prog \<Rightarrow> ('s, 'b) prog \<Rightarrow> ('s, 'a) prog" where
  "finallyp m f s =
     (case m s of (r, s') \<Rightarrow>
       (case f s' of (Inl e, s'') \<Rightarrow> (Inl e, s'') | (Inr _, s'') \<Rightarrow> (r, s'')))"

text \<open>\<^verbatim>\<open>except C as e: h(e)\<close> for the exception classes \<open>P\<close>; the others go on.\<close>

definition catchif :: "(exn_class \<Rightarrow> bool) \<Rightarrow> ('s, 'a) prog \<Rightarrow> (exn \<Rightarrow> ('s, 'a) prog) \<Rightarrow> ('s, 'a) prog" where
  "catchif P m h = catchp m (\<lambda>e. if P (exn_cls e) then h e else raise e)"

definition lift_sum :: "exn + 'a \<Rightarrow> ('s, 'a) prog" where
  "lift_sum r s = (r, s)"

definition getp :: "('s \<Rightarrow> 'a) \<Rightarrow> ('s, 'a) prog" where
  "getp f s = (Inr (f s), s)"

definition modifyp :: "('s \<Rightarrow> 's) \<Rightarrow> ('s, unit) prog" where
  "modifyp f s = (Inr (), f s)"

definition whenp :: "bool \<Rightarrow> ('s, unit) prog \<Rightarrow> ('s, unit) prog" where
  "whenp b m = (if b then m else ret ())"

primrec forp :: "'a list \<Rightarrow> ('a \<Rightarrow> ('s, unit) prog) \<Rightarrow> ('s, unit) prog" where
  "forp [] f = ret ()"
| "forp (x # xs) f = seqp (f x) (forp xs f)"

primrec mapp :: "('a \<Rightarrow> ('s, 'b) prog) \<Rightarrow> 'a list \<Rightarrow> ('s, 'b list) prog" where
  "mapp f [] = ret []"
| "mapp f (x # xs) = bindp (f x) (\<lambda>y. bindp (mapp f xs) (\<lambda>ys. ret (y # ys)))"

definition call :: "env \<Rightarrow> call \<Rightarrow> ('z world_scheme, pyval) prog" where
  "call E c w = (let r = E (trace w) c in (r, w\<lparr>trace := trace w @ [(c, r)]\<rparr>))"

definition do_call :: "env \<Rightarrow> call \<Rightarrow> ('z world_scheme, unit) prog" where
  "do_call E c = bindp (call E c) (\<lambda>_. ret ())"

text \<open>A reply of another type than the code expects raises, as using the value would.\<close>

definition type_error :: "exn" where
  "type_error = Exn TypeErr ''unexpected type''"

definition as_bool :: "pyval \<Rightarrow> exn + bool" where
  "as_bool v = (case v of PBool b \<Rightarrow> Inr b | _ \<Rightarrow> Inl type_error)"

definition as_str :: "pyval \<Rightarrow> exn + string" where
  "as_str v = (case v of PStr s \<Rightarrow> Inr s | _ \<Rightarrow> Inl type_error)"

definition as_int :: "pyval \<Rightarrow> exn + int" where
  "as_int v = (case v of PInt n \<Rightarrow> Inr n | _ \<Rightarrow> Inl type_error)"

definition as_float :: "pyval \<Rightarrow> exn + pyfloat" where
  "as_float v = (case v of PFloat x \<Rightarrow> Inr x | PInt n \<Rightarrow> Inr (of_int n) | _ \<Rightarrow> Inl type_error)"

definition as_bytes :: "pyval \<Rightarrow> exn + bytes" where
  "as_bytes v = (case v of PBytes b \<Rightarrow> Inr b | _ \<Rightarrow> Inl type_error)"

definition as_list :: "pyval \<Rightarrow> exn + pyval list" where
  "as_list v = (case v of PList l \<Rightarrow> Inr l | _ \<Rightarrow> Inl type_error)"

definition as_dict :: "pyval \<Rightarrow> exn + (string \<times> pyval) list" where
  "as_dict v = (case v of PDict d \<Rightarrow> Inr d | _ \<Rightarrow> Inl type_error)"

text \<open>What a program leaves: its exit code and the decoded texts of its two outputs.\<close>

definition as_process :: "pyval \<Rightarrow> exn + int \<times> string \<times> string" where
  "as_process v = (case v of PList [PInt rc, PStr out, PStr err] \<Rightarrow> Inr (rc, out, err) | _ \<Rightarrow> Inl type_error)"

text \<open>\<^verbatim>\<open>k in v\<close> and \<^verbatim>\<open>v[k]\<close> for a string \<^verbatim>\<open>k\<close> and a value of any type.\<close>

definition py_in :: "string \<Rightarrow> pyval \<Rightarrow> exn + bool" where
  "py_in k v = (case v of
       PDict d \<Rightarrow> Inr (k \<in> fst ` set d) | PList l \<Rightarrow> Inr (PStr k \<in> set l) | PStr s \<Rightarrow> Inr (contains s k)
     | _ \<Rightarrow> Inl type_error)"

definition py_item :: "pyval \<Rightarrow> string \<Rightarrow> exn + pyval" where
  "py_item v k = (case v of PDict d \<Rightarrow> dict_item d k | _ \<Rightarrow> Inl type_error)"

definition call_as :: "(pyval \<Rightarrow> exn + 'a) \<Rightarrow> env \<Rightarrow> call \<Rightarrow> ('z world_scheme, 'a) prog" where
  "call_as t E c = bindp (call E c) (\<lambda>v. lift_sum (t v))"

text \<open>\<^verbatim>\<open>int(time.time() * 1000)\<close>\<close>

definition now_ms :: "env \<Rightarrow> ('z world_scheme, int) prog" where
  "now_ms E = bindp (call_as as_float E Clock) (\<lambda>t. ret (py_trunc (t * 1000)))"

text \<open>\<^verbatim>\<open>os.path.exists\<close> answers \<^verbatim>\<open>False\<close> where the system call fails.\<close>

definition path_exists :: "env \<Rightarrow> string \<Rightarrow> ('z world_scheme, bool) prog" where
  "path_exists E path = catchp (call_as as_bool E (Fs (FsExists path))) (\<lambda>_. ret False)"

definition basename :: "string \<Rightarrow> string" where
  "basename path = last (split_on CHR ''/'' path)"

text \<open>A history in which every reply is the environment's own.\<close>

definition genuine :: "env \<Rightarrow> hist \<Rightarrow> bool" where
  "genuine E h \<longleftrightarrow> (\<forall>i < length h. snd (h ! i) = E (take i h) (fst (h ! i)))"

section \<open>Parameters of the language's libraries\<close>

text \<open>
  SHA-256, the printing and reading of floats, \<^verbatim>\<open>math.exp\<close>, \<^verbatim>\<open>str\<close> of a value of any type,
  \<^verbatim>\<open>traceback.format_exc\<close>, and the error code of a botocore \<^verbatim>\<open>ClientError\<close>
  (\<^verbatim>\<open>e.response["Error"]["Code"]\<close>). \<open>float_roundtrip\<close> is the documented
  property of \<^verbatim>\<open>repr\<close>: reading a printed float gives it back.
\<close>

record pylib =
  sha256_hex :: "bytes \<Rightarrow> string"
  float_str :: "pyfloat \<Rightarrow> string"
  str_float :: "string \<Rightarrow> exn + pyfloat"
  client_code :: "exn \<Rightarrow> string"
  fexp :: "pyfloat \<Rightarrow> exn + pyfloat"
  py_str :: "pyval \<Rightarrow> string"
  format_exc :: "exn \<Rightarrow> string"

definition float_roundtrip :: "pylib \<Rightarrow> bool" where
  "float_roundtrip L \<longleftrightarrow> (\<forall>x. str_float L (float_str L x) = Inr x)"

text \<open>A library for the witnesses: floats are printed as a fraction; integers and unsigned decimals are read too.\<close>

definition ref_lib :: pylib where
  "ref_lib = \<lparr>sha256_hex = map (\<lambda>b. char_of (unat b)),
     float_str = (\<lambda>x. case quotient_of x of (n, d) \<Rightarrow> int_str n @ CHR ''/'' # int_str d),
     str_float = (\<lambda>s. case split_on CHR ''/'' s of
        [a, b] \<Rightarrow> (case (py_int a, py_int b) of
                     (Inr n, Inr d) \<Rightarrow> Inr (of_int n / of_int d)
                   | _ \<Rightarrow> Inl (Exn ValueError ''float''))
      | [a] \<Rightarrow> (case split_on CHR ''.'' a of
            [n, ds] \<Rightarrow> (if list_all is_digit (n @ ds)
              then Inr (of_nat (digits_val (n @ ds)) / 10 ^ length ds) else Inl (Exn ValueError ''float''))
          | _ \<Rightarrow> (case py_int a of Inr n \<Rightarrow> Inr (of_int n) | Inl e \<Rightarrow> Inl e))
      | _ \<Rightarrow> Inl (Exn ValueError ''float'')),
     client_code = exn_str,
     fexp = (\<lambda>x. Inr (if x \<ge> 0 then 1 + x else 1 / (1 - x))),
     py_str = (\<lambda>v. case v of PStr s \<Rightarrow> s | PInt n \<Rightarrow> int_str n
        | PBool b \<Rightarrow> (if b then ''True'' else ''False'') | _ \<Rightarrow> []),
     format_exc = exn_str\<rparr>"

section \<open>Program logic\<close>

named_theorems emits_intros \<open>rules for the events of a program\<close>
named_theorems no_raise_intros \<open>rules for programs that do not raise\<close>
named_theorems wp_simps \<open>weakest preconditions\<close>

definition emits :: "(event \<Rightarrow> bool) \<Rightarrow> ('z world_scheme, 'a) prog \<Rightarrow> bool" where
  "emits P m \<longleftrightarrow> (\<forall>w. \<exists>es. trace (snd (m w)) = trace w @ es \<and> list_all P es)"

definition no_raise :: "('s, 'a) prog \<Rightarrow> bool" where
  "no_raise m \<longleftrightarrow> (\<forall>s. \<exists>x. fst (m s) = Inr x)"

definition wp :: "('s, 'a) prog \<Rightarrow> (exn + 'a \<Rightarrow> 's \<Rightarrow> bool) \<Rightarrow> 's \<Rightarrow> bool" where
  "wp m Q s \<longleftrightarrow> Q (fst (m s)) (snd (m s))"

text \<open>The events a run adds.\<close>

definition new_events :: "('z world_scheme, 'a) prog \<Rightarrow> 'z world_scheme \<Rightarrow> hist" where
  "new_events m w = drop (length (trace w)) (trace (snd (m w)))"


text \<open>Running a program on a concrete environment.\<close>

lemma call_eval: "E (trace w) c = r \<Longrightarrow> call E c w = (r, w\<lparr>trace := trace w @ [(c, r)]\<rparr>)"
  by (simp add: call_def Let_def)

lemmas run_defs = bindp_def seqp_def ret_def raise_def catchp_def catchif_def finallyp_def lift_sum_def getp_def
  modifyp_def whenp_def call_eval do_call_def call_as_def now_ms_def Let_def
  path_exists_def as_bool_def as_str_def as_int_def as_float_def as_bytes_def as_list_def as_dict_def py_trunc_def py_nth_def

lemmas print_defs = int_str_def nat_str.simps

section \<open>Genuine histories\<close>

lemma genuine_Nil [simp]: "genuine E []"
  by (simp add: genuine_def)

lemma genuine_snoc [simp]: "genuine E (h @ [(c, r)]) \<longleftrightarrow> genuine E h \<and> r = E h c"
  unfolding genuine_def by (auto simp: nth_append less_Suc_eq)

lemma genuine_snoc2 [simp]:
  "genuine E (h @ [(c, r), (c', r')]) \<longleftrightarrow> genuine E h \<and> r = E h c \<and> r' = E (h @ [(c, r)]) c'"
  using genuine_snoc [of E "h @ [(c, r)]" c' r'] by simp

lemma genuine_reply:
  assumes "genuine E h" and "(c, r) \<in> set h"
  shows "\<exists>h'. genuine E h' \<and> r = E h' c"
proof -
  from assms(2) obtain i where i: "i < length h" "h ! i = (c, r)"
    by (auto simp: in_set_conv_nth)
  have "genuine E (take i h)"
    using assms(1) i(1) unfolding genuine_def by auto
  moreover have "r = E (take i h) c"
    using assms(1) i unfolding genuine_def by force
  ultimately show ?thesis by blast
qed

section \<open>Rules for the events of a program\<close>

lemma emits_ret [emits_intros]: "emits P (ret x)"
  by (simp add: emits_def ret_def)

lemma emits_raise [emits_intros]: "emits P (raise e)"
  by (simp add: emits_def raise_def)

lemma emits_lift_sum [emits_intros]: "emits P (lift_sum r)"
  by (simp add: emits_def lift_sum_def)

lemma emits_getp [emits_intros]: "emits P (getp f)"
  by (simp add: emits_def getp_def)

lemma emits_modifyp [emits_intros]: "(\<And>w. trace (f w) = trace w) \<Longrightarrow> emits P (modifyp f)"
  by (simp add: emits_def modifyp_def)

lemma emitsD:
  "emits P m \<Longrightarrow> m w = (r, w') \<Longrightarrow> \<exists>es. trace w' = trace w @ es \<and> list_all P es"
  unfolding emits_def by (metis snd_conv)

lemma emits_bindp [emits_intros]:
  assumes m: "emits P m" and f: "\<And>x. emits P (f x)"
  shows "emits P (bindp m f)"
  unfolding emits_def
proof
  fix w
  obtain r w' where mw: "m w = (r, w')" by fastforce
  obtain es where es: "trace w' = trace w @ es" "list_all P es"
    using emitsD [OF m mw] by blast
  show "\<exists>es. trace (snd (bindp m f w)) = trace w @ es \<and> list_all P es"
  proof (cases r)
    case (Inl e)
    with mw es show ?thesis by (auto simp: bindp_def)
  next
    case (Inr x)
    obtain r2 w2 where fw: "f x w' = (r2, w2)" by fastforce
    obtain es2 where "trace w2 = trace w' @ es2" "list_all P es2"
      using emitsD [OF f fw] by blast
    with mw es Inr fw show ?thesis by (auto simp: bindp_def)
  qed
qed

lemma emits_seqp [emits_intros]: "emits P m \<Longrightarrow> emits P n \<Longrightarrow> emits P (seqp m n)"
  by (simp add: seqp_def emits_bindp)

lemma emits_catchp [emits_intros]:
  assumes m: "emits P m" and h: "\<And>e. emits P (h e)"
  shows "emits P (catchp m h)"
  unfolding emits_def
proof
  fix w
  obtain r w' where mw: "m w = (r, w')" by fastforce
  obtain es where es: "trace w' = trace w @ es" "list_all P es"
    using emitsD [OF m mw] by blast
  show "\<exists>es. trace (snd (catchp m h w)) = trace w @ es \<and> list_all P es"
  proof (cases r)
    case (Inr x)
    with mw es show ?thesis by (auto simp: catchp_def)
  next
    case (Inl e)
    obtain r2 w2 where hw: "h e w' = (r2, w2)" by fastforce
    obtain es2 where "trace w2 = trace w' @ es2" "list_all P es2"
      using emitsD [OF h hw] by blast
    with mw es Inl hw show ?thesis by (auto simp: catchp_def)
  qed
qed

lemma emits_catchif [emits_intros]: "emits P m \<Longrightarrow> (\<And>e. emits P (h e)) \<Longrightarrow> emits P (catchif Q m h)"
  by (auto simp: catchif_def intro!: emits_catchp emits_raise)

lemma emits_finallyp [emits_intros]:
  assumes m: "emits P m" and f: "emits P f"
  shows "emits P (finallyp m f)"
  unfolding emits_def
proof
  fix w
  obtain r w' where mw: "m w = (r, w')" by fastforce
  obtain es where es: "trace w' = trace w @ es" "list_all P es"
    using emitsD [OF m mw] by blast
  obtain r2 w2 where fw: "f w' = (r2, w2)" by fastforce
  obtain es2 where "trace w2 = trace w' @ es2" "list_all P es2"
    using emitsD [OF f fw] by blast
  with mw es fw show "\<exists>es. trace (snd (finallyp m f w)) = trace w @ es \<and> list_all P es"
    by (auto simp: finallyp_def split: sum.splits)
qed

lemma emits_whenp [emits_intros]: "(b \<Longrightarrow> emits P m) \<Longrightarrow> emits P (whenp b m)"
  by (simp add: whenp_def emits_ret)

lemma emits_forp [emits_intros]:
  "(\<And>x. x \<in> set xs \<Longrightarrow> emits P (f x)) \<Longrightarrow> emits P (forp xs f)"
  by (induction xs) (auto intro: emits_ret emits_seqp)

lemma emits_mapp [emits_intros]:
  "(\<And>x. x \<in> set xs \<Longrightarrow> emits P (f x)) \<Longrightarrow> emits P (mapp f xs)"
  by (induction xs) (auto intro!: emits_ret emits_bindp)

lemma emits_call [emits_intros]: "(\<And>r. P (c, r)) \<Longrightarrow> emits P (call E c)"
  by (simp add: emits_def call_def Let_def)

lemma emits_do_call [emits_intros]: "(\<And>r. P (c, r)) \<Longrightarrow> emits P (do_call E c)"
  by (auto simp: do_call_def intro!: emits_intros)

lemma emits_call_as [emits_intros]: "(\<And>r. P (c, r)) \<Longrightarrow> emits P (call_as t E c)"
  by (auto simp: call_as_def intro!: emits_intros)

lemma emits_now_ms [emits_intros]: "(\<And>r. P (Clock, r)) \<Longrightarrow> emits P (now_ms E)"
  by (auto simp: now_ms_def intro!: emits_intros)

lemma emits_path_exists [emits_intros]: "(\<And>r. P (Fs (FsExists p), r)) \<Longrightarrow> emits P (path_exists E p)"
  by (auto simp: path_exists_def intro!: emits_intros)

lemma emits_if [emits_intros]:
  "(b \<Longrightarrow> emits P m) \<Longrightarrow> (\<not> b \<Longrightarrow> emits P n) \<Longrightarrow> emits P (if b then m else n)"
  by simp

lemma emits_case_option [emits_intros]:
  "(x = None \<Longrightarrow> emits P m) \<Longrightarrow> (\<And>y. x = Some y \<Longrightarrow> emits P (f y)) \<Longrightarrow>
     emits P (case x of None \<Rightarrow> m | Some y \<Rightarrow> f y)"
  by (cases x) auto

lemma emits_case_sum [emits_intros]:
  "(\<And>e. x = Inl e \<Longrightarrow> emits P (f e)) \<Longrightarrow> (\<And>y. x = Inr y \<Longrightarrow> emits P (g y)) \<Longrightarrow>
     emits P (case x of Inl e \<Rightarrow> f e | Inr y \<Rightarrow> g y)"
  by (cases x) auto

lemma emits_case_prod [emits_intros]:
  "(\<And>a b. x = (a, b) \<Longrightarrow> emits P (f a b)) \<Longrightarrow> emits P (case x of (a, b) \<Rightarrow> f a b)"
  by (cases x) auto

lemma emits_case_list [emits_intros]:
  "(x = [] \<Longrightarrow> emits P m) \<Longrightarrow> (\<And>y ys. x = y # ys \<Longrightarrow> emits P (f y ys)) \<Longrightarrow>
     emits P (case x of [] \<Rightarrow> m | y # ys \<Rightarrow> f y ys)"
  by (cases x) auto

lemma emits_Let [emits_intros]: "emits P (f v) \<Longrightarrow> emits P (Let v f)"
  by simp

lemma emits_mono: "emits P m \<Longrightarrow> (\<And>e. P e \<Longrightarrow> Q e) \<Longrightarrow> emits Q m"
  unfolding emits_def by (metis list.pred_mono_strong)

lemma emits_new_events: "emits P m \<Longrightarrow> e \<in> set (new_events m w) \<Longrightarrow> P e"
  unfolding new_events_def emits_def list_all_iff
  by (metis append_eq_conv_conj)

lemma trace_new_events: "emits P m \<Longrightarrow> trace (snd (m w)) = trace w @ new_events m w"
  unfolding new_events_def emits_def by (metis append_eq_conv_conj)

section \<open>Rules for programs that do not raise\<close>

lemma no_raise_ret [no_raise_intros]: "no_raise (ret x)"
  by (simp add: no_raise_def ret_def)

lemma no_raise_getp [no_raise_intros]: "no_raise (getp f)"
  by (simp add: no_raise_def getp_def)

lemma no_raise_modifyp [no_raise_intros]: "no_raise (modifyp f)"
  by (simp add: no_raise_def modifyp_def)

lemma no_raise_bindp [no_raise_intros]:
  "no_raise m \<Longrightarrow> (\<And>x. no_raise (f x)) \<Longrightarrow> no_raise (bindp m f)"
  unfolding no_raise_def bindp_def
  by (metis (no_types, lifting) case_prod_conv old.sum.simps(6) prod.collapse)

lemma no_raise_seqp [no_raise_intros]: "no_raise m \<Longrightarrow> no_raise n \<Longrightarrow> no_raise (seqp m n)"
  by (simp add: seqp_def no_raise_bindp)

lemma no_raise_catchp [no_raise_intros]: "(\<And>e. no_raise (h e)) \<Longrightarrow> no_raise (catchp m h)"
  unfolding no_raise_def catchp_def
  by (auto split: prod.splits sum.splits)

lemma no_raise_finallyp [no_raise_intros]:
  "no_raise m \<Longrightarrow> no_raise f \<Longrightarrow> no_raise (finallyp m f)"
  unfolding no_raise_def finallyp_def
  by (auto split: prod.splits sum.splits) (metis fst_conv sum.distinct(1))+

lemma no_raise_whenp [no_raise_intros]: "(b \<Longrightarrow> no_raise m) \<Longrightarrow> no_raise (whenp b m)"
  by (simp add: whenp_def no_raise_ret)

lemma no_raise_forp [no_raise_intros]:
  "(\<And>x. x \<in> set xs \<Longrightarrow> no_raise (f x)) \<Longrightarrow> no_raise (forp xs f)"
  by (induction xs) (auto intro: no_raise_intros)

lemma no_raise_if [no_raise_intros]:
  "(b \<Longrightarrow> no_raise m) \<Longrightarrow> (\<not> b \<Longrightarrow> no_raise n) \<Longrightarrow> no_raise (if b then m else n)"
  by simp

lemma no_raise_Let [no_raise_intros]: "no_raise (f v) \<Longrightarrow> no_raise (Let v f)"
  by simp

lemma no_raise_case_prod [no_raise_intros]:
  "(\<And>a b. x = (a, b) \<Longrightarrow> no_raise (f a b)) \<Longrightarrow> no_raise (case x of (a, b) \<Rightarrow> f a b)"
  by (cases x) auto

lemma no_raise_case_option [no_raise_intros]:
  "(x = None \<Longrightarrow> no_raise m) \<Longrightarrow> (\<And>y. x = Some y \<Longrightarrow> no_raise (f y)) \<Longrightarrow>
     no_raise (case x of None \<Rightarrow> m | Some y \<Rightarrow> f y)"
  by (cases x) auto

lemma no_raise_path_exists [no_raise_intros]: "no_raise (path_exists E p)"
  by (simp add: path_exists_def no_raise_intros)

lemma no_raiseE: "no_raise m \<Longrightarrow> (\<And>x s'. m s = (Inr x, s') \<Longrightarrow> P) \<Longrightarrow> P"
  unfolding no_raise_def by (metis prod.collapse)

section \<open>Weakest preconditions\<close>

lemma wp_ret [wp_simps]: "wp (ret x) Q s = Q (Inr x) s"
  by (simp add: wp_def ret_def)

lemma wp_raise [wp_simps]: "wp (raise e) Q s = Q (Inl e) s"
  by (simp add: wp_def raise_def)

lemma wp_lift_sum [wp_simps]: "wp (lift_sum r) Q s = Q r s"
  by (simp add: wp_def lift_sum_def)

lemma wp_getp [wp_simps]: "wp (getp f) Q s = Q (Inr (f s)) s"
  by (simp add: wp_def getp_def)

lemma wp_modifyp [wp_simps]: "wp (modifyp f) Q s = Q (Inr ()) (f s)"
  by (simp add: wp_def modifyp_def)

lemma wp_bindp [wp_simps]:
  "wp (bindp m f) Q s =
     wp m (\<lambda>r s'. case r of Inl e \<Rightarrow> Q (Inl e) s' | Inr x \<Rightarrow> wp (f x) Q s') s"
  by (auto simp: wp_def bindp_def split: prod.splits sum.splits)

lemma wp_seqp [wp_simps]:
  "wp (seqp m n) Q s =
     wp m (\<lambda>r s'. case r of Inl e \<Rightarrow> Q (Inl e) s' | Inr x \<Rightarrow> wp n Q s') s"
  by (simp add: seqp_def wp_bindp)

lemma wp_catchp [wp_simps]:
  "wp (catchp m h) Q s =
     wp m (\<lambda>r s'. case r of Inl e \<Rightarrow> wp (h e) Q s' | Inr x \<Rightarrow> Q (Inr x) s') s"
  by (auto simp: wp_def catchp_def split: prod.splits sum.splits)

lemma wp_finallyp [wp_simps]:
  "wp (finallyp m f) Q s =
     wp m (\<lambda>r s'. wp f (\<lambda>r2 s''. case r2 of Inl e \<Rightarrow> Q (Inl e) s'' | Inr _ \<Rightarrow> Q r s'') s') s"
  by (auto simp: wp_def finallyp_def split: prod.splits sum.splits)

lemma wp_whenp [wp_simps]: "wp (whenp b m) Q s = (if b then wp m Q s else Q (Inr ()) s)"
  by (simp add: whenp_def wp_ret)

lemma wp_call [wp_simps]:
  "wp (call E c) Q w = Q (E (trace w) c) (w\<lparr>trace := trace w @ [(c, E (trace w) c)]\<rparr>)"
  by (simp add: wp_def call_def Let_def)

lemma wp_call_as [wp_simps]:
  "wp (call_as t E c) Q w = (let r = E (trace w) c; w' = w\<lparr>trace := trace w @ [(c, r)]\<rparr>
     in case r of Inl e \<Rightarrow> Q (Inl e) w' | Inr v \<Rightarrow> Q (t v) w')"
  by (simp add: call_as_def wp_bindp wp_call wp_lift_sum Let_def split: sum.split)

lemma wp_do_call [wp_simps]:
  "wp (do_call E c) Q w = (let r = E (trace w) c; w' = w\<lparr>trace := trace w @ [(c, r)]\<rparr>
     in case r of Inl e \<Rightarrow> Q (Inl e) w' | Inr v \<Rightarrow> Q (Inr ()) w')"
  by (simp add: do_call_def wp_bindp wp_call wp_ret Let_def split: sum.split)

lemma wp_catchif [wp_simps]:
  "wp (catchif P m h) Q s =
     wp m (\<lambda>r s'. case r of Inl e \<Rightarrow> (if P (exn_cls e) then wp (h e) Q s' else Q (Inl e) s')
                         | Inr x \<Rightarrow> Q (Inr x) s') s"
  by (auto simp: wp_def catchif_def catchp_def raise_def split: prod.splits sum.splits)

lemma wp_mono: "wp m Q s \<Longrightarrow> (\<And>r s'. Q r s' \<Longrightarrow> R r s') \<Longrightarrow> wp m R s"
  by (simp add: wp_def)

lemma wp_conj: "wp m Q s \<Longrightarrow> wp m R s \<Longrightarrow> wp m (\<lambda>r s'. Q r s' \<and> R r s') s"
  by (simp add: wp_def)

lemma wp_if [wp_simps]: "wp (if b then m else n) Q s = (if b then wp m Q s else wp n Q s)"
  by simp

text \<open>What the events of a part satisfy is known to the rest.\<close>

lemma wp_emitsI:
  assumes "emits P m" and "\<And>r s' es. trace s' = trace s @ es \<Longrightarrow> list_all P es \<Longrightarrow> Q r s'"
  shows "wp m Q s"
  using assms(1) assms(2) [of "snd (m s)" _ "fst (m s)"] unfolding emits_def wp_def by blast

lemma wp_bind_emits:
  fixes s :: "'z world_scheme"
  assumes m: "emits P m" and tr: "trace s = h @ es0" "list_all P es0"
    and exn: "\<And>e (s' :: 'z world_scheme) es. trace s' = h @ es \<Longrightarrow> list_all P es \<Longrightarrow> Q (Inl e) s'"
    and rest: "\<And>x (s' :: 'z world_scheme) es. trace s' = h @ es \<Longrightarrow> list_all P es \<Longrightarrow> wp (f x) Q s'"
  shows "wp (bindp m f) Q s"
  unfolding wp_bindp
proof (rule wp_emitsI [OF m])
  fix r and s' :: "'z world_scheme" and es
  assume "trace s' = trace s @ es" "list_all P es"
  then have "trace s' = h @ (es0 @ es)" "list_all P (es0 @ es)" using tr by simp_all
  then show "case r of Inl e \<Rightarrow> Q (Inl e) s' | Inr x \<Rightarrow> wp (f x) Q s'"
    using exn rest by (cases r) auto
qed

lemma wp_no_raise: "no_raise m \<Longrightarrow> wp m (\<lambda>r s'. \<exists>x. r = Inr x) s"
  by (simp add: wp_def no_raise_def)

text \<open>An invariant of every step of a loop over a list, with a fact of every result.\<close>

lemma wp_mapp_inv:
  assumes step: "\<And>x s. I s \<Longrightarrow> wp (f x) (\<lambda>r s'. I s' \<and> (\<forall>y. r = Inr y \<longrightarrow> P y)) s"
  shows "I s \<Longrightarrow> wp (mapp f xs) (\<lambda>r s'. I s' \<and> (\<forall>ys. r = Inr ys \<longrightarrow> list_all P ys)) s"
proof (induction xs arbitrary: s)
  case Nil
  then show ?case by (simp add: wp_simps)
next
  case (Cons x xs)
  show ?case
    unfolding mapp.simps wp_bindp
  proof (rule wp_mono [OF step [OF Cons.prems]])
    fix r s'
    assume r: "I s' \<and> (\<forall>y. r = Inr y \<longrightarrow> P y)"
    show "case r of Inl e \<Rightarrow> I s' \<and> (\<forall>ys. Inl e = Inr ys \<longrightarrow> list_all P ys)
       | Inr y \<Rightarrow> wp (mapp f xs) (\<lambda>r s'. case r of Inl e \<Rightarrow> I s' \<and> (\<forall>ys. Inl e = Inr ys \<longrightarrow> list_all P ys)
           | Inr ys \<Rightarrow> wp (ret (y # ys)) (\<lambda>r s'. I s' \<and> (\<forall>ys. r = Inr ys \<longrightarrow> list_all P ys)) s') s'"
    proof (cases r)
      case (Inl e)
      with r show ?thesis by simp
    next
      case (Inr y)
      with r have "I s'" "P y" by auto
      with Cons.IH [OF \<open>I s'\<close>] Inr show ?thesis
        by (auto simp: wp_simps intro: wp_mono split: sum.split)
    qed
  qed
qed

lemma mapp_length: "fst (mapp f xs s) = Inr ys \<Longrightarrow> length ys = length xs"
proof (induction xs arbitrary: s ys)
  case Nil
  then show ?case by (simp add: ret_def)
next
  case (Cons x xs)
  from Cons.prems show ?case
    by (auto simp: bindp_def ret_def split: prod.splits sum.splits)
      (metis Cons.IH fst_conv)
qed

lemma list_all_True: "list_all (\<lambda>b. b) bs \<Longrightarrow> bs = replicate (length bs) True"
  by (induction bs) auto

section \<open>What holds when a program returns\<close>

text \<open>\<open>okp m Q s\<close>: if \<open>m\<close> returns from \<open>s\<close> without an exception, its result and state satisfy \<open>Q\<close>.\<close>

named_theorems okp_simps \<open>postconditions of a normal return\<close>

definition okp :: "('s, 'a) prog \<Rightarrow> ('a \<Rightarrow> 's \<Rightarrow> bool) \<Rightarrow> 's \<Rightarrow> bool" where
  "okp m Q s \<longleftrightarrow> (\<forall>x s'. m s = (Inr x, s') \<longrightarrow> Q x s')"

lemma okp_ret [okp_simps]: "okp (ret x) Q s = Q x s"
  by (simp add: okp_def ret_def)

lemma okp_raise [okp_simps]: "okp (raise e) Q s"
  by (simp add: okp_def raise_def)

lemma okp_lift_sum [okp_simps]: "okp (lift_sum r) Q s = (\<forall>x. r = Inr x \<longrightarrow> Q x s)"
  by (simp add: okp_def lift_sum_def)

lemma okp_getp [okp_simps]: "okp (getp f) Q s = Q (f s) s"
  by (simp add: okp_def getp_def)

lemma okp_modifyp [okp_simps]: "okp (modifyp f) Q s = Q () (f s)"
  by (simp add: okp_def modifyp_def)

lemma okp_bindp [okp_simps]: "okp (bindp m f) Q s = okp m (\<lambda>x s'. okp (f x) Q s') s"
  by (auto simp: okp_def bindp_def split: prod.splits sum.splits)

lemma okp_seqp [okp_simps]: "okp (seqp m n) Q s = okp m (\<lambda>_ s'. okp n Q s') s"
  by (simp add: seqp_def okp_bindp)

lemma okp_whenp [okp_simps]: "okp (whenp b m) Q s = (if b then okp m Q s else Q () s)"
  by (simp add: whenp_def okp_ret)

lemma okp_call [okp_simps]:
  "okp (call E c) Q w =
     (\<forall>v. E (trace w) c = Inr v \<longrightarrow> Q v (w\<lparr>trace := trace w @ [(c, Inr v)]\<rparr>))"
  by (auto simp: okp_def call_def Let_def)

lemma okp_do_call [okp_simps]:
  "okp (do_call E c) Q w =
     (\<forall>v. E (trace w) c = Inr v \<longrightarrow> Q () (w\<lparr>trace := trace w @ [(c, Inr v)]\<rparr>))"
  by (simp add: do_call_def okp_simps)

lemma okp_call_as [okp_simps]:
  "okp (call_as t E c) Q w =
     (\<forall>v x. E (trace w) c = Inr v \<longrightarrow> t v = Inr x \<longrightarrow> Q x (w\<lparr>trace := trace w @ [(c, Inr v)]\<rparr>))"
  by (simp add: call_as_def okp_simps)

lemma okp_now_ms [okp_simps]:
  "okp (now_ms E) Q w =
     (\<forall>v t. E (trace w) Clock = Inr v \<longrightarrow> as_float v = Inr t \<longrightarrow>
        Q (py_trunc (t * 1000)) (w\<lparr>trace := trace w @ [(Clock, Inr v)]\<rparr>))"
  by (simp add: now_ms_def okp_simps)

lemma okp_catchp [okp_simps]:
  "okp (catchp m h) Q s = wp m (\<lambda>r s'. case r of Inl e \<Rightarrow> okp (h e) Q s' | Inr x \<Rightarrow> Q x s') s"
  by (auto simp: okp_def wp_def catchp_def split: prod.splits sum.splits)

lemma okp_catchif [okp_simps]:
  "okp (catchif P m h) Q s =
     wp m (\<lambda>r s'. case r of Inl e \<Rightarrow> (P (exn_cls e) \<longrightarrow> okp (h e) Q s') | Inr x \<Rightarrow> Q x s') s"
  by (auto simp: okp_def wp_def catchif_def catchp_def raise_def split: prod.splits sum.splits)

lemma okp_finallyp [okp_simps]:
  "okp (finallyp m f) Q s = okp m (\<lambda>x s'. okp f (\<lambda>_ s''. Q x s'') s') s"
  by (auto simp: okp_def finallyp_def split: prod.splits sum.splits)

lemma okp_if [okp_simps]: "okp (if b then m else n) Q s = (if b then okp m Q s else okp n Q s)"
  by simp

lemma okp_mono: "okp m Q s \<Longrightarrow> (\<And>x s'. Q x s' \<Longrightarrow> R x s') \<Longrightarrow> okp m R s"
  by (simp add: okp_def)

lemma okp_bindI: "okp m R s \<Longrightarrow> (\<And>x s'. R x s' \<Longrightarrow> okp (f x) Q s') \<Longrightarrow> okp (bindp m f) Q s"
  unfolding okp_bindp unfolding okp_def by blast

lemma okp_bind_any: "(\<And>x s'. okp (f x) Q s') \<Longrightarrow> okp (bindp m f) Q s"
  unfolding okp_bindp unfolding okp_def by blast

lemma okp_seq_any: "(\<And>s'. okp n Q s') \<Longrightarrow> okp (seqp m n) Q s"
  unfolding okp_seqp unfolding okp_def by blast

lemma okp_ifI: "(b \<Longrightarrow> okp m Q s) \<Longrightarrow> (\<not> b \<Longrightarrow> okp n Q s) \<Longrightarrow> okp (if b then m else n) Q s"
  by simp

lemma okp_conj: "okp m Q s \<Longrightarrow> okp m R s \<Longrightarrow> okp m (\<lambda>x s'. Q x s' \<and> R x s') s"
  by (simp add: okp_def)

lemma okp_emits:
  "emits P m \<Longrightarrow> okp m (\<lambda>x s'. \<exists>es. trace s' = trace s @ es \<and> list_all P es) s"
  unfolding okp_def emits_def by (metis snd_conv)

lemma okpD: "okp m Q s \<Longrightarrow> fst (m s) = Inr x \<Longrightarrow> Q x (snd (m s))"
  unfolding okp_def by (metis prod.collapse)

lemma okp_forp_inv:
  assumes "\<And>x s. x \<in> set xs \<Longrightarrow> I s \<Longrightarrow> okp (f x) (\<lambda>_ s'. I s') s"
  shows "I s \<Longrightarrow> okp (forp xs f) (\<lambda>_ s'. I s') s"
  using assms
proof (induction xs arbitrary: s)
  case Nil
  then show ?case by (simp add: okp_simps)
next
  case (Cons x xs)
  then show ?case
    by (simp add: okp_seqp) (rule okp_mono [of "f x" "\<lambda>_ s'. I s'"], auto)
qed

text \<open>A loop whose state is related to the items done and the results so far.\<close>

lemma okp_mapp_fold:
  assumes step: "\<And>done ys x s. I done ys s \<Longrightarrow> okp (f x) (\<lambda>y s'. I (done @ [x]) (ys @ [y]) s') s"
  shows "I done ys s \<Longrightarrow> okp (mapp f xs) (\<lambda>zs s'. I (done @ xs) (ys @ zs) s') s"
proof (induction xs arbitrary: "done" ys s)
  case Nil
  then show ?case by (simp add: okp_simps)
next
  case (Cons x xs)
  show ?case
    unfolding mapp.simps okp_bindp okp_ret
  proof (rule okp_mono [OF step [OF Cons.prems, of x]])
    fix y s'
    assume "I (done @ [x]) (ys @ [y]) s'"
    from Cons.IH [OF this]
    show "okp (mapp f xs) (\<lambda>x' s'. I (done @ x # xs) (ys @ y # x') s') s'" by simp
  qed
qed

section \<open>What a program leaves alone\<close>

named_theorems keeps_intros \<open>rules for parts of the state a program keeps\<close>

definition keeps :: "('s \<Rightarrow> 'b) \<Rightarrow> ('s, 'a) prog \<Rightarrow> bool" where
  "keeps f m \<longleftrightarrow> (\<forall>s. f (snd (m s)) = f s)"

lemma keepsD: "keeps f m \<Longrightarrow> m s = (r, s') \<Longrightarrow> f s' = f s"
  unfolding keeps_def by (metis snd_conv)

lemma keeps_ret [keeps_intros]: "keeps f (ret x)"
  by (simp add: keeps_def ret_def)

lemma keeps_raise [keeps_intros]: "keeps f (raise e)"
  by (simp add: keeps_def raise_def)

lemma keeps_lift_sum [keeps_intros]: "keeps f (lift_sum r)"
  by (simp add: keeps_def lift_sum_def)

lemma keeps_getp [keeps_intros]: "keeps f (getp g)"
  by (simp add: keeps_def getp_def)

lemma keeps_modifyp [keeps_intros]: "(\<And>s. f (g s) = f s) \<Longrightarrow> keeps f (modifyp g)"
  by (simp add: keeps_def modifyp_def)

lemma keeps_bindp [keeps_intros]: "keeps f m \<Longrightarrow> (\<And>x. keeps f (g x)) \<Longrightarrow> keeps f (bindp m g)"
  unfolding keeps_def bindp_def by (auto split: prod.splits sum.splits) (metis snd_conv)+

lemma keeps_seqp [keeps_intros]: "keeps f m \<Longrightarrow> keeps f n \<Longrightarrow> keeps f (seqp m n)"
  by (simp add: seqp_def keeps_bindp)

lemma keeps_catchp [keeps_intros]: "keeps f m \<Longrightarrow> (\<And>e. keeps f (h e)) \<Longrightarrow> keeps f (catchp m h)"
  unfolding keeps_def catchp_def by (auto split: prod.splits sum.splits) (metis snd_conv)+

lemma keeps_catchif [keeps_intros]: "keeps f m \<Longrightarrow> (\<And>e. keeps f (h e)) \<Longrightarrow> keeps f (catchif P m h)"
  by (auto simp: catchif_def intro!: keeps_intros)

lemma keeps_finallyp [keeps_intros]: "keeps f m \<Longrightarrow> keeps f n \<Longrightarrow> keeps f (finallyp m n)"
  unfolding keeps_def finallyp_def by (auto split: prod.splits sum.splits) (metis snd_conv)+

lemma keeps_whenp [keeps_intros]: "keeps f m \<Longrightarrow> keeps f (whenp b m)"
  by (simp add: whenp_def keeps_ret)

lemma keeps_forp [keeps_intros]: "(\<And>x. x \<in> set xs \<Longrightarrow> keeps f (g x)) \<Longrightarrow> keeps f (forp xs g)"
  by (induction xs) (auto intro: keeps_ret keeps_seqp)

lemma keeps_mapp [keeps_intros]: "(\<And>x. x \<in> set xs \<Longrightarrow> keeps f (g x)) \<Longrightarrow> keeps f (mapp g xs)"
  by (induction xs) (auto intro!: keeps_ret keeps_bindp)

lemma keeps_call [keeps_intros]: "(\<And>w tr. f (w\<lparr>trace := tr\<rparr>) = f w) \<Longrightarrow> keeps f (call E c)"
  by (simp add: keeps_def call_def Let_def)

lemma keeps_do_call [keeps_intros]: "(\<And>w tr. f (w\<lparr>trace := tr\<rparr>) = f w) \<Longrightarrow> keeps f (do_call E c)"
  by (auto simp: do_call_def intro!: keeps_intros)

lemma keeps_call_as [keeps_intros]: "(\<And>w tr. f (w\<lparr>trace := tr\<rparr>) = f w) \<Longrightarrow> keeps f (call_as t E c)"
  by (auto simp: call_as_def intro!: keeps_intros)

lemma keeps_now_ms [keeps_intros]: "(\<And>w tr. f (w\<lparr>trace := tr\<rparr>) = f w) \<Longrightarrow> keeps f (now_ms E)"
  by (auto simp: now_ms_def intro!: keeps_intros)

lemma keeps_path_exists [keeps_intros]: "(\<And>w tr. f (w\<lparr>trace := tr\<rparr>) = f w) \<Longrightarrow> keeps f (path_exists E p)"
  by (auto simp: path_exists_def intro!: keeps_intros)

lemma keeps_if [keeps_intros]: "keeps f m \<Longrightarrow> keeps f n \<Longrightarrow> keeps f (if b then m else n)"
  by simp

lemma keeps_Let [keeps_intros]: "keeps f (g v) \<Longrightarrow> keeps f (Let v g)"
  by simp

lemma keeps_case_option [keeps_intros]:
  "keeps f m \<Longrightarrow> (\<And>y. keeps f (g y)) \<Longrightarrow> keeps f (case x of None \<Rightarrow> m | Some y \<Rightarrow> g y)"
  by (cases x) auto

lemma keeps_case_prod [keeps_intros]:
  "(\<And>a b. keeps f (g a b)) \<Longrightarrow> keeps f (case x of (a, b) \<Rightarrow> g a b)"
  by (cases x) auto

lemma keeps_case_list [keeps_intros]:
  "keeps f m \<Longrightarrow> (\<And>y ys. keeps f (g y ys)) \<Longrightarrow> keeps f (case x of [] \<Rightarrow> m | y # ys \<Rightarrow> g y ys)"
  by (cases x) auto

lemma keeps_case_sum [keeps_intros]:
  "(\<And>e. keeps f (g e)) \<Longrightarrow> (\<And>y. keeps f (h y)) \<Longrightarrow> keeps f (case x of Inl e \<Rightarrow> g e | Inr y \<Rightarrow> h y)"
  by (cases x) auto

lemma no_raise_case_sum [no_raise_intros]:
  "(\<And>e. no_raise (f e)) \<Longrightarrow> (\<And>x. no_raise (g x)) \<Longrightarrow> no_raise (case r of Inl e \<Rightarrow> f e | Inr x \<Rightarrow> g x)"
  by (cases r) auto

lemma bindp_ret: "bindp (ret x) f = f x"
  by (rule ext) (simp add: bindp_def ret_def)

lemma bindp_ret_right: "bindp m ret = m"
  by (rule ext) (simp add: bindp_def ret_def split: prod.splits sum.splits)

lemma bindp_assoc: "bindp (bindp m f) g = bindp m (\<lambda>x. bindp (f x) g)"
  by (rule ext) (simp add: bindp_def split: prod.splits sum.splits)

text \<open>
  A program that touches nothing but the history: it keeps every part of the state that does not
  depend on the history.
\<close>

definition only_trace :: "('z world_scheme, 'a) prog \<Rightarrow> bool" where
  "only_trace m \<longleftrightarrow> keeps (\<lambda>w. w\<lparr>trace := []\<rparr>) m"

lemma only_traceD: "only_trace m \<Longrightarrow> \<exists>tr. snd (m w) = w\<lparr>trace := tr\<rparr>"
proof -
  assume "only_trace m"
  then have "(snd (m w))\<lparr>trace := []\<rparr> = w\<lparr>trace := []\<rparr>"
    by (simp add: only_trace_def keeps_def)
  then have "((snd (m w))\<lparr>trace := []\<rparr>)\<lparr>trace := trace (snd (m w))\<rparr> = (w\<lparr>trace := []\<rparr>)\<lparr>trace := trace (snd (m w))\<rparr>"
    by (rule arg_cong)
  then show ?thesis by (metis world.surjective world.update_convs(1) world.unfold_congs(1))
qed

lemma keeps_only_trace: "only_trace m \<Longrightarrow> (\<And>w tr. f (w\<lparr>trace := tr\<rparr>) = f w) \<Longrightarrow> keeps f m"
  unfolding keeps_def using only_traceD by metis

lemma okp_only_trace:
  assumes "only_trace m" and "emits P m"
  shows "okp m (\<lambda>x w'. \<exists>es. w' = w\<lparr>trace := trace w @ es\<rparr> \<and> list_all P es) w"
  unfolding okp_def
proof (intro allI impI)
  fix x w' assume m: "m w = (Inr x, w')"
  obtain tr where tr: "w' = w\<lparr>trace := tr\<rparr>"
    using only_traceD [OF assms(1), of w] m by auto
  with emitsD [OF assms(2) m] show "\<exists>es. w' = w\<lparr>trace := trace w @ es\<rparr> \<and> list_all P es" by auto
qed

section \<open>Properties of the whole of the added history\<close>

text \<open>
  \<open>adds P m\<close>: what \<open>m\<close> adds to the history satisfies \<open>P\<close> as a whole. For a \<open>P\<close> that holds of the
  empty history and of the concatenation of two histories it holds of, it is compositional.
\<close>

definition adds :: "(hist \<Rightarrow> bool) \<Rightarrow> ('z world_scheme, 'a) prog \<Rightarrow> bool" where
  "adds P m \<longleftrightarrow> (\<forall>w. \<exists>es. trace (snd (m w)) = trace w @ es \<and> P es)"

lemma addsD: "adds P m \<Longrightarrow> m w = (r, w') \<Longrightarrow> \<exists>es. trace w' = trace w @ es \<and> P es"
  unfolding adds_def by (metis snd_conv)

lemma adds_new_events: "adds P m \<Longrightarrow> P (new_events m w)"
  unfolding adds_def new_events_def by (metis append_eq_conv_conj)

locale history_property =
  fixes P :: "hist \<Rightarrow> bool"
  assumes P_Nil: "P []" and P_append: "P h \<Longrightarrow> P h' \<Longrightarrow> P (h @ h')"
begin

lemma adds_keep: "(\<And>w. trace (snd (m w)) = trace w) \<Longrightarrow> adds P m"
  using P_Nil by (simp add: adds_def)

lemma adds_ret: "adds P (ret x)"
  by (rule adds_keep) (simp add: ret_def)

lemma adds_raise: "adds P (raise e)"
  by (rule adds_keep) (simp add: raise_def)

lemma adds_lift_sum: "adds P (lift_sum r)"
  by (rule adds_keep) (simp add: lift_sum_def)

lemma adds_getp: "adds P (getp f)"
  by (rule adds_keep) (simp add: getp_def)

lemma adds_call: "(\<And>r. P [(c, r)]) \<Longrightarrow> adds P (call E c)"
  by (auto simp: adds_def call_def Let_def)

lemma adds_trans:
  assumes "trace w1 = trace w @ es" "P es" "trace w2 = trace w1 @ es'" "P es'"
  shows "\<exists>es. trace w2 = trace w @ es \<and> P es"
  using assms P_append by auto

lemma adds_bindp:
  assumes m: "adds P m" and f: "\<And>x. adds P (f x)"
  shows "adds P (bindp m f)"
  unfolding adds_def
proof
  fix w :: "'a world_scheme"
  obtain r w1 where mw: "m w = (r, w1)" by fastforce
  obtain es where es: "trace w1 = trace w @ es" "P es" using addsD [OF m mw] by blast
  show "\<exists>es. trace (snd (bindp m f w)) = trace w @ es \<and> P es"
  proof (cases r)
    case (Inl e)
    with mw es show ?thesis by (auto simp: bindp_def)
  next
    case (Inr x)
    obtain r2 w2 where fw: "f x w1 = (r2, w2)" by fastforce
    obtain es' where "trace w2 = trace w1 @ es'" "P es'" using addsD [OF f fw] by blast
    from adds_trans [OF es this] mw Inr fw show ?thesis by (simp add: bindp_def)
  qed
qed

lemma adds_seqp: "adds P m \<Longrightarrow> adds P n \<Longrightarrow> adds P (seqp m n)"
  by (simp add: seqp_def adds_bindp)

lemma adds_catchp:
  assumes m: "adds P m" and h: "\<And>e. adds P (h e)"
  shows "adds P (catchp m h)"
  unfolding adds_def
proof
  fix w :: "'a world_scheme"
  obtain r w1 where mw: "m w = (r, w1)" by fastforce
  obtain es where es: "trace w1 = trace w @ es" "P es" using addsD [OF m mw] by blast
  show "\<exists>es. trace (snd (catchp m h w)) = trace w @ es \<and> P es"
  proof (cases r)
    case (Inr x)
    with mw es show ?thesis by (auto simp: catchp_def)
  next
    case (Inl e)
    obtain r2 w2 where hw: "h e w1 = (r2, w2)" by fastforce
    obtain es' where "trace w2 = trace w1 @ es'" "P es'" using addsD [OF h hw] by blast
    from adds_trans [OF es this] mw Inl hw show ?thesis by (simp add: catchp_def)
  qed
qed

lemma adds_catchif: "adds P m \<Longrightarrow> (\<And>e. adds P (h e)) \<Longrightarrow> adds P (catchif C m h)"
  by (auto simp: catchif_def intro!: adds_catchp adds_raise)

lemma adds_do_call: "(\<And>r. P [(c, r)]) \<Longrightarrow> adds P (do_call E c)"
  by (auto simp: do_call_def intro!: adds_bindp adds_call adds_ret)

lemma adds_call_as: "(\<And>r. P [(c, r)]) \<Longrightarrow> adds P (call_as t E c)"
  by (auto simp: call_as_def intro!: adds_bindp adds_call adds_lift_sum)

lemma adds_whenp: "adds P m \<Longrightarrow> adds P (whenp b m)"
  by (simp add: whenp_def adds_ret)

lemma adds_forp: "(\<And>x. x \<in> set xs \<Longrightarrow> adds P (f x)) \<Longrightarrow> adds P (forp xs f)"
  by (induction xs) (auto intro: adds_ret adds_seqp)

lemma adds_if: "adds P m \<Longrightarrow> adds P n \<Longrightarrow> adds P (if b then m else n)"
  by simp

lemma adds_emits: "emits (\<lambda>e. P [e]) m \<Longrightarrow> adds P m"
proof -
  have "list_all (\<lambda>e. P [e]) es \<Longrightarrow> P es" for es
    by (induction es) (auto simp: P_Nil dest: P_append)
  then show "emits (\<lambda>e. P [e]) m \<Longrightarrow> adds P m"
    unfolding emits_def adds_def by blast
qed

lemmas adds_intros = adds_ret adds_raise adds_lift_sum adds_getp adds_call adds_bindp adds_seqp
  adds_catchp adds_catchif adds_do_call adds_call_as adds_whenp adds_forp adds_if

end

interpretation all_events: history_property "list_all Q" for Q
  by unfold_locales auto

section \<open>The reference library\<close>

lemma ref_lib_zero: "str_float ref_lib ''0'' = Inr 0"
  by (simp add: ref_lib_def)

lemma digits_no_slash: "is_digit c \<Longrightarrow> c \<noteq> CHR ''/''"
  by (auto simp: is_digit_def)

lemma int_str_no_slash: "CHR ''/'' \<notin> set (int_str n)"
  unfolding int_str_def using nat_str_digits digits_no_slash by auto

lemma ref_lib_roundtrip: "float_roundtrip ref_lib"
  unfolding float_roundtrip_def
proof
  fix x :: rat
  obtain n d where q: "quotient_of x = (n, d)" by fastforce
  then have "x = of_int n / of_int d"
    using quotient_of_div by blast
  with q show "str_float ref_lib (float_str ref_lib x) = Inr x"
    by (simp add: ref_lib_def split_on_append_sep split_on_single int_str_no_slash)
qed

end
