(* ===== verification/Messages.thy ===== *)
theory Messages
  imports Effects
begin

text \<open>
  The messages of proto/stegnar.proto that the services exchange: \<^verbatim>\<open>PayloadChunk\<close> as the
  endpoint agent, the proxy and the router see it, and \<^verbatim>\<open>StreamAck\<close>. Port fields are
  \<^verbatim>\<open>uint32\<close> on the wire.
\<close>

record payload_chunk =
  ck_endpoint_id :: string
  ck_stream_id :: string
  ck_raw_bytes :: bytes
  ck_sha256 :: string
  ck_ssl_keylog :: string
  ck_src_ip :: string
  ck_dst_ip :: string
  ck_src_port :: "32 word"
  ck_dst_port :: "32 word"
  ck_captured_at :: int

record stream_ack =
  ack_ok :: bool
  ack_chunks_recv :: nat
  ack_message :: string

end
