(* ===== verification/RateLimiter.thy ===== *)
theory RateLimiter
  imports Effects
begin

text \<open>
  routing-system/rate_limiter.py: the sliding-window limiter, one Redis sorted set per endpoint.
  Each request is one pipeline: drop the entries that left the window, count, add this request,
  refresh the expiry. Redis is a parameter; \<open>redis_zset_law\<close> states the documented behaviour of
  the four commands on which the limiter relies.
\<close>

section \<open>Model\<close>

definition window_ms :: int where
  "window_ms = 1000"

definition rl_prefix :: string where
  "rl_prefix = ''stegnar:rl:''"

definition rl_pipeline :: "string \<Rightarrow> int \<Rightarrow> redis_cmd list" where
  "rl_pipeline key now =
     [ZRemRangeByScore key (now - window_ms), ZCard key, ZAdd key [(int_str now, now)], Expire key 10]"

definition is_allowed :: "env \<Rightarrow> int \<Rightarrow> string \<Rightarrow> ('z world_scheme, bool) prog" where
  "is_allowed E rate_limit endpoint_id =
     bindp (now_ms E) (\<lambda>now.
     bindp (call_as as_list E (RedisPipe (rl_pipeline (rl_prefix @ endpoint_id) now))) (\<lambda>results.
     bindp (lift_sum (py_nth results 1)) (\<lambda>v.
     bindp (lift_sum (as_int v)) (\<lambda>count.
     if count \<ge> rate_limit then ret False else ret True))))"

section \<open>The sorted set the history leaves\<close>

fun zset_step :: "string \<Rightarrow> (string \<times> int) list \<Rightarrow> redis_cmd \<Rightarrow> (string \<times> int) list" where
  "zset_step k z (ZRemRangeByScore k' m) = (if k' = k then filter (\<lambda>e. m < snd e) z else z)"
| "zset_step k z (ZAdd k' es) =
     (if k' = k then foldl (\<lambda>z e. AList.update (fst e) (snd e) z) z es else z)"
| "zset_step k z _ = z"

fun zset_event :: "string \<Rightarrow> (string \<times> int) list \<Rightarrow> event \<Rightarrow> (string \<times> int) list" where
  "zset_event k z (RedisPipe cmds, Inr _) = foldl (zset_step k) z cmds"
| "zset_event k z _ = z"

definition zset_of :: "string \<Rightarrow> hist \<Rightarrow> (string \<times> int) list" where
  "zset_of k h = foldl (zset_event k) [] h"

text \<open>
  The documented behaviour relied on: a pipeline that answers was executed as a whole, it
  answers with one result per command, and \<^verbatim>\<open>ZCARD\<close> counts what the commands before it left.
  (The ten-second expiry only removes a set whose entries all left the window.)
\<close>

definition redis_zset_law :: "env \<Rightarrow> bool" where
  "redis_zset_law E \<longleftrightarrow> (\<forall>h key now v. genuine E h \<longrightarrow>
     E h (RedisPipe (rl_pipeline key now)) = Inr v \<longrightarrow>
     (\<exists>a c d. v = PList [a,
        PInt (int (length (filter (\<lambda>e. now - window_ms < snd e) (zset_of key h)))), c, d]))"

text \<open>The clock does not run backwards within a history.\<close>

definition clock_ms :: "reply \<Rightarrow> int option" where
  "clock_ms r = (case r of Inr v \<Rightarrow> (case as_float v of Inr t \<Rightarrow> Some (py_trunc (t * 1000)) | Inl _ \<Rightarrow> None)
     | Inl _ \<Rightarrow> None)"

definition clock_monotone :: "env \<Rightarrow> bool" where
  "clock_monotone E \<longleftrightarrow> (\<forall>h r m n. genuine E h \<longrightarrow> (Clock, r) \<in> set h \<longrightarrow> clock_ms r = Some m \<longrightarrow>
     clock_ms (E h Clock) = Some n \<longrightarrow> m \<le> n)"

section \<open>Invariant of the set\<close>

text \<open>
  Every entry was added at its score, under the score's decimal form, and no score is past the
  last clock reading.
\<close>

definition zset_ok :: "hist \<Rightarrow> (string \<times> int) list \<Rightarrow> bool" where
  "zset_ok h z \<longleftrightarrow> distinct (map fst z) \<and>
     (\<forall>(m, sc) \<in> set z. m = int_str sc \<and> (\<exists>r. (Clock, r) \<in> set h \<and> clock_ms r = Some sc))"

definition limiter_ok :: "env \<Rightarrow> hist \<Rightarrow> bool" where
  "limiter_ok E h \<longleftrightarrow> genuine E h \<and> (\<forall>k. zset_ok h (zset_of k h))"

lemma zset_of_snoc: "zset_of k (h @ [e]) = zset_event k (zset_of k h) e"
  by (simp add: zset_of_def)

lemma zset_of_clock [simp]: "zset_of k (h @ [(Clock, r)]) = zset_of k h"
  by (simp add: zset_of_snoc)

lemma zset_of_pipe [simp]:
  "zset_of k (h @ [(RedisPipe (rl_pipeline key now), Inr v)]) =
     (if key = k then AList.update (int_str now) now
          (filter (\<lambda>e. now - window_ms < snd e) (zset_of k h))
      else zset_of k h)"
  by (simp add: zset_of_snoc rl_pipeline_def)

lemma zset_of_pipe_failed [simp]:
  "zset_of k (h @ [(RedisPipe cmds, Inl e)]) = zset_of k h"
  by (simp add: zset_of_snoc)

lemma set_update: "set (AList.update k v z) \<subseteq> insert (k, v) (set z)"
  by (induction z) auto

lemma zset_ok_mono: "zset_ok h z \<Longrightarrow> set h \<subseteq> set h' \<Longrightarrow> zset_ok h' z"
  unfolding zset_ok_def by fast

lemma zset_ok_filter: "zset_ok h z \<Longrightarrow> zset_ok h (filter P z)"
  unfolding zset_ok_def by (auto simp: distinct_map_filter)

lemma zset_ok_update:
  assumes ok: "zset_ok h z" and r: "(Clock, r) \<in> set h" "clock_ms r = Some now"
  shows "zset_ok h (AList.update (int_str now) now z)"
  unfolding zset_ok_def
proof (intro conjI ballI)
  show "distinct (map fst (AList.update (int_str now) now z))"
    using ok by (simp add: zset_ok_def distinct_update)
next
  fix e assume "e \<in> set (AList.update (int_str now) now z)"
  then have "e = (int_str now, now) \<or> e \<in> set z"
    using set_update by fastforce
  then show "case e of (m, sc) \<Rightarrow> m = int_str sc \<and> (\<exists>r. (Clock, r) \<in> set h \<and> clock_ms r = Some sc)"
    using ok r by (auto simp: zset_ok_def)
qed

text \<open>The clock readings, in milliseconds, that a window ending at \<open>now\<close> holds.\<close>

definition readings :: "hist \<Rightarrow> int \<Rightarrow> int set" where
  "readings h now = {sc. now - window_ms < sc \<and> sc \<le> now \<and>
     (\<exists>r. (Clock, r) \<in> set h \<and> clock_ms r = Some sc)}"

lemma finite_readings [simp]: "finite (readings h now)"
  by (rule finite_subset [of _ "{now - window_ms <.. now}"]) (auto simp: readings_def)

lemma card_readings: "card (readings h now) \<le> nat window_ms"
proof -
  have "card (readings h now) \<le> card {now - window_ms <.. now}"
    by (rule card_mono) (auto simp: readings_def)
  then show ?thesis by simp
qed

lemma zset_window_size:
  assumes ok: "zset_ok h z"
    and upper: "\<And>r sc. (Clock, r) \<in> set h \<Longrightarrow> clock_ms r = Some sc \<Longrightarrow> sc \<le> now"
  shows "length (filter (\<lambda>e. now - window_ms < snd e) z) \<le> card (readings h now)"
proof -
  let ?z = "filter (\<lambda>e. now - window_ms < snd e) z"
  have "distinct (map fst ?z)"
    using ok by (simp add: zset_ok_def distinct_map_filter)
  then have "length ?z = card (fst ` set ?z)"
    by (metis distinct_card length_map list.set_map)
  also have "fst ` set ?z \<subseteq> int_str ` readings h now"
    using ok upper by (fastforce simp: zset_ok_def readings_def)
  then have "card (fst ` set ?z) \<le> card (int_str ` readings h now)"
    by (intro card_mono) auto
  also have "\<dots> \<le> card (readings h now)"
    by (intro card_image_le) simp
  finally show ?thesis .
qed

lemma limiter_ok_Nil: "limiter_ok E []"
  by (simp add: limiter_ok_def zset_ok_def zset_of_def)

lemma limiter_ok_clock: "limiter_ok E h \<Longrightarrow> r = E h Clock \<Longrightarrow> limiter_ok E (h @ [(Clock, r)])"
  unfolding limiter_ok_def by (auto intro: zset_ok_mono)

lemma limiter_ok_pipe:
  assumes ok: "limiter_ok E h" and r: "(Clock, r) \<in> set h" "clock_ms r = Some now"
    and x: "x = E h (RedisPipe (rl_pipeline key now))"
  shows "limiter_ok E (h @ [(RedisPipe (rl_pipeline key now), x)])"
  unfolding limiter_ok_def
proof (intro conjI allI)
  show "genuine E (h @ [(RedisPipe (rl_pipeline key now), x)])"
    using ok x by (simp add: limiter_ok_def)
next
  fix k
  have z: "zset_ok h (zset_of k h)" using ok by (simp add: limiter_ok_def)
  have sub: "set h \<subseteq> set (h @ [(RedisPipe (rl_pipeline key now), x)])" by auto
  show "zset_ok (h @ [(RedisPipe (rl_pipeline key now), x)])
      (zset_of k (h @ [(RedisPipe (rl_pipeline key now), x)]))"
    using zset_ok_mono [OF z sub]
      zset_ok_mono [OF zset_ok_update [OF zset_ok_filter [OF z] r] sub]
    by (cases x) auto
qed

lemma limiter_ok_request:
  assumes "limiter_ok E h" and "r = E h Clock" and "clock_ms r = Some now"
    and "x = E (h @ [(Clock, r)]) (RedisPipe (rl_pipeline key now))"
  shows "limiter_ok E (h @ [(Clock, r), (RedisPipe (rl_pipeline key now), x)])"
  using limiter_ok_pipe [OF limiter_ok_clock [OF assms(1,2)] _ assms(3,4)] by simp

section \<open>One request\<close>

text \<open>What one request appends, and when it is refused.\<close>

lemma wp_is_allowed:
  "wp (is_allowed E rate ep) Q w \<longleftrightarrow>
     (let r = E (trace w) Clock; h1 = trace w @ [(Clock, r)]; w1 = w\<lparr>trace := h1\<rparr>
      in case r of Inl e \<Rightarrow> Q (Inl e) w1
         | Inr v \<Rightarrow> (case as_float v of Inl e \<Rightarrow> Q (Inl e) w1
           | Inr t \<Rightarrow>
             (let c = RedisPipe (rl_pipeline (rl_prefix @ ep) (py_trunc (t * 1000)));
                  r2 = E h1 c; w2 = w\<lparr>trace := h1 @ [(c, r2)]\<rparr>
              in case r2 of Inl e \<Rightarrow> Q (Inl e) w2
                 | Inr v2 \<Rightarrow> (case as_list v2 of Inl e \<Rightarrow> Q (Inl e) w2
                   | Inr l \<Rightarrow> (case py_nth l 1 of Inl e \<Rightarrow> Q (Inl e) w2
                     | Inr x \<Rightarrow> (case as_int x of Inl e \<Rightarrow> Q (Inl e) w2
                       | Inr n \<Rightarrow> (if rate \<le> n then Q (Inr False) w2 else Q (Inr True) w2)))))))"
  by (simp add: is_allowed_def now_ms_def call_as_def wp_simps Let_def split: sum.split)

lemma py_nth_list_1: "py_nth [a, b, c, d] 1 = Inr b"
  by (simp add: py_nth_def)

lemma is_allowed_ok: "limiter_ok E (trace w) \<Longrightarrow> wp (is_allowed E rate ep) (\<lambda>r w'. limiter_ok E (trace w')) w"
  unfolding wp_is_allowed
  by (simp add: Let_def limiter_ok_clock split: sum.split)
    (auto intro!: limiter_ok_request simp: clock_ms_def)

text \<open>
  The decision of one request: \<open>now\<close> is the clock's reading, and a refusal means that the window
  ending at \<open>now\<close> holds at least \<open>rate\<close> different readings.
\<close>

lemma is_allowed_refusal:
  assumes law: "redis_zset_law E" and mono: "clock_monotone E" and ok: "limiter_ok E (trace w)"
  shows "wp (is_allowed E rate ep) (\<lambda>r w'. r = Inr False \<longrightarrow>
     (\<exists>now. clock_ms (E (trace w) Clock) = Some now \<and> rate \<le> int (card (readings (trace w') now)))) w"
  unfolding wp_is_allowed Let_def
proof (simp split: sum.split, intro allI impI)
  fix v t v2 l x n
  let ?now = "py_trunc (t * 1000)" and ?h = "trace w @ [(Clock, Inr v)]"
  let ?key = "rl_prefix @ ep"
  let ?h2 = "trace w @ [(Clock, Inr v), (RedisPipe (rl_pipeline ?key ?now), Inr v2)]"
  assume clk: "as_float v = Inr t" "E (trace w) Clock = Inr v"
    and l: "as_int x = Inr n" "py_nth l 1 = Inr x" "as_list v2 = Inr l"
    and pipe: "E ?h (RedisPipe (rl_pipeline ?key ?now)) = Inr v2" and full: "rate \<le> n"
  have now: "clock_ms (E (trace w) Clock) = Some ?now"
    using clk by (simp add: clock_ms_def)
  have upper: "sc \<le> ?now" if "(Clock, r) \<in> set ?h" "clock_ms r = Some sc" for r sc
  proof -
    from that(1) consider "(Clock, r) \<in> set (trace w)" | "r = Inr v" by auto
    then show ?thesis
      using mono now that(2) clk ok unfolding clock_monotone_def limiter_ok_def by cases (metis, auto)
  qed
  have "zset_ok ?h (zset_of ?key ?h)"
    using limiter_ok_clock [OF ok, of "Inr v"] clk by (simp add: limiter_ok_def)
  then have "length (filter (\<lambda>e. ?now - window_ms < snd e) (zset_of ?key ?h)) \<le> card (readings ?h ?now)"
    by (rule zset_window_size) (rule upper)
  moreover obtain a c d where
    "v2 = PList [a, PInt (int (length (filter (\<lambda>e. ?now - window_ms < snd e) (zset_of ?key ?h)))), c, d]"
    using law pipe ok clk unfolding redis_zset_law_def limiter_ok_def
    by (metis genuine_snoc)
  moreover have "readings ?h ?now = readings ?h2 ?now"
    by (simp add: readings_def)
  ultimately have "rate \<le> int (card (readings ?h2 ?now))"
    using l full by (auto simp: as_list_def as_int_def py_nth_list_1)
  then show "\<exists>now. clock_ms (Inr v) = Some now \<and> rate \<le> int (card (readings ?h2 now))"
    using now clk by auto
qed

lemma is_allowed_above_window:
  assumes law: "redis_zset_law E" and mono: "clock_monotone E" and ok: "limiter_ok E (trace w)"
    and rate: "window_ms < rate"
  shows "wp (is_allowed E rate ep)
     (\<lambda>r w'. limiter_ok E (trace w') \<and> (\<forall>b. r = Inr b \<longrightarrow> b)) w"
  using wp_conj [OF is_allowed_ok [OF ok] is_allowed_refusal [OF law mono ok]]
proof (rule wp_mono)
  fix r and w' :: "'b world_scheme"
  assume h: "limiter_ok E (trace w') \<and> (r = Inr False \<longrightarrow>
    (\<exists>now. clock_ms (E (trace w) Clock) = Some now \<and> rate \<le> int (card (readings (trace w') now))))"
  moreover have "\<not> rate \<le> int (card (readings (trace w') now))" for now
    using card_readings [of "trace w'" now] rate
    by (simp add: window_ms_def)
  ultimately show "limiter_ok E (trace w') \<and> (\<forall>b. r = Inr b \<longrightarrow> b)" by blast
qed


lemma requests_above_window:
  assumes law: "redis_zset_law E" and mono: "clock_monotone E" and rate: "window_ms < rate"
    and ok: "limiter_ok E (trace w)"
  shows "wp (mapp (is_allowed E rate) eps)
     (\<lambda>r w'. limiter_ok E (trace w') \<and> (\<forall>bs. r = Inr bs \<longrightarrow> list_all (\<lambda>b. b) bs)) w"
  by (rule wp_mapp_inv [where I = "\<lambda>w. limiter_ok E (trace w)" and P = "\<lambda>b. b"])
    (use is_allowed_above_window [OF law mono _ rate] ok in auto)

text \<open>A clock that stands still.\<close>

lemma still_clock_monotone:
  assumes still: "\<And>h. genuine E h \<Longrightarrow> clock_ms (E h Clock) = Some t"
  shows "clock_monotone E"
  unfolding clock_monotone_def
proof (intro allI impI)
  fix h r m n
  assume g: "genuine E h" and r: "(Clock, r) \<in> set h" "clock_ms r = Some m"
    and n: "clock_ms (E h Clock) = Some n"
  from g r(1) obtain h' where "genuine E h'" "r = E h' Clock"
    using genuine_reply by blast
  with r(2) n still g show "m \<le> n" by simp
qed

lemma still_clock_readings:
  assumes still: "\<And>h. genuine E h \<Longrightarrow> clock_ms (E h Clock) = Some t" and g: "genuine E h"
  shows "card (readings h now) \<le> 1"
proof -
  have "readings h now \<subseteq> {t}"
    unfolding readings_def using still genuine_reply [OF g, of Clock] by force
  then have "card (readings h now) \<le> card {t}" by (rule card_mono [rotated]) simp
  then show ?thesis by simp
qed

lemma is_allowed_still_clock:
  assumes law: "redis_zset_law E" and still: "\<And>h. genuine E h \<Longrightarrow> clock_ms (E h Clock) = Some t"
    and rate: "2 \<le> rate" and ok: "limiter_ok E (trace w)"
  shows "wp (is_allowed E rate ep) (\<lambda>r w'. limiter_ok E (trace w') \<and> (\<forall>b. r = Inr b \<longrightarrow> b)) w"
  using wp_conj [OF is_allowed_ok [OF ok] is_allowed_refusal [OF law still_clock_monotone [of E t, OF still] ok]]
proof (rule wp_mono)
  fix r and w' :: "'b world_scheme"
  assume h: "limiter_ok E (trace w') \<and> (r = Inr False \<longrightarrow>
    (\<exists>now. clock_ms (E (trace w) Clock) = Some now \<and> rate \<le> int (card (readings (trace w') now))))"
  then have "genuine E (trace w')" by (simp add: limiter_ok_def)
  then have "\<not> rate \<le> int (card (readings (trace w') now))" for now
    using still_clock_readings [of E t "trace w'" now, OF still] rate by linarith
  with h show "limiter_ok E (trace w') \<and> (\<forall>b. r = Inr b \<longrightarrow> b)" by blast
qed

text \<open>An environment for the witnesses: the clock stands at \<open>t\<close>, Redis behaves as documented.\<close>

definition limiter_env :: "int \<Rightarrow> env" where
  "limiter_env t h c =
     (case c of
        Clock \<Rightarrow> Inr (PFloat (of_int t / 1000))
      | RedisPipe [ZRemRangeByScore k m, ZCard _, _, _] \<Rightarrow>
          Inr (PList [PInt 0, PInt (int (length (filter (\<lambda>e. m < snd e) (zset_of k h)))), PInt 1, PBool True])
      | _ \<Rightarrow> Inr PNone)"

lemma limiter_env_law: "redis_zset_law (limiter_env t)"
  by (simp add: redis_zset_law_def limiter_env_def rl_pipeline_def)

lemma limiter_env_clock: "clock_ms (limiter_env t h Clock) = Some t"
  by (simp add: clock_ms_def limiter_env_def as_float_def py_trunc_def)

lemma limiter_env_monotone: "clock_monotone (limiter_env t)"
  by (rule still_clock_monotone) (rule limiter_env_clock)

lemma limiter_env_step:
  "is_allowed (limiter_env t) rate ep w =
     (let k = rl_prefix @ ep;
          n = int (length (filter (\<lambda>e. t - window_ms < snd e) (zset_of k (trace w))))
      in (Inr (n < rate), w\<lparr>trace := trace w @
           [(Clock, Inr (PFloat (of_int t / 1000))),
            (RedisPipe (rl_pipeline k t), Inr (PList [PInt 0, PInt n, PInt 1, PBool True]))]\<rparr>))"
  by (simp add: run_defs is_allowed_def limiter_env_def rl_pipeline_def)

lemma limiter_env_answers: "\<exists>bs. fst (mapp (is_allowed (limiter_env t) rate) eps w) = Inr bs"
proof (induction eps arbitrary: w)
  case Nil
  then show ?case by (simp add: ret_def)
next
  case (Cons ep eps)
  obtain b w' where one: "is_allowed (limiter_env t) rate ep w = (Inr b, w')"
    unfolding limiter_env_step Let_def by blast
  from Cons [of w'] obtain bs w2 where "mapp (is_allowed (limiter_env t) rate) eps w' = (Inr bs, w2)"
    by (metis prod.collapse)
  with one show ?case by (simp add: bindp_def ret_def)
qed

lemma zset_of_append: "zset_of k (h @ h') = foldl (zset_event k) (zset_of k h) h'"
  by (simp add: zset_of_def)

section \<open>Properties\<close>

text \<open>
With a limit above the window's length in milliseconds (1000) the limiter never refuses a
request: the sorted set has one entry per millisecond, so its size never passes 1000. The count
is of milliseconds in use, not of requests.
\<close>

theorem limiter_never_refuses_above_window:
  assumes "redis_zset_law E" and "clock_monotone E" and "window_ms < rate"
    and "fst (mapp (is_allowed E rate) eps \<lparr>trace = []\<rparr>) = Inr bs"
  shows "bs = replicate (length eps) True"
  using requests_above_window [OF assms(1-3), of "\<lparr>trace = []\<rparr>" eps] assms(4)
    mapp_length [OF assms(4)] list_all_True [of bs]
  by (simp add: wp_def limiter_ok_Nil)

theorem limiter_never_refuses_above_window_witness:
  "fst (mapp (is_allowed (limiter_env 5) 1001) [''a'', ''a'', ''b''] \<lparr>trace = []\<rparr>)
     = Inr [True, True, True]"
proof -
  obtain bs where r: "fst (mapp (is_allowed (limiter_env 5) 1001) [''a'', ''a'', ''b''] \<lparr>trace = []\<rparr>) = Inr bs"
    using limiter_env_answers by blast
  have "bs = replicate (length [''a'', ''a'', ''b'']) True"
    by (rule limiter_never_refuses_above_window [OF limiter_env_law limiter_env_monotone _ r])
      (simp add: window_ms_def)
  with r show ?thesis by (simp add: numeral_eq_Suc)
qed



text \<open>
Endpoints do not interfere: a request for one endpoint leaves the sorted set of every other
endpoint as it was, whatever Redis answers.
\<close>

theorem limiter_endpoints_isolated:
  assumes "ep' \<noteq> ep"
  shows "zset_of (rl_prefix @ ep') (trace (snd (is_allowed E rate ep w)))
     = zset_of (rl_prefix @ ep') (trace w)"
proof -
  let ?k = "rl_prefix @ ep'"
  have two: "zset_of ?k (h @ [(Clock, r), (RedisPipe (rl_pipeline (rl_prefix @ ep) n), x)]) = zset_of ?k h"
    for h r n x
    using zset_of_pipe [of ?k "h @ [(Clock, r)]" "rl_prefix @ ep" n]
      zset_of_pipe_failed [of ?k "h @ [(Clock, r)]"] assms
    by (cases x) simp_all
  have "wp (is_allowed E rate ep) (\<lambda>r w'. zset_of ?k (trace w') = zset_of ?k (trace w)) w"
    unfolding wp_is_allowed Let_def by (simp add: two split: sum.split)
  then show ?thesis by (simp add: wp_def)
qed

theorem limiter_endpoints_isolated_witness:
  "zset_of (rl_prefix @ ''b'') (trace (snd (is_allowed (limiter_env 5) 2 ''a'' \<lparr>trace = []\<rparr>))) = []"
proof -
  have "''b'' \<noteq> ''a''" by simp
  from limiter_endpoints_isolated [OF this, of "limiter_env 5" 2 "\<lparr>trace = []\<rparr>"]
  show ?thesis by (simp add: zset_of_def)
qed

end
