(* ===== verification/HashCache.thy ===== *)
theory HashCache
  imports Effects
begin

text \<open>
  routing-system/cache.py: the verdict cache, one Redis hash per image digest. \<open>lookup\<close> and
  \<open>store\<close> are the methods of the class. Redis is a parameter; \<open>redis_hash_law\<close> is the documented
  behaviour of the hash commands, with an arbitrary oracle \<open>ex\<close> for the moments a key expires.
  The contract is a finite map from digests to results, and \<open>cache_refines_map\<close> shows that any
  sequence of operations behaves as on that map while nothing expires.
\<close>

section \<open>Model\<close>

definition cache_prefix :: string where
  "cache_prefix = ''stegnar:cache:''"

definition lookup :: "env \<Rightarrow> pylib \<Rightarrow> int \<Rightarrow> string
    \<Rightarrow> ('z world_scheme, (string \<times> pyfloat) option) prog" where
  "lookup E L ttl sha256 =
     (let key = cache_prefix @ sha256 in
      bindp (call_as as_dict E (Redis (HGetAll key))) (\<lambda>data.
      if data = [] then ret None
      else
        seqp (do_call E (Redis (Expire key ttl)))
       (seqp (do_call E (Redis (HIncrBy key ''hit_count'' 1)))
       (bindp (lift_sum (as_str (dict_get data ''verdict'' (PStr ''UNKNOWN'')))) (\<lambda>verdict.
        bindp (lift_sum (as_str (dict_get data ''steg_score'' (PStr ''0'')))) (\<lambda>score.
        bindp (lift_sum (str_float L score)) (\<lambda>x. ret (Some (verdict, x)))))))))"

definition store :: "env \<Rightarrow> pylib \<Rightarrow> int \<Rightarrow> string \<Rightarrow> string \<Rightarrow> pyfloat
    \<Rightarrow> ('z world_scheme, unit) prog" where
  "store E L ttl sha256 verdict steg_score =
     (let key = cache_prefix @ sha256 in
      seqp (do_call E (Redis (HSet key
             [(''verdict'', verdict), (''steg_score'', float_str L steg_score), (''hit_count'', ''0'')])))
           (do_call E (Redis (Expire key ttl))))"

section \<open>The hashes the history leaves\<close>

text \<open>\<^verbatim>\<open>HSET\<close> sets fields, \<^verbatim>\<open>HINCRBY\<close> adds to a field that holds an integer (a missing one counts as 0).\<close>

fun hash_step :: "string \<Rightarrow> (string \<times> string) list \<Rightarrow> event \<Rightarrow> (string \<times> string) list" where
  "hash_step k d (Redis (HSet k' fs), Inr _) =
     (if k' = k then foldl (\<lambda>d f. AList.update (fst f) (snd f) d) d fs else d)"
| "hash_step k d (Redis (HIncrBy k' f n), Inr _) =
     (if k' = k then (case py_int (dict_get d f ''0'') of
         Inr m \<Rightarrow> AList.update f (int_str (m + n)) d | Inl _ \<Rightarrow> d) else d)"
| "hash_step k d _ = d"

text \<open>The content of a key after a history; \<open>ex\<close> says at which points it has just expired.\<close>

fun hash_rev :: "(hist \<Rightarrow> bool) \<Rightarrow> string \<Rightarrow> hist \<Rightarrow> (string \<times> string) list" where
  "hash_rev ex k [] = []"
| "hash_rev ex k (e # r) = hash_step k (if ex (rev r) then [] else hash_rev ex k r) e"

definition hash_of :: "(hist \<Rightarrow> bool) \<Rightarrow> string \<Rightarrow> hist \<Rightarrow> (string \<times> string) list" where
  "hash_of ex k h = hash_rev ex k (rev h)"

text \<open>\<^verbatim>\<open>HGETALL\<close> answers the content of the key.\<close>

definition redis_hash_law :: "(string \<Rightarrow> hist \<Rightarrow> bool) \<Rightarrow> env \<Rightarrow> bool" where
  "redis_hash_law ex E \<longleftrightarrow> (\<forall>h k v. E h (Redis (HGetAll k)) = Inr v \<longrightarrow>
     v = PDict (map (\<lambda>f. (fst f, PStr (snd f))) (if ex k h then [] else hash_of (ex k) k h)))"

text \<open>The operations of a client, and the same operations on a finite map.\<close>

datatype cache_op = CLookup string | CStore string string pyfloat

fun cache_run :: "env \<Rightarrow> pylib \<Rightarrow> int \<Rightarrow> cache_op
    \<Rightarrow> ('z world_scheme, (string \<times> pyfloat) option) prog" where
  "cache_run E L ttl (CLookup s) = lookup E L ttl s"
| "cache_run E L ttl (CStore s v x) = seqp (store E L ttl s v x) (ret None)"

fun cache_spec :: "(string \<Rightarrow> (string \<times> pyfloat) option) \<Rightarrow> cache_op list
    \<Rightarrow> (string \<times> pyfloat) option list" where
  "cache_spec m [] = []"
| "cache_spec m (CLookup s # ops) = m s # cache_spec m ops"
| "cache_spec m (CStore s v x # ops) = None # cache_spec (m(s \<mapsto> (v, x))) ops"

section \<open>Lemmas\<close>

lemma hash_of_snoc: "hash_of ex k (h @ [e]) = hash_step k (if ex h then [] else hash_of ex k h) e"
  by (simp add: hash_of_def)

lemma hash_of_Nil [simp]: "hash_of ex k [] = []"
  by (simp add: hash_of_def)

text \<open>The shapes a cache entry can have: absent, complete, or the counter alone.\<close>

definition entry_is :: "pylib \<Rightarrow> (string \<times> pyfloat) option \<Rightarrow> (string \<times> string) list \<Rightarrow> bool" where
  "entry_is L r d \<longleftrightarrow> (case r of
      None \<Rightarrow> d = []
    | Some (v, x) \<Rightarrow> map_of d ''verdict'' = Some v \<and> map_of d ''steg_score'' = Some (float_str L x)
        \<and> (\<exists>n. map_of d ''hit_count'' = Some (int_str n)))"

definition cache_abs :: "pylib \<Rightarrow> (string \<Rightarrow> (string \<times> pyfloat) option) \<Rightarrow> hist \<Rightarrow> bool" where
  "cache_abs L m h \<longleftrightarrow> (\<forall>s. entry_is L (m s) (hash_of (\<lambda>_. False) (cache_prefix @ s) h))"

lemma entry_is_incr:
  "entry_is L (Some r) d \<Longrightarrow> entry_is L (Some r)
     (hash_step k d (Redis (HIncrBy k ''hit_count'' n), Inr v))"
  by (auto simp: entry_is_def dict_get_def split: prod.splits)

lemma entry_is_ne: "entry_is L (Some r) d \<Longrightarrow> d \<noteq> []"
  by (auto simp: entry_is_def split: prod.splits)

lemma int_str_0: "int_str 0 = ''0''"
  by (simp add: print_defs)

lemma entry_is_set:
  "entry_is L (Some (v, x)) (hash_step k d (Redis (HSet k
     [(''verdict'', v), (''steg_score'', float_str L x), (''hit_count'', ''0'')]), Inr y))"
  using int_str_0 by (auto simp: entry_is_def intro: exI [of _ 0])

lemma dict_get_map: "map_of d k = Some v \<Longrightarrow>
    dict_get (map (\<lambda>f. (fst f, PStr (snd f))) d) k w = PStr v"
  by (induction d) (auto simp: dict_get_def split: if_splits)

lemma as_str_PStr [simp]: "as_str (PStr s) = Inr s"
  by (simp add: as_str_def)

lemma hash_step_HGetAll [simp]: "hash_step k d (Redis (HGetAll k'), r) = d"
  by (cases r) auto

lemma hash_step_Expire [simp]: "hash_step k d (Redis (Expire k' t), r) = d"
  by (cases r) auto

lemma hash_step_other_incr [simp]: "k' \<noteq> k \<Longrightarrow> hash_step k d (Redis (HIncrBy k' f n), r) = d"
  by (cases r) auto

lemma hash_step_other_set [simp]: "k' \<noteq> k \<Longrightarrow> hash_step k d (Redis (HSet k' fs), r) = d"
  by (cases r) auto

lemma cache_abs_step:
  "cache_abs L m h \<Longrightarrow> (\<And>s. entry_is L (m s) (hash_of (\<lambda>_. False) (cache_prefix @ s) h) \<Longrightarrow>
      entry_is L (m' s) (hash_step (cache_prefix @ s) (hash_of (\<lambda>_. False) (cache_prefix @ s) h) e)) \<Longrightarrow>
     cache_abs L m' (h @ [e])"
  by (simp add: cache_abs_def hash_of_snoc)

lemma cache_abs_HGetAll: "cache_abs L m h \<Longrightarrow> cache_abs L m (h @ [(Redis (HGetAll k), r)])"
  by (erule cache_abs_step) simp

lemma cache_abs_Expire: "cache_abs L m h \<Longrightarrow> cache_abs L m (h @ [(Redis (Expire k t), r)])"
  by (erule cache_abs_step) simp

lemma cache_abs_incr:
  assumes "cache_abs L m h" and "m s = Some r"
  shows "cache_abs L m (h @ [(Redis (HIncrBy (cache_prefix @ s) ''hit_count'' n), Inr v)])"
proof (rule cache_abs_step [OF assms(1)])
  fix s'
  assume e: "entry_is L (m s') (hash_of (\<lambda>_. False) (cache_prefix @ s') h)"
  show "entry_is L (m s') (hash_step (cache_prefix @ s') (hash_of (\<lambda>_. False) (cache_prefix @ s') h)
     (Redis (HIncrBy (cache_prefix @ s) ''hit_count'' n), Inr v))"
  proof (cases "s' = s")
    case True
    with e assms(2) entry_is_incr show ?thesis by (metis)
  qed (use e in simp)
qed

lemma cache_abs_set:
  assumes "cache_abs L m h"
  shows "cache_abs L (m(s \<mapsto> (v, x))) (h @ [(Redis (HSet (cache_prefix @ s)
     [(''verdict'', v), (''steg_score'', float_str L x), (''hit_count'', ''0'')]), Inr y)])"
  by (rule cache_abs_step [OF assms]) (use entry_is_set in auto)

lemma list_map_empty_iff: "map f xs = [] \<longleftrightarrow> xs = []"
  by simp

lemma wp_store:
  assumes abs: "cache_abs L m (trace w)"
  shows "wp (store E L ttl s v x)
     (\<lambda>r w'. r = Inr () \<longrightarrow> cache_abs L (m(s \<mapsto> (v, x))) (trace w')) w"
  using cache_abs_Expire [OF cache_abs_set [OF abs, of s v x]]
  by (simp add: store_def do_call_def Let_def wp_simps split: sum.split)

lemma wp_lookup:
  assumes law: "redis_hash_law (\<lambda>_ _. False) E" and fl: "float_roundtrip L"
    and abs: "cache_abs L m (trace w)"
  shows "wp (lookup E L ttl s)
     (\<lambda>r w'. \<forall>a. r = Inr a \<longrightarrow> a = m s \<and> cache_abs L m (trace w')) w"
proof -
  let ?k = "cache_prefix @ s" and ?h = "trace w"
  let ?d = "hash_of (\<lambda>_. False) ?k ?h"
  have e: "entry_is L (m s) ?d" using abs by (simp add: cache_abs_def)
  show ?thesis
  proof (cases "E ?h (Redis (HGetAll ?k))")
    case (Inl x)
    then show ?thesis
      by (simp add: lookup_def Let_def call_as_def wp_simps)
  next
    case (Inr v)
    then have v: "v = PDict (map (\<lambda>f. (fst f, PStr (snd f))) ?d)"
      using law unfolding redis_hash_law_def by fastforce
    show ?thesis
    proof (cases "m s")
      case None
      with e have "?d = []" by (simp add: entry_is_def)
      with v Inr None cache_abs_HGetAll [OF abs] show ?thesis
        by (simp add: lookup_def Let_def call_as_def wp_simps as_dict_def)
    next
      case (Some r)
      obtain vd x where r: "r = (vd, x)" by fastforce
      with e Some have d: "map_of ?d ''verdict'' = Some vd" "map_of ?d ''steg_score'' = Some (float_str L x)"
        by (auto simp: entry_is_def)
      have ne: "?d \<noteq> []" using e Some entry_is_ne by metis
      show ?thesis
        using v Inr ne d fl Some r cache_abs_incr [OF cache_abs_Expire [OF cache_abs_HGetAll [OF abs]] Some]
        by (simp add: lookup_def Let_def call_as_def do_call_def wp_simps as_dict_def dict_get_map
            float_roundtrip_def split: sum.split)
    qed
  qed
qed

lemma dict_get_strs:
  "dict_get (map (\<lambda>f. (fst f, PStr (snd f))) d) k (PStr w) = PStr (dict_get d k w)"
  by (induction d) (auto simp: dict_get_def split: if_splits)

definition content :: "(string \<Rightarrow> hist \<Rightarrow> bool) \<Rightarrow> string \<Rightarrow> hist \<Rightarrow> (string \<times> string) list" where
  "content ex k h = (if ex k h then [] else hash_of (ex k) k h)"

lemma redis_hash_lawD:
  "redis_hash_law ex E \<Longrightarrow> E h (Redis (HGetAll k)) = Inr v \<Longrightarrow>
     as_dict v = Inr (map (\<lambda>f. (fst f, PStr (snd f))) (content ex k h))"
  by (simp add: redis_hash_law_def as_dict_def content_def split: if_splits) fastforce+

lemma lookup_shape:
  assumes law: "redis_hash_law ex E" and run: "lookup E L ttl s w = (Inr a, w')"
    and ne: "content ex (cache_prefix @ s) (trace w) \<noteq> []"
  shows "\<exists>g y i x. trace w' = trace w @ [(Redis (HGetAll (cache_prefix @ s)), g),
            (Redis (Expire (cache_prefix @ s) ttl), y),
            (Redis (HIncrBy (cache_prefix @ s) ''hit_count'' 1), Inr i)] \<and>
          a = Some (dict_get (content ex (cache_prefix @ s) (trace w)) ''verdict'' ''UNKNOWN'', x) \<and>
          str_float L (dict_get (content ex (cache_prefix @ s) (trace w)) ''steg_score'' ''0'') = Inr x"
proof (cases "E (trace w) (Redis (HGetAll (cache_prefix @ s)))")
  case (Inl e)
  with run show ?thesis
    by (simp add: lookup_def Let_def call_as_def bindp_def call_def)
next
  case (Inr v)
  with run ne redis_hash_lawD [OF law Inr] show ?thesis
    by (auto simp: lookup_def Let_def call_as_def do_call_def lift_sum_def call_def bindp_def seqp_def
        ret_def dict_get_strs split: sum.splits prod.splits)
qed

lemma cache_run_refines:
  assumes "redis_hash_law (\<lambda>_ _. False) E" and "float_roundtrip L"
  shows "cache_abs L m (trace w) \<Longrightarrow> fst (mapp (cache_run E L ttl) ops w) = Inr rs \<Longrightarrow> rs = cache_spec m ops"
proof (induction ops arbitrary: m w rs)
  case Nil
  then show ?case by (simp add: ret_def)
next
  case (Cons op ops)
  obtain r w' where one: "cache_run E L ttl op w = (Inr r, w')"
    and rest: "\<exists>rs'. fst (mapp (cache_run E L ttl) ops w') = Inr rs' \<and> rs = r # rs'"
    using Cons.prems(2) by (auto simp: bindp_def ret_def split: prod.splits sum.splits)
  show ?case
  proof (cases op)
    case (CLookup s)
    with one wp_lookup [OF assms Cons.prems(1), of ttl s]
    have "r = m s" "cache_abs L m (trace w')" by (auto simp: wp_def)
    with Cons.IH rest CLookup show ?thesis by auto
  next
    case (CStore s v x)
    with one have "store E L ttl s v x w = (Inr (), w')" "r = None"
      by (auto simp: seqp_def bindp_def ret_def split: prod.splits sum.splits)
    with wp_store [OF Cons.prems(1), of E ttl s v x]
    have "cache_abs L (m(s \<mapsto> (v, x))) (trace w')" by (auto simp: wp_def)
    with Cons.IH rest CStore \<open>r = None\<close> show ?thesis by auto
  qed
qed

lemma cache_abs_empty: "cache_abs L Map.empty []"
  by (simp add: cache_abs_def entry_is_def)

text \<open>Redis as documented, for the witnesses.\<close>

definition hash_env :: "(string \<Rightarrow> hist \<Rightarrow> bool) \<Rightarrow> env" where
  "hash_env ex h c = (case c of
      Redis (HGetAll k) \<Rightarrow>
        Inr (PDict (map (\<lambda>f. (fst f, PStr (snd f))) (if ex k h then [] else hash_of (ex k) k h)))
    | _ \<Rightarrow> Inr (PInt 1))"

lemma hash_env_law: "redis_hash_law ex (hash_env ex)"
  by (simp add: redis_hash_law_def hash_env_def)

section \<open>Properties\<close>

text \<open>
C31: The verdict cache refines a finite map. While no key expires, any sequence of \<open>store\<close> and
\<open>lookup\<close> calls on an empty Redis answers exactly as the map does: a lookup returns the verdict
and the score of the last store for that digest, bit for bit through the string encoding of the
score, and nothing for a digest never stored.
\<close>

theorem cache_refines_map:
  assumes "redis_hash_law (\<lambda>_ _. False) E" and "float_roundtrip L"
    and "fst (mapp (cache_run E L ttl) ops \<lparr>trace = []\<rparr>) = Inr rs"
  shows "rs = cache_spec Map.empty ops"
  using cache_run_refines [OF assms(1,2) _ assms(3)] cache_abs_empty by simp

theorem cache_refines_map_witness:
  "fst (mapp (cache_run (hash_env (\<lambda>_ _. False)) ref_lib 60)
      [CStore ''a'' ''STEGO'' (1/2), CLookup ''a'', CLookup ''b''] \<lparr>trace = []\<rparr>)
     = Inr [None, Some (''STEGO'', 1/2), None]"
proof -
  have "\<exists>rs. fst (mapp (cache_run (hash_env (\<lambda>_ _. False)) ref_lib 60)
      [CStore ''a'' ''STEGO'' (1/2), CLookup ''a'', CLookup ''b''] \<lparr>trace = []\<rparr>) = Inr rs"
    using ref_lib_roundtrip
    by (simp add: run_defs store_def lookup_def hash_env_def cache_prefix_def hash_of_def
        dict_get_def float_roundtrip_def)
  then obtain rs where rs: "fst (mapp (cache_run (hash_env (\<lambda>_ _. False)) ref_lib 60)
      [CStore ''a'' ''STEGO'' (1/2), CLookup ''a'', CLookup ''b''] \<lparr>trace = []\<rparr>) = Inr rs" ..
  from cache_refines_map [OF hash_env_law ref_lib_roundtrip rs]
  have "rs = [None, Some (''STEGO'', 1/2), None]" by simp
  with rs show ?thesis by (simp only:)
qed

text \<open>
The hit counter can leave a false entry. When a cached key expires after the \<^verbatim>\<open>HGETALL\<close> of
one lookup and before its \<^verbatim>\<open>HINCRBY\<close>, the increment makes a key that holds the counter alone, and
the next lookup of that digest is a hit with verdict UNKNOWN although no result is stored.
\<close>

theorem cache_expiry_race:
  assumes "redis_hash_law ex E"
    and "\<not> ex (cache_prefix @ s) (trace w)" and "hash_of (ex (cache_prefix @ s)) (cache_prefix @ s) (trace w) \<noteq> []"
    and "\<And>h. length (trace w) < length h \<Longrightarrow>
      ex (cache_prefix @ s) h \<longleftrightarrow> length h = Suc (length (trace w))"
    and "fst (seqp (lookup E L ttl s) (lookup E L ttl s) w) = Inr a"
  shows "\<exists>x. a = Some (''UNKNOWN'', x) \<and> str_float L ''0'' = Inr x"
proof -
  let ?k = "cache_prefix @ s" and ?h = "trace w"
  let ?d = "hash_of (ex ?k) ?k ?h"
  let ?get = "Redis (HGetAll ?k)" and ?exp = "Redis (Expire ?k ttl)"
    and ?inc = "Redis (HIncrBy ?k ''hit_count'' 1)"
  have counter: "hash_of (ex ?k) ?k (?h @ [(?get, g), (?exp, y), (?inc, Inr i)]) = [(''hit_count'', ''1'')]"
    for g y i
    using assms(4) [of "?h @ [(?get, g)]"] assms(4) [of "?h @ [(?get, g), (?exp, y)]"]
      hash_of_snoc [of "ex ?k" ?k "?h @ [(?get, g), (?exp, y)]"]
      hash_of_snoc [of "ex ?k" ?k "?h @ [(?get, g)]"]
    by (simp add: dict_get_def py_int_def Let_def strip_id is_space_def int_body_digits is_digit_def
        startswith_def digits_val_def digit_val_def print_defs)
  obtain b w1 where one: "lookup E L ttl s w = (Inr b, w1)" and "fst (lookup E L ttl s w1) = Inr a"
    using assms(5) by (auto simp: seqp_def bindp_def split: prod.splits sum.splits)
  then have "\<exists>w2. lookup E L ttl s w1 = (Inr a, w2)"
    by (metis prod.collapse)
  then obtain w2 where two: "lookup E L ttl s w1 = (Inr a, w2)" by blast
  have "content ex ?k ?h \<noteq> []"
    using assms(2,3) by (simp add: content_def)
  from lookup_shape [OF assms(1) one this] obtain g y i where
    w1: "trace w1 = ?h @ [(?get, g), (?exp, y), (?inc, Inr i)]" by blast
  then have c: "content ex ?k (trace w1) = [(''hit_count'', ''1'')]"
    using assms(4) [of "trace w1"] counter by (simp add: content_def)
  with lookup_shape [OF assms(1) two] show ?thesis
    by (auto simp: dict_get_def)
qed

theorem cache_expiry_race_witness:
  "fst (seqp (lookup (hash_env (\<lambda>_ h. length h = 2)) ref_lib 60 ''a'')
      (lookup (hash_env (\<lambda>_ h. length h = 2)) ref_lib 60 ''a'')
      \<lparr>trace = [(Redis (HSet (cache_prefix @ ''a'') [(''verdict'', ''CLEAN'')]), Inr PNone)]\<rparr>)
   = Inr (Some (''UNKNOWN'', 0))"
proof -
  let ?E = "hash_env (\<lambda>_ h. length h = 2)"
  let ?w = "\<lparr>trace = [(Redis (HSet (cache_prefix @ ''a'') [(''verdict'', ''CLEAN'')]), Inr PNone)]\<rparr>"
  have "\<exists>a. fst (seqp (lookup ?E ref_lib 60 ''a'') (lookup ?E ref_lib 60 ''a'') ?w) = Inr a"
    by (simp add: run_defs lookup_def hash_env_def cache_prefix_def hash_of_def dict_get_def ref_lib_zero print_defs)
  then obtain a where a: "fst (seqp (lookup ?E ref_lib 60 ''a'') (lookup ?E ref_lib 60 ''a'') ?w) = Inr a" ..
  have "\<exists>x. a = Some (''UNKNOWN'', x) \<and> str_float ref_lib ''0'' = Inr x"
    by (rule cache_expiry_race [OF hash_env_law _ _ _ a])
      (simp_all add: hash_of_def cache_prefix_def numeral_2_eq_2)
  with a ref_lib_zero show ?thesis by auto
qed

end
