(* ===== verification/KeyStore.thy ===== *)
theory KeyStore
  imports Prelude
begin

text \<open>
  routing-system/key_store.py: the TLS session keys of each endpoint. A Python set is the list of
  its elements in insertion order; the order in which \<^verbatim>\<open>join\<close> visits it is a parameter \<open>ord\<close>.
  Locale \<open>key_log\<close> is what the servicer relies on.
\<close>

section \<open>Model\<close>

type_synonym key_table = "(string \<times> string list) list"

definition add_line :: "string \<Rightarrow> key_table \<Rightarrow> string \<Rightarrow> key_table" where
  "add_line endpoint_id keys raw_line =
     (let line = strip raw_line; known = dict_get keys endpoint_id [] in
      if line \<noteq> [] \<and> \<not> startswith line ''#'' then
        (if line \<notin> set known then AList.update endpoint_id (known @ [line]) keys else keys)
      else keys)"

definition add_keys :: "key_table \<Rightarrow> string \<Rightarrow> string \<Rightarrow> key_table" where
  "add_keys keys endpoint_id keylog_text =
     (if keylog_text = [] \<or> endpoint_id = [] then keys
      else foldl (add_line endpoint_id) keys (split_on newline (strip keylog_text)))"

text \<open>Reading a \<^verbatim>\<open>defaultdict\<close> stores the empty set under a key that is not there.\<close>

definition get_keys :: "(string list \<Rightarrow> string list) \<Rightarrow> key_table \<Rightarrow> string \<Rightarrow> string \<times> key_table" where
  "get_keys ord keys endpoint_id =
     (let known = dict_get keys endpoint_id []
      in (join [newline] (ord known), AList.update endpoint_id known keys))"

section \<open>Interface\<close>

text \<open>The lines of a text that are keys: not blank, not a comment, without outer white space.\<close>

definition key_lines :: "string \<Rightarrow> string list" where
  "key_lines t = filter (\<lambda>l. l \<noteq> [] \<and> \<not> startswith l ''#'') (map strip (split_on newline (strip t)))"

locale key_log =
  fixes add :: "'s \<Rightarrow> string \<Rightarrow> string \<Rightarrow> 's" and known :: "'s \<Rightarrow> string \<Rightarrow> string set"
  assumes known_add: "ep \<noteq> [] \<Longrightarrow> known (add s ep t) ep = known s ep \<union> set (key_lines t)"
    and known_add_other: "ep' \<noteq> ep \<Longrightarrow> known (add s ep t) ep' = known s ep'"
begin

lemma known_fold:
  "ep \<noteq> [] \<Longrightarrow> known (foldl (\<lambda>s c. add s (fst c) (snd c)) s cs) ep
     = known s ep \<union> (\<Union>t \<in> {t. (ep, t) \<in> set cs}. set (key_lines t))"
proof (induction cs arbitrary: s)
  case Nil
  then show ?case by simp
next
  case (Cons c cs)
  obtain e t where c: "c = (e, t)" by fastforce
  show ?case
  proof (cases "e = ep")
    case True
    with Cons c show ?thesis by (auto simp: known_add)
  next
    case False
    then have "{u. (ep, u) \<in> set (c # cs)} = {u. (ep, u) \<in> set cs}" using c by auto
    with False Cons c show ?thesis by (simp add: known_add_other)
  qed
qed

end

section \<open>Lemmas\<close>

lemma dict_get_update [simp]: "dict_get (AList.update k v d) k' w = (if k' = k then v else dict_get d k' w)"
  by (simp add: dict_get_def)

lemma add_line_known:
  "set (dict_get (add_line ep ks l) ep' []) =
     set (dict_get ks ep' []) \<union>
     (if ep' = ep \<and> strip l \<noteq> [] \<and> \<not> startswith (strip l) ''#'' then {strip l} else {})"
  by (auto simp: add_line_def Let_def)

lemma add_lines_known:
  "set (dict_get (foldl (add_line ep) ks ls) ep' []) =
     set (dict_get ks ep' []) \<union>
     (if ep' = ep then set (filter (\<lambda>l. l \<noteq> [] \<and> \<not> startswith l ''#'') (map strip ls)) else {})"
  by (induction ls arbitrary: ks) (auto simp: add_line_known)

lemma key_lines_Nil [simp]: "key_lines [] = []"
  by (simp add: key_lines_def strip_def lstrip_def rstrip_def)

lemma add_keys_known:
  "ep \<noteq> [] \<Longrightarrow> set (dict_get (add_keys ks ep t) ep' []) =
     set (dict_get ks ep' []) \<union> (if ep' = ep then set (key_lines t) else {})"
  by (cases "t = []") (auto simp: add_keys_def add_lines_known key_lines_def strip_def lstrip_def rstrip_def)

interpretation store_log: key_log add_keys "\<lambda>ks ep. set (dict_get ks ep [])"
proof unfold_locales
  fix ep ks t assume "ep \<noteq> ([]::string)"
  then show "set (dict_get (add_keys ks ep t) ep []) = set (dict_get ks ep []) \<union> set (key_lines t)"
    by (simp add: add_keys_known)
next
  fix ep' ep :: string and ks t
  assume "ep' \<noteq> ep"
  then show "set (dict_get (add_keys ks ep t) ep' []) = set (dict_get ks ep' [])"
    by (cases "ep = []") (simp_all add: add_keys_known, simp add: add_keys_def)
qed

text \<open>What every entry of the table satisfies.\<close>

definition key_entry_ok :: "string list \<Rightarrow> bool" where
  "key_entry_ok ls \<longleftrightarrow> distinct ls \<and>
     (\<forall>l \<in> set ls. l \<noteq> [] \<and> strip l = l \<and> \<not> startswith l ''#'' \<and> newline \<notin> set l)"

definition key_table_ok :: "key_table \<Rightarrow> bool" where
  "key_table_ok ks \<longleftrightarrow> distinct (map fst ks) \<and> (\<forall>ep. key_entry_ok (dict_get ks ep []))"

text \<open>The iteration of a set visits each element once.\<close>

definition set_order :: "('a list \<Rightarrow> 'a list) \<Rightarrow> bool" where
  "set_order ord \<longleftrightarrow> (\<forall>xs. distinct xs \<longrightarrow> set (ord xs) = set xs \<and> distinct (ord xs))"

lemma set_order_rev: "set_order rev"
  by (simp add: set_order_def)

lemma add_line_ok:
  "key_table_ok ks \<Longrightarrow> newline \<notin> set l \<Longrightarrow> key_table_ok (add_line ep ks l)"
  using set_strip [of l]
  by (auto simp: key_table_ok_def key_entry_ok_def add_line_def Let_def distinct_update)

lemma add_lines_ok:
  "key_table_ok ks \<Longrightarrow> (\<And>l. l \<in> set ls \<Longrightarrow> newline \<notin> set l) \<Longrightarrow>
     key_table_ok (foldl (add_line ep) ks ls)"
  by (induction ls arbitrary: ks) (auto simp: add_line_ok)

lemma add_keys_ok: "key_table_ok ks \<Longrightarrow> key_table_ok (add_keys ks ep t)"
  by (auto simp: add_keys_def intro: add_lines_ok dest: split_on_parts)

lemma get_keys_ok: "key_table_ok ks \<Longrightarrow> key_table_ok (snd (get_keys ord ks ep))"
  by (auto simp: get_keys_def Let_def key_table_ok_def distinct_update)

lemma key_table_ok_Nil: "key_table_ok []"
  by (simp add: key_table_ok_def key_entry_ok_def dict_get_def)

lemma join_ends:
  assumes "xs \<noteq> []" and "\<forall>l \<in> set xs. l \<noteq> []"
  shows "join d xs \<noteq> []" "hd (join d xs) = hd (hd xs)" "last (join d xs) = last (last xs)"
proof -
  have "join d xs \<noteq> [] \<and> hd (join d xs) = hd (hd xs) \<and> last (join d xs) = last (last xs)"
    using assms by (induction xs) (auto simp: join_Cons)
  then show "join d xs \<noteq> []" "hd (join d xs) = hd (hd xs)" "last (join d xs) = last (last xs)"
    by auto
qed

text \<open>Reading the keys back from the text \<open>get_keys\<close> gives.\<close>

lemma key_lines_join:
  assumes "\<forall>l \<in> set ls. l \<noteq> [] \<and> strip l = l \<and> \<not> startswith l ''#'' \<and> newline \<notin> set l"
  shows "key_lines (join [newline] ls) = ls"
proof (cases "ls = []")
  case True
  then show ?thesis by simp
next
  case False
  have ends: "\<not> is_space (hd l) \<and> \<not> is_space (last l)" if "l \<in> set ls" for l
    using assms that strip_ends [of l] by auto
  have "strip (join [newline] ls) = join [newline] ls"
    using join_ends [OF False, of "[newline]"] ends [of "hd ls"] ends [of "last ls"] False assms
    by (intro strip_id) simp
  moreover have "split_on newline (join [newline] ls) = ls"
    using False assms by (intro split_on_join) auto
  moreover have "filter (\<lambda>l. l \<noteq> [] \<and> \<not> startswith l ''#'') (map strip ls) = ls"
    using assms by (auto simp: filter_id_conv map_idI)
  ultimately show ?thesis by (simp add: key_lines_def)
qed

lemma export_lines:
  assumes "set_order ord" and "key_table_ok ks"
  shows "key_lines (fst (get_keys ord ks ep)) = ord (dict_get ks ep [])"
    and "set (ord (dict_get ks ep [])) = set (dict_get ks ep [])"
    and "distinct (ord (dict_get ks ep []))"
proof -
  have ok: "key_entry_ok (dict_get ks ep [])" using assms(2) by (simp add: key_table_ok_def)
  with assms(1) show "set (ord (dict_get ks ep [])) = set (dict_get ks ep [])"
    and "distinct (ord (dict_get ks ep []))"
    by (auto simp: set_order_def key_entry_ok_def)
  with ok show "key_lines (fst (get_keys ord ks ep)) = ord (dict_get ks ep [])"
    by (simp add: get_keys_def Let_def key_lines_join key_entry_ok_def)
qed

lemma add_line_noop:
  "strip l = [] \<or> startswith (strip l) ''#'' \<or> strip l \<in> set (dict_get ks ep []) \<Longrightarrow> add_line ep ks l = ks"
  by (auto simp: add_line_def Let_def)

lemma add_lines_noop:
  "(\<And>l. l \<in> set ls \<Longrightarrow> strip l = [] \<or> startswith (strip l) ''#'' \<or> strip l \<in> set (dict_get ks ep [])) \<Longrightarrow>
     foldl (add_line ep) ks ls = ks"
  by (induction ls) (auto simp: add_line_noop)

lemma add_keys_noop: "set (key_lines t) \<subseteq> set (dict_get ks ep []) \<Longrightarrow> add_keys ks ep t = ks"
  unfolding add_keys_def key_lines_def by (auto intro!: add_lines_noop)

section \<open>Properties\<close>

text \<open>
The key store holds exactly the keys it was sent. After any sequence of \<open>add_keys\<close> calls, for
any endpoints, the text \<open>get_keys\<close> returns for an endpoint contains, as key lines, each line sent
for that endpoint that is not blank and not a comment, stripped, exactly once, and nothing else.
\<close>

theorem key_store_exact:
  assumes ord: "set_order ord" and ep: "ep \<noteq> []"
    and ks: "ks = foldl (\<lambda>s c. add_keys s (fst c) (snd c)) [] cs"
  shows "set (key_lines (fst (get_keys ord ks ep))) = (\<Union>t \<in> {t. (ep, t) \<in> set cs}. set (key_lines t))
     \<and> distinct (key_lines (fst (get_keys ord ks ep)))"
proof -
  have "key_table_ok (foldl (\<lambda>s c. add_keys s (fst c) (snd c)) ks0 cs)" if "key_table_ok ks0" for ks0
    using that by (induction cs arbitrary: ks0) (auto intro: add_keys_ok)
  then have "key_table_ok ks" using key_table_ok_Nil ks by simp
  from export_lines [OF ord this, of ep] show ?thesis
    using store_log.known_fold [OF ep, of "[]" cs] ks by (simp add: dict_get_def)
qed

theorem key_store_exact_witness:
  "set (key_lines (fst (get_keys rev (add_keys [] ''e'' (''# c'' @ newline # '' k1 '' @ [newline] @ ''k2'')) ''e'')))
     = {''k1'', ''k2''}"
proof -
  have "set (key_lines (''# c'' @ newline # '' k1 '' @ [newline] @ ''k2'')) = {''k1'', ''k2''}"
    by (simp add: key_lines_def strip_def lstrip_def rstrip_def is_space_def)
  with key_store_exact [OF set_order_rev, of "''e''" _ "[(''e'', ''# c'' @ newline # '' k1 '' @ [newline] @ ''k2'')]"]
  show ?thesis by simp
qed

text \<open>
Sending the store its own export changes nothing: for every table the operations can build,
adding the text of \<open>get_keys\<close> to the same endpoint leaves the table as it is, while every operation
keeps the table well formed (no blank, comment or repeated line).
\<close>

theorem key_store_export_import:
  assumes "set_order ord" and "key_table_ok ks"
  shows "add_keys ks ep (fst (get_keys ord ks ep)) = ks
    \<and> key_table_ok (add_keys ks ep t) \<and> key_table_ok (snd (get_keys ord ks ep))"
  using export_lines [OF assms, of ep] assms(2)
  by (simp add: add_keys_noop add_keys_ok get_keys_ok)

theorem key_store_export_import_witness:
  "add_keys [(''e'', [''k1'', ''k2''])] ''e'' (fst (get_keys rev [(''e'', [''k1'', ''k2''])] ''e''))
     = [(''e'', [''k1'', ''k2''])]"
proof -
  have "key_table_ok [(''e'', [''k1'', ''k2''])]"
    by (simp add: key_table_ok_def key_entry_ok_def dict_get_def strip_def lstrip_def rstrip_def is_space_def)
  from key_store_export_import [OF set_order_rev this, of "''e''"] show ?thesis by simp
qed

end
