(* ===== verification/ObjectStore.thy ===== *)
theory ObjectStore
  imports Effects
begin

text \<open>
  The two MinIO clients: routing-system/minio_client.py (it makes a missing bucket and returns the
  empty string on any failure) and data-layer/minio_client.py (it catches \<^verbatim>\<open>ClientError\<close> only).
  The S3 service is a parameter.
\<close>

section \<open>routing-system/minio\_client.py\<close>

definition s3_uri :: "string \<Rightarrow> string \<Rightarrow> string" where
  "s3_uri bucket object_name = ''s3://'' @ bucket @ ''/'' @ object_name"

definition ensure_bucket :: "env \<Rightarrow> pylib \<Rightarrow> string \<Rightarrow> ('z world_scheme, unit) prog" where
  "ensure_bucket E L bucket =
     catchif (\<lambda>c. c = ClientErr) (do_call E (S3 (S3HeadBucket bucket)))
       (\<lambda>e. if client_code L e \<in> set [''404'', ''NoSuchBucket'']
             then do_call E (S3 (S3CreateBucket bucket)) else raise e)"

text \<open>The size is read for the log line, inside the \<^verbatim>\<open>try\<close>, after the upload.\<close>

definition upload_file :: "env \<Rightarrow> pylib \<Rightarrow> string \<Rightarrow> string \<Rightarrow> string option
    \<Rightarrow> ('z world_scheme, string) prog" where
  "upload_file E L bucket file_path object_name =
     bindp (path_exists E file_path) (\<lambda>there.
     if \<not> there then ret []
     else
       (let name = (case object_name of None \<Rightarrow> basename file_path | Some n \<Rightarrow> n) in
        catchp
          (seqp (ensure_bucket E L bucket)
          (seqp (do_call E (S3 (S3UploadFile file_path bucket name)))
          (seqp (do_call E (Fs (FsSize file_path)))
          (ret (s3_uri bucket name)))))
          (\<lambda>_. ret [])))"

definition upload_bytes :: "env \<Rightarrow> pylib \<Rightarrow> string \<Rightarrow> bytes \<Rightarrow> string \<Rightarrow> ('z world_scheme, string) prog" where
  "upload_bytes E L bucket data object_name =
     (if data = [] then ret []
      else
        catchp
          (seqp (ensure_bucket E L bucket)
          (seqp (do_call E (S3 (S3PutObject bucket object_name data)))
          (ret (s3_uri bucket object_name))))
          (\<lambda>_. ret []))"

definition presigned_url :: "env \<Rightarrow> string \<Rightarrow> string \<Rightarrow> int \<Rightarrow> ('z world_scheme, string) prog" where
  "presigned_url E bucket object_name expires_in =
     catchp (call_as as_str E (S3 (S3Presign bucket object_name expires_in))) (\<lambda>_. ret [])"

section \<open>data-layer/minio\_client.py\<close>

definition dl_upload_file :: "env \<Rightarrow> string \<Rightarrow> string \<Rightarrow> string option \<Rightarrow> ('z world_scheme, string) prog" where
  "dl_upload_file E bucket file_path object_name =
     (let name = (case object_name of None \<Rightarrow> basename file_path | Some n \<Rightarrow> n) in
      catchif (\<lambda>c. c = ClientErr)
        (seqp (do_call E (S3 (S3UploadFile file_path bucket name))) (ret (s3_uri bucket name)))
        (\<lambda>_. ret []))"

definition dl_upload_bytes :: "env \<Rightarrow> string \<Rightarrow> bytes \<Rightarrow> string \<Rightarrow> ('z world_scheme, string) prog" where
  "dl_upload_bytes E bucket data object_name =
     catchif (\<lambda>c. c = ClientErr)
       (seqp (do_call E (S3 (S3PutObject bucket object_name data))) (ret (s3_uri bucket object_name)))
       (\<lambda>_. ret [])"

section \<open>Lemmas\<close>

lemma s3_uri_ne [simp]: "s3_uri b n \<noteq> []"
  by (simp add: s3_uri_def)

lemma no_raise_upload_file [no_raise_intros]: "no_raise (upload_file E L b p n)"
  unfolding upload_file_def by (intro no_raise_intros)

lemma no_raise_upload_bytes [no_raise_intros]: "no_raise (upload_bytes E L b d n)"
  unfolding upload_bytes_def by (intro no_raise_intros)

lemma no_raise_presigned_url [no_raise_intros]: "no_raise (presigned_url E b n t)"
  unfolding presigned_url_def by (intro no_raise_intros)

text \<open>The events of an upload.\<close>

fun upload_event :: "call \<Rightarrow> event \<Rightarrow> bool" where
  "upload_event c (S3 (S3HeadBucket _), _) = True"
| "upload_event c (S3 (S3CreateBucket _), _) = True"
| "upload_event c (Fs (FsExists _), _) = True"
| "upload_event c (Fs (FsSize _), _) = True"
| "upload_event c (c', _) = (c' = c)"

lemma emits_ensure_bucket: "emits (upload_event c) (ensure_bucket E L b)"
  unfolding ensure_bucket_def by (intro emits_intros) simp_all

lemma emits_upload_bytes: "emits (upload_event (S3 (S3PutObject b n d))) (upload_bytes E L b d n)"
  unfolding upload_bytes_def by (intro emits_intros emits_ensure_bucket) simp_all

lemma emits_upload_file:
  "emits (upload_event (S3 (S3UploadFile p b (case n of None \<Rightarrow> basename p | Some n \<Rightarrow> n))))
     (upload_file E L b p n)"
  unfolding upload_file_def Let_def by (intro emits_intros emits_ensure_bucket) simp_all

section \<open>Properties\<close>

text \<open>
\<open>upload_bytes\<close> reports exactly what happened. It never raises; its result is the object's
URI or the empty string, and it is the URI if and only if MinIO accepted a \<^verbatim>\<open>put_object\<close> of
exactly these bytes under this bucket and name during the call.
\<close>

theorem upload_bytes_outcome:
  "\<exists>uri. fst (upload_bytes E L bucket data name w) = Inr uri
     \<and> uri \<in> {[], s3_uri bucket name}
     \<and> (uri \<noteq> [] \<longleftrightarrow> (\<exists>v. (S3 (S3PutObject bucket name data), Inr v)
          \<in> set (new_events (upload_bytes E L bucket data name) w)))"
proof -
  have "wp (upload_bytes E L bucket data name) (\<lambda>r w'. \<exists>uri. r = Inr uri
     \<and> uri \<in> {[], s3_uri bucket name}
     \<and> (uri \<noteq> [] \<longleftrightarrow> (\<exists>v. (S3 (S3PutObject bucket name data), Inr v)
          \<in> set (drop (length (trace w)) (trace w'))))) w"
    by (simp add: upload_bytes_def ensure_bucket_def wp_simps Let_def split: sum.split)
  then show ?thesis by (simp add: wp_def new_events_def)
qed

text \<open>
\<open>upload_file\<close> of the routing system never raises; it returns the object's URI if and only if
MinIO accepted the upload and the file's size could be read afterwards for the log. So a stored
object is reported as a failed upload when only that last read fails.
\<close>

theorem upload_file_outcome:
  "\<exists>uri. fst (upload_file E L bucket path (Some name) w) = Inr uri
     \<and> uri \<in> {[], s3_uri bucket name}
     \<and> (uri \<noteq> [] \<longleftrightarrow>
          (\<exists>v. (S3 (S3UploadFile path bucket name), Inr v)
             \<in> set (new_events (upload_file E L bucket path (Some name)) w)) \<and>
          (\<exists>v. (Fs (FsSize path), Inr v) \<in> set (new_events (upload_file E L bucket path (Some name)) w)))"
proof -
  have "wp (upload_file E L bucket path (Some name)) (\<lambda>r w'. \<exists>uri. r = Inr uri
     \<and> uri \<in> {[], s3_uri bucket name}
     \<and> (uri \<noteq> [] \<longleftrightarrow>
         (\<exists>v. (S3 (S3UploadFile path bucket name), Inr v) \<in> set (drop (length (trace w)) (trace w'))) \<and>
         (\<exists>v. (Fs (FsSize path), Inr v) \<in> set (drop (length (trace w)) (trace w'))))) w"
    by (simp add: upload_file_def ensure_bucket_def path_exists_def wp_simps Let_def split: sum.split)
  then show ?thesis by (simp add: wp_def new_events_def)
qed

end
