(* ===== verification/TempFiles.thy ===== *)
theory TempFiles
  imports Effects
begin

text \<open>
  Temporary files, shared by the components that make and remove them: which paths a history leaves
  behind, and programs that sweep a set of paths.
\<close>

section \<open>Removal\<close>

definition remove_if_there :: "env \<Rightarrow> fs_cmd \<Rightarrow> string \<Rightarrow> ('z world_scheme, unit) prog" where
  "remove_if_there E cmd path =
     bindp (path_exists E path) (\<lambda>there.
     whenp there (catchp (do_call E (Fs cmd)) (\<lambda>_. ret ())))"

section \<open>Left-over paths\<close>

text \<open>
  The paths a call may create, and whether a path is left over after a history: it was created and
  since then neither removed (or its removal tried) nor reported absent.
\<close>

fun writes :: "call \<Rightarrow> string set" where
  "writes (Fs (FsWrite p _)) = {p}"
| "writes (Fs (FsMakeDirs p)) = {p}"
| "writes (Tool (ScapyWrPcap p _)) = {p}"
| "writes _ = {}"

fun removal :: "call \<Rightarrow> bool" where
  "removal (Fs (FsRemove _)) = True"
| "removal (Fs (FsRmTree _)) = True"
| "removal _ = False"

definition left_step :: "string \<Rightarrow> bool \<Rightarrow> event \<Rightarrow> bool" where
  "left_step p b e =
     (if p \<in> writes (fst e) then True
      else if fst e \<in> {Fs (FsRemove p), Fs (FsRmTree p)} then False
      else if fst e = Fs (FsExists p) \<and> snd e \<noteq> Inr (PBool True) then False
      else b)"

definition left_over :: "string \<Rightarrow> hist \<Rightarrow> bool" where
  "left_over p h = foldl (left_step p) False h"

lemma foldl_left_unwritten:
  "list_all (\<lambda>e. p \<notin> writes (fst e)) es \<Longrightarrow> \<not> b \<Longrightarrow> \<not> foldl (left_step p) b es"
  by (induction es arbitrary: b) (auto simp: left_step_def)

definition mid_event :: "string set \<Rightarrow> event \<Rightarrow> bool" where
  "mid_event ps e \<longleftrightarrow> writes (fst e) \<subseteq> ps \<and> \<not> removal (fst e)"

lemma mid_event_list: "list_all (mid_event ps) es \<Longrightarrow> p \<notin> ps \<Longrightarrow> list_all (\<lambda>e. p \<notin> writes (fst e)) es"
  unfolding mid_event_def list_all_iff by blast

section \<open>Sweeping\<close>

text \<open>A program that tries the removal of each path of a set that is there, and never raises.\<close>

definition swept :: "string set \<Rightarrow> hist \<Rightarrow> bool" where
  "swept ps es \<longleftrightarrow> list_all (\<lambda>e. writes (fst e) = {}) es
     \<and> (\<forall>p \<in> ps. \<forall>b. \<not> foldl (left_step p) b es)"

lemma swept_append:
  assumes "swept ps es" and "swept qs es'"
  shows "swept (ps \<union> qs) (es @ es')"
proof -
  have "list_all (\<lambda>e. p \<notin> writes (fst e)) es'" for p
    using assms(2) by (simp add: swept_def list_all_iff)
  then have "p \<in> ps \<Longrightarrow> \<not> foldl (left_step p) b (es @ es')" for p b
    using assms(1) foldl_left_unwritten [of p es' "foldl (left_step p) b es"] by (simp add: swept_def)
  moreover have "p \<in> qs \<Longrightarrow> \<not> foldl (left_step p) b (es @ es')" for p b
    using assms(2) by (simp add: swept_def)
  ultimately show ?thesis
    using assms by (auto simp: swept_def)
qed

definition sweeps :: "string set \<Rightarrow> ('z world_scheme, unit) prog \<Rightarrow> bool" where
  "sweeps ps m \<longleftrightarrow> (\<forall>s. wp m (\<lambda>r s'. r = Inr () \<and> (\<exists>es. trace s' = trace s @ es \<and> swept ps es)) s)"

lemma sweeps_seqp:
  assumes m: "sweeps ps m" and n: "sweeps qs n"
  shows "sweeps (ps \<union> qs) (seqp m n)"
  unfolding sweeps_def wp_seqp
proof
  fix s :: "'a world_scheme"
  show "wp m (\<lambda>r s'. case r of Inl e \<Rightarrow> Inl e = Inr () \<and> (\<exists>es. trace s' = trace s @ es \<and> swept (ps \<union> qs) es)
     | Inr x \<Rightarrow> wp n (\<lambda>r s'. r = Inr () \<and> (\<exists>es. trace s' = trace s @ es \<and> swept (ps \<union> qs) es)) s') s"
  proof (rule wp_mono)
    show "wp m (\<lambda>r s'. r = Inr () \<and> (\<exists>es. trace s' = trace s @ es \<and> swept ps es)) s"
      using m by (simp add: sweeps_def)
  next
    fix r and s' :: "'a world_scheme"
    assume "r = Inr () \<and> (\<exists>es. trace s' = trace s @ es \<and> swept ps es)"
    then obtain es where es: "r = Inr ()" "trace s' = trace s @ es" "swept ps es" by blast
    have "wp n (\<lambda>r s''. r = Inr () \<and> (\<exists>es. trace s'' = trace s @ es \<and> swept (ps \<union> qs) es)) s'"
    proof (rule wp_mono)
      show "wp n (\<lambda>r s''. r = Inr () \<and> (\<exists>es. trace s'' = trace s' @ es \<and> swept qs es)) s'"
        using n by (simp add: sweeps_def)
    next
      fix r' and s'' :: "'a world_scheme"
      assume "r' = Inr () \<and> (\<exists>es. trace s'' = trace s' @ es \<and> swept qs es)"
      then show "r' = Inr () \<and> (\<exists>es. trace s'' = trace s @ es \<and> swept (ps \<union> qs) es)"
        using es swept_append by (metis append.assoc)
    qed
    with es show "case r of Inl e \<Rightarrow> Inl e = Inr () \<and> (\<exists>es. trace s' = trace s @ es \<and> swept (ps \<union> qs) es)
      | Inr x \<Rightarrow> wp n (\<lambda>r s'. r = Inr () \<and> (\<exists>es. trace s' = trace s @ es \<and> swept (ps \<union> qs) es)) s'"
      by simp
  qed
qed

lemma sweeps_ret: "sweeps {} (ret ())"
  by (simp add: sweeps_def wp_simps swept_def)

lemma sweeps_remove: "cmd \<in> {FsRemove p, FsRmTree p} \<Longrightarrow> sweeps {p} (remove_if_there E cmd p)"
  unfolding sweeps_def swept_def remove_if_there_def path_exists_def
  by (auto simp: wp_simps Let_def left_step_def as_bool_def split: sum.split pyval.split)

lemma left_over_swept:
  "swept ps es' \<Longrightarrow> list_all (mid_event ps) es \<Longrightarrow> \<not> left_over p (es @ es')"
proof (cases "p \<in> ps")
  case False
  assume "swept ps es'" "list_all (mid_event ps) es"
  with False have "list_all (\<lambda>e. p \<notin> writes (fst e)) (es @ es')"
    using mid_event_list unfolding swept_def list_all_iff by fastforce
  then show ?thesis
    using foldl_left_unwritten [of p "es @ es'" False] by (simp add: left_over_def)
qed (simp add: left_over_def swept_def)

lemma mid_no_removal: "list_all (mid_event ps) es \<Longrightarrow> \<not> list_ex (\<lambda>e. removal (fst e)) es"
  by (simp add: list_all_iff list_ex_iff mid_event_def)

end
