(* ===== verification/PcapBuilder.thy ===== *)
theory PcapBuilder
  imports ObjectStore TempFiles
begin

text \<open>
  routing-system/pcap_builder.py: the forensic capture of a stream. \<open>sync_build\<close> is
  \<^verbatim>\<open>_sync_build\<close>, split at the numbered comments of the source: \<open>write_pcap\<close> (1),
  \<open>write_keys\<close> (2), \<open>carve\<close> (3), \<open>upload_artifacts\<close> and \<open>cleanup\<close> (4, 5). Scapy and tshark are
  external: a packet is what Scapy answers for the given fields.
\<close>

section \<open>Model\<close>

definition safe_id :: "string \<Rightarrow> string" where
  "safe_id stream_id = replace_str ''-'' ''_'' (replace_str '':'' ''_'' stream_id)"

definition output_dir :: string where
  "output_dir = ''/tmp/stegnar_pcaps''"

definition base_path :: "string \<Rightarrow> int \<Rightarrow> string \<Rightarrow> string" where
  "base_path stream_id ts uid = output_dir @ ''/'' @ safe_id stream_id @ ''_'' @ int_str ts @ ''_'' @ uid"

subsection \<open>1. The capture file\<close>

text \<open>The addresses of the mock capture: each assignment of the \<^verbatim>\<open>try\<close> up to the first failure.\<close>

record flow =
  src_ip :: string
  sport :: pyval
  dst_ip :: string
  dport :: pyval

definition default_flow :: flow where
  "default_flow = \<lparr>src_ip = ''172.20.0.10'', sport = PInt 54321, dst_ip = ''172.20.0.2'', dport = PInt 443\<rparr>"

definition mock_flow :: "string \<Rightarrow> flow" where
  "mock_flow stream_id =
     (if CHR ''-'' \<in> set stream_id then
        (let parts = split_on CHR ''-'' stream_id in
         case split_on CHR '':'' (parts ! 0) of
           [a, p] \<Rightarrow>
             (let f1 = default_flow\<lparr>src_ip := a, sport := PStr p\<rparr> in
              case split_on CHR '':'' (parts ! 1) of
                [b, q] \<Rightarrow>
                  (case (py_int p, py_int q) of
                     (Inr m, Inr n) \<Rightarrow> f1\<lparr>dst_ip := b, sport := PInt m, dport := PInt n\<rparr>
                   | _ \<Rightarrow> f1\<lparr>dst_ip := b, dport := PStr q\<rparr>)
              | _ \<Rightarrow> f1)
         | _ \<Rightarrow> default_flow)
      else default_flow)"

text \<open>A packet the builder asks Scapy for; an \<^verbatim>\<open>ack\<close> the code does not give is 0.\<close>

record tcp_pkt =
  from_client :: bool
  flags :: string
  seqno :: int
  ackno :: int
  payload :: bytes

definition chunk_size :: int where
  "chunk_size = 1300"

fun mock_data :: "bytes \<Rightarrow> int list \<Rightarrow> int \<Rightarrow> tcp_pkt list \<times> int" where
  "mock_data raw [] seq_num = ([], seq_num)"
| "mock_data raw (offset # rest) seq_num =
     (let chunk_data = slice raw offset (offset + chunk_size);
          pkt = \<lparr>from_client = True, flags = ''PA'', seqno = seq_num, ackno = 2001, payload = chunk_data\<rparr>;
          (pkts, seq') = mock_data raw rest (seq_num + int (length chunk_data))
      in (pkt # pkts, seq'))"

definition mock_packets :: "bytes \<Rightarrow> tcp_pkt list" where
  "mock_packets raw =
     (let (pkts, seq_num) = mock_data raw (py_range 0 (int (length raw)) chunk_size) 1001
      in [\<lparr>from_client = True, flags = ''S'', seqno = 1000, ackno = 0, payload = []\<rparr>,
          \<lparr>from_client = False, flags = ''SA'', seqno = 2000, ackno = 1001, payload = []\<rparr>,
          \<lparr>from_client = True, flags = ''A'', seqno = 1001, ackno = 2001, payload = []\<rparr>]
         @ pkts
         @ [\<lparr>from_client = True, flags = ''FA'', seqno = seq_num, ackno = 2001, payload = []\<rparr>])"

definition build_pkt :: "env \<Rightarrow> flow \<Rightarrow> tcp_pkt \<Rightarrow> ('z world_scheme, pyval) prog" where
  "build_pkt E f p =
     (if from_client p
      then call E (Tool (ScapyBuild (src_ip f) (dst_ip f) (sport f) (dport f) (flags p) (seqno p) (ackno p) (payload p)))
      else call E (Tool (ScapyBuild (dst_ip f) (src_ip f) (dport f) (sport f) (flags p) (seqno p) (ackno p) (payload p))))"

text \<open>Only bytes that begin like an IPv4 header are parsed; a parse error skips the packet.\<close>

primrec parse_packets :: "env \<Rightarrow> bytes list \<Rightarrow> ('z world_scheme, pyval list) prog" where
  "parse_packets E [] = ret []"
| "parse_packets E (p # ps) =
     bindp (if p \<noteq> [] \<and> hd p = 0x45
            then catchp (bindp (call E (Tool (ScapyIP p))) (\<lambda>k. ret [k])) (\<lambda>_. ret [])
            else ret [])
       (\<lambda>ks. bindp (parse_packets E ps) (\<lambda>rest. ret (ks @ rest)))"

definition write_pcap :: "env \<Rightarrow> string \<Rightarrow> string \<Rightarrow> bytes \<Rightarrow> bytes list \<Rightarrow> ('z world_scheme, unit) prog" where
  "write_pcap E stream_id pcap_path raw_bytes packets =
     bindp (parse_packets E packets) (\<lambda>scapy_pkts.
     if scapy_pkts \<noteq> [] then do_call E (Tool (ScapyWrPcap pcap_path scapy_pkts))
     else
       bindp (mapp (build_pkt E (mock_flow stream_id)) (mock_packets raw_bytes)) (\<lambda>pkts.
       do_call E (Tool (ScapyWrPcap pcap_path pkts))))"

subsection \<open>2. The TLS keys\<close>

definition write_keys :: "env \<Rightarrow> string \<Rightarrow> string \<Rightarrow> ('z world_scheme, bool) prog" where
  "write_keys E key_path ssl_keys =
     (if ssl_keys \<noteq> [] \<and> strip ssl_keys \<noteq> [] then
        catchp (seqp (do_call E (Fs (FsWrite key_path (encode ssl_keys)))) (ret True)) (\<lambda>_. ret False)
      else ret False)"

subsection \<open>3. Carving\<close>

definition tshark_cmd :: "string \<Rightarrow> string \<Rightarrow> string \<Rightarrow> bool \<Rightarrow> string list" where
  "tshark_cmd pcap_path key_path export_dir has_keys =
     [''tshark'', ''-r'', pcap_path]
     @ (if has_keys then [''-o'', ''tls.keylog_file:'' @ key_path] else [])
     @ [''--export-objects'', ''http,'' @ export_dir]"

text \<open>\<^verbatim>\<open>max(files, key=os.path.getsize)\<close>: the first of the largest.\<close>

fun largest :: "(int \<times> string) list \<Rightarrow> (int \<times> string) option" where
  "largest [] = None"
| "largest (x # xs) = Some (foldl (\<lambda>m y. if fst m < fst y then y else m) x xs)"

definition jpeg_carve :: "bytes \<Rightarrow> bytes" where
  "jpeg_carve raw =
     (let start = py_find raw [0xFF, 0xD8, 0xFF] in
      if start \<noteq> -1 then
        (let end = py_rfind raw [0xFF, 0xD9] in
         if end \<noteq> -1 \<and> end > start then slice raw start (end + 2) else [])
      else [])"

definition exported_file :: "env \<Rightarrow> string \<Rightarrow> ('z world_scheme, bytes) prog" where
  "exported_file E export_dir =
     bindp (path_exists E export_dir) (\<lambda>there.
     if \<not> there then ret []
     else
       bindp (call_as as_list E (Fs (FsListDir export_dir))) (\<lambda>names.
       bindp (mapp (\<lambda>n. lift_sum (as_str n)) names) (\<lambda>names.
       let files = map (\<lambda>n. export_dir @ ''/'' @ n) names in
       bindp (mapp (\<lambda>f. bindp (call_as as_int E (Fs (FsSize f))) (\<lambda>n. ret (n, f))) files) (\<lambda>sized.
       case largest sized of
         None \<Rightarrow> ret []
       | Some (_, largest_file) \<Rightarrow>
           bindp (call_as as_int E (Fs (FsSize largest_file))) (\<lambda>fsize.
           if fsize > 1000 then call_as as_bytes E (Fs (FsRead largest_file)) else ret [])))))"

text \<open>Every exception of this step ends it without an image.\<close>

definition carve :: "env \<Rightarrow> string \<Rightarrow> string \<Rightarrow> string \<Rightarrow> bool \<Rightarrow> bytes \<Rightarrow> ('z world_scheme, bytes) prog" where
  "carve E pcap_path key_path export_dir has_keys raw_bytes =
     catchp
       (seqp (do_call E (Fs (FsMakeDirs export_dir)))
       (seqp (do_call E (Tool (RunProc (tshark_cmd pcap_path key_path export_dir has_keys) [] 15)))
       (bindp (exported_file E export_dir) (\<lambda>image_bytes.
        ret (if length image_bytes = 0 then jpeg_carve raw_bytes else image_bytes)))))
       (\<lambda>_. ret [])"

subsection \<open>4 and 5. Upload and cleanup\<close>

definition upload_pcap :: "env \<Rightarrow> pylib \<Rightarrow> string \<Rightarrow> ('z world_scheme, string) prog" where
  "upload_pcap E L pcap_path =
     bindp (path_exists E pcap_path) (\<lambda>there.
     if there then
       bindp (upload_file E L ''stegnar-pcaps'' pcap_path None) (\<lambda>uri.
       ret (if uri = [] then ''error://upload_failed/'' @ basename pcap_path else uri))
     else ret [])"

definition upload_image :: "env \<Rightarrow> pylib \<Rightarrow> string \<Rightarrow> bytes \<Rightarrow> ('z world_scheme, string) prog" where
  "upload_image E L obj_name image_bytes =
     (if image_bytes \<noteq> [] then
        bindp (upload_bytes E L ''stegnar-artifacts'' image_bytes obj_name) (\<lambda>uri.
        ret (if uri = [] then ''error://upload_failed/'' @ obj_name else uri))
      else ret [])"

definition upload_artifacts :: "env \<Rightarrow> pylib \<Rightarrow> string \<Rightarrow> string \<Rightarrow> bytes
    \<Rightarrow> ('z world_scheme, string \<times> string) prog" where
  "upload_artifacts E L pcap_path obj_name image_bytes =
     catchp
       (seqp (do_call E (S3 S3Connect))
       (bindp (upload_pcap E L pcap_path) (\<lambda>pcap_uri.
        catchp
          (bindp (upload_image E L obj_name image_bytes) (\<lambda>image_uri. ret (pcap_uri, image_uri)))
          (\<lambda>_. ret (pcap_uri, [])))))
       (\<lambda>_. ret ([], []))"

definition cleanup :: "env \<Rightarrow> string \<Rightarrow> string \<Rightarrow> string \<Rightarrow> ('z world_scheme, unit) prog" where
  "cleanup E pcap_path key_path export_dir =
     seqp (forp [pcap_path, key_path] (\<lambda>path. remove_if_there E (FsRemove path) path))
          (remove_if_there E (FsRmTree export_dir) export_dir)"

subsection \<open>The whole build\<close>

definition int_time :: "env \<Rightarrow> ('z world_scheme, int) prog" where
  "int_time E = bindp (call_as as_float E Clock) (\<lambda>t. ret (py_trunc t))"

definition build_at :: "env \<Rightarrow> pylib \<Rightarrow> string \<Rightarrow> bytes \<Rightarrow> string \<Rightarrow> bytes list \<Rightarrow> string \<Rightarrow> string
    \<Rightarrow> ('z world_scheme, string \<times> string \<times> bytes) prog" where
  "build_at E L stream_id raw_bytes ssl_keys packets base obj_name =
     (let pcap_path = base @ ''.pcap'';
          key_path = base @ ''.keys'';
          export_dir = base @ ''_ext''
      in
      bindp (catchp (seqp (write_pcap E stream_id pcap_path raw_bytes packets) (ret True)) (\<lambda>_. ret False))
        (\<lambda>pcap_written.
      if \<not> pcap_written then ret (''error://pcap_fail'', [], [])
      else
        bindp (write_keys E key_path ssl_keys) (\<lambda>has_keys.
        bindp (carve E pcap_path key_path export_dir has_keys raw_bytes) (\<lambda>image_bytes.
        bindp (finallyp (upload_artifacts E L pcap_path obj_name image_bytes)
                        (cleanup E pcap_path key_path export_dir)) (\<lambda>(pcap_uri, image_uri).
        ret (pcap_uri, image_uri, image_bytes))))))"

definition sync_build :: "env \<Rightarrow> pylib \<Rightarrow> string \<Rightarrow> bytes \<Rightarrow> string \<Rightarrow> bool \<Rightarrow> bytes list
    \<Rightarrow> ('z world_scheme, string \<times> string \<times> bytes) prog" where
  "sync_build E L stream_id raw_bytes ssl_keys is_list pkt_list =
     bindp (call_as as_str E UuidHex) (\<lambda>hex.
     bindp (int_time E) (\<lambda>ts.
     let uid = take 8 hex in
     build_at E L stream_id raw_bytes ssl_keys
       (if is_list \<and> pkt_list \<noteq> [] then pkt_list else [raw_bytes])
       (base_path stream_id ts uid)
       (safe_id stream_id @ ''_'' @ int_str ts @ ''_'' @ uid @ ''.jpg'')))"

definition upload_direct_image :: "env \<Rightarrow> pylib \<Rightarrow> bytes \<Rightarrow> string \<Rightarrow> int \<Rightarrow> string
    \<Rightarrow> ('z world_scheme, string \<times> string \<times> bytes) prog" where
  "upload_direct_image E L raw_bytes sid ts uid =
     (let obj_name = sid @ ''_'' @ int_str ts @ ''_'' @ uid @ ''.jpg'' in
      bindp (catchp
              (seqp (do_call E (S3 S3Connect))
              (bindp (upload_bytes E L ''stegnar-artifacts'' raw_bytes obj_name) (\<lambda>image_uri.
               ret (if image_uri \<noteq> [] then image_uri else ''error://upload_failed/'' @ obj_name))))
              (\<lambda>_. ret []))
        (\<lambda>image_uri. ret ([], image_uri, raw_bytes)))"


section \<open>Lemmas\<close>

subsection \<open>The mock capture\<close>

lemma mock_data_payload:
  "mock_data raw offs n = (pkts, m) \<Longrightarrow>
     map payload pkts = map (\<lambda>o'. slice raw o' (o' + chunk_size)) offs
     \<and> m = n + int (length (concat (map payload pkts)))
     \<and> (\<forall>i < length pkts. seqno (pkts ! i) = n + int (length (concat (map payload (take i pkts)))))"
proof (induction offs arbitrary: n pkts m)
  case Nil
  then show ?case by simp
next
  case (Cons a offs)
  let ?c = "slice raw a (a + chunk_size)"
  obtain ps m' where r: "mock_data raw offs (n + int (length ?c)) = (ps, m')" by fastforce
  with Cons.prems have p: "pkts = \<lparr>from_client = True, flags = ''PA'', seqno = n, ackno = 2001, payload = ?c\<rparr> # ps"
    and m: "m = m'" by (auto simp: Let_def)
  from Cons.IH [OF r] show ?case
    by (auto simp: p m nth_Cons split: nat.split)
qed

lemma concat_slices:
  assumes "0 < k"
  shows "concat (map (\<lambda>i. take k (drop (k * i) xs)) [0..<n]) = take (k * n) xs"
proof (induction n)
  case 0
  then show ?case by simp
next
  case (Suc n)
  have "take (k * n) xs @ take k (drop (k * n) xs) = take (k * Suc n) xs"
    by (metis add.commute mult_Suc_right take_add)
  with Suc show ?case by simp
qed

lemma slice_chunk: "slice raw (int a) (int a + int k) = take k (drop a raw)"
proof -
  have "nat (int a + int k) = a + k" by simp
  then show ?thesis by (simp add: slice_def slice_index_def min_def)
qed

lemma chunks_concat:
  "concat (map (\<lambda>off. slice raw off (off + chunk_size)) (py_range 0 (int (length raw)) chunk_size)) = raw"
proof -
  let ?n = "nat ((int (length raw) + 1299) div 1300)"
  have eq: "slice raw (1300 * int i) (1300 * int i + 1300) = take 1300 (drop (1300 * i) raw)" for i
    using slice_chunk [of raw "1300 * i" 1300] by simp
  have "map (\<lambda>off. slice raw off (off + chunk_size)) (py_range 0 (int (length raw)) chunk_size)
      = map (\<lambda>i. take 1300 (drop (1300 * i) raw)) [0..<?n]"
    by (simp add: py_range_def chunk_size_def eq [simplified add.commute] comp_def add.commute)
  moreover have "length raw \<le> 1300 * ?n"
  proof -
    let ?l = "int (length raw) + 1299"
    have "?l div 1300 * 1300 + ?l mod 1300 = ?l" by (rule div_mult_mod_eq)
    moreover have "?l mod 1300 < 1300" by simp
    ultimately show ?thesis by linarith
  qed
  ultimately show ?thesis using concat_slices [of 1300 raw ?n] by simp
qed

lemma chunk_length:
  "off \<in> set (py_range 0 n chunk_size) \<Longrightarrow> length (slice raw off (off + chunk_size)) \<le> 1300"
proof -
  assume "off \<in> set (py_range 0 n chunk_size)"
  then obtain i where "off = int (1300 * i)" by (auto simp: py_range_def chunk_size_def)
  then show ?thesis
    using slice_chunk [of raw "1300 * i" 1300] by (simp add: chunk_size_def)
qed

subsection \<open>Carving\<close>

lemma take_drop_window:
  "startswith (drop m xs) p \<Longrightarrow> m \<le> length xs \<Longrightarrow> m + length p \<le> length xs"
  using startswith_length [of "drop m xs" p] by simp

lemma jpeg_markers_apart:
  assumes "startswith (drop i d) [0xFF, 0xD8, 0xFF :: byte]" and "startswith (drop j d) [0xFF, 0xD9 :: byte]"
    and "i < j"
  shows "i + 2 \<le> j"
proof (rule ccontr)
  assume "\<not> i + 2 \<le> j"
  with assms(3) have j: "j = Suc i" by simp
  have "drop j d = tl (drop i d)" by (simp add: j drop_Suc tl_drop)
  with assms(1,2) show False by (cases "drop i d") (auto simp: startswith_def split: list.splits)
qed

lemma jpeg_carve_cases:
  "jpeg_carve raw = [] \<and> \<not> (py_find raw [0xFF, 0xD8, 0xFF] \<noteq> -1
        \<and> py_find raw [0xFF, 0xD8, 0xFF] < py_rfind raw [0xFF, 0xD9])
   \<or> (\<exists>a b. raw = a @ jpeg_carve raw @ b) \<and> startswith (jpeg_carve raw) [0xFF, 0xD8, 0xFF]
      \<and> endswith (jpeg_carve raw) [0xFF, 0xD9]"
proof -
  define i where "i = py_find raw [0xFF, 0xD8, 0xFF]"
  define j where "j = py_rfind raw [0xFF, 0xD9]"
  show ?thesis
  proof (cases "i \<noteq> -1 \<and> i < j \<and> j \<noteq> -1")
    case False
    moreover have "i = -1 \<or> 0 \<le> i"
      using find_from_lower [of 0 raw] by (simp add: i_def py_find_def)
    ultimately show ?thesis by (auto simp: jpeg_carve_def Let_def i_def j_def)
  next
    case True
    have fi: "0 \<le> i" "startswith (drop (nat i) raw) [0xFF, 0xD8, 0xFF]"
      using find_from_found [of 0 raw "[0xFF, 0xD8, 0xFF]" i] True by (auto simp: i_def py_find_def)
    have fj: "0 \<le> j" "startswith (drop (nat j) raw) [0xFF, 0xD9]" "nat j \<le> length raw"
      using rfind_from_found [of 0 raw "[0xFF, 0xD9]" j] True by (auto simp: j_def py_rfind_def)
    define a where "a = nat i"
    define k where "k = nat j + 2 - nat i"
    have apart: "nat i + 2 \<le> nat j"
      using jpeg_markers_apart [OF fi(2) fj(2)] True fi(1) by simp
    have len: "nat j + 2 \<le> length raw"
      using take_drop_window [OF fj(2,3)] by simp
    have c: "jpeg_carve raw = take k (drop a raw)"
      using slice_chunk [of raw a k] True apart fi(1) fj(1)
      by (simp add: jpeg_carve_def Let_def i_def [symmetric] j_def [symmetric] a_def k_def add.commute)
    have "raw = take a raw @ take k (drop a raw) @ drop k (drop a raw)"
      by (metis append_take_drop_id)
    moreover have "startswith (take k (drop a raw)) [0xFF, 0xD8, 0xFF]"
      using fi(2) apart by (simp add: startswith_take k_def a_def)
    moreover have "drop (k - 2) (take k (drop a raw)) = take 2 (drop (nat j) raw)"
      using apart by (simp add: drop_take k_def a_def)
    then have "endswith (take k (drop a raw)) [0xFF, 0xD9]"
      using fj(2) len apart by (simp add: endswith_def startswith_def k_def a_def numeral_2_eq_2)
    ultimately show ?thesis using c by metis
  qed
qed

subsection \<open>Temporary files\<close>

lemma emits_parse: "emits (mid_event ps) (parse_packets E pkts)"
proof (induction pkts)
  case Nil
  then show ?case by (simp add: emits_ret)
next
  case (Cons p pkts)
  then show ?case
    by (simp only: parse_packets.simps, intro emits_intros) (simp_all add: mid_event_def emits_ret)
qed

lemma emits_write_pcap: "pp \<in> ps \<Longrightarrow> emits (mid_event ps) (write_pcap E sid pp raw pkts)"
  unfolding write_pcap_def build_pkt_def
  by (intro emits_intros emits_parse) (simp_all add: mid_event_def)

lemma emits_write_keys: "kp \<in> ps \<Longrightarrow> emits (mid_event ps) (write_keys E kp keys)"
  unfolding write_keys_def by (intro emits_intros) (simp_all add: mid_event_def)

lemma emits_exported: "emits (mid_event ps) (exported_file E ed)"
  unfolding exported_file_def Let_def
  by (intro emits_intros) (simp_all add: mid_event_def)

lemma emits_carve: "ed \<in> ps \<Longrightarrow> emits (mid_event ps) (carve E pp kp ed hk raw)"
  unfolding carve_def by (intro emits_intros emits_exported) (simp_all add: mid_event_def)

lemma upload_event_mid: "upload_event (S3 c) e \<Longrightarrow> mid_event ps e"
  by (cases "(S3 c, e)" rule: upload_event.cases) (auto simp: mid_event_def)

lemma emits_upload_pcap: "emits (mid_event ps) (upload_pcap E L pp)"
  unfolding upload_pcap_def
  by (intro emits_intros emits_mono [OF emits_upload_file upload_event_mid]) (simp_all add: mid_event_def)

lemma emits_upload_image: "emits (mid_event ps) (upload_image E L n d)"
  unfolding upload_image_def
  by (intro emits_intros emits_mono [OF emits_upload_bytes upload_event_mid])

lemma emits_upload_artifacts: "emits (mid_event ps) (upload_artifacts E L pp n d)"
  unfolding upload_artifacts_def
  by (intro emits_intros emits_upload_pcap emits_upload_image) (simp add: mid_event_def)

lemma sweeps_cleanup: "sweeps {pp, kp, ed} (cleanup E pp kp ed)"
proof -
  have "sweeps ({pp} \<union> ({kp} \<union> {}) \<union> {ed}) (cleanup E pp kp ed)"
    unfolding cleanup_def forp.simps by (intro sweeps_seqp sweeps_remove sweeps_ret) simp_all
  then show ?thesis by (simp add: insert_commute)
qed

text \<open>What a finished build leaves.\<close>

definition tidy :: "string \<Rightarrow> hist \<Rightarrow> bool" where
  "tidy uri es \<longleftrightarrow> (if uri = ''error://pcap_fail'' then \<not> list_ex (\<lambda>e. removal (fst e)) es
     else \<forall>p. \<not> left_over p es)"

lemma upload_pcap_not_fail: "wp (upload_pcap E L pp) (\<lambda>r s'. r \<noteq> Inr ''error://pcap_fail'') s"
proof -
  have "wp (upload_file E L b pp None) (\<lambda>r s'. \<exists>u. r = Inr u \<and> u \<in> {[], s3_uri b (basename pp)}) s" for s b
    by (simp add: upload_file_def ensure_bucket_def path_exists_def wp_simps Let_def split: sum.split)
  then show ?thesis
    unfolding upload_pcap_def path_exists_def
    by (auto simp: wp_simps Let_def s3_uri_def split: sum.split intro: wp_mono)
qed

lemma upload_artifacts_not_fail:
  "wp (upload_artifacts E L pp n d) (\<lambda>r s'. \<forall>u i. r = Inr (u, i) \<longrightarrow> u \<noteq> ''error://pcap_fail'') s"
  unfolding upload_artifacts_def
  by (auto simp: wp_simps Let_def split: sum.split intro!: wp_mono [OF upload_pcap_not_fail])
    (auto simp: wp_def split: sum.splits)

lemma wp_sweep_end:
  assumes "emits (mid_event ps) m" and "sweeps ps c"
    and "wp m (\<lambda>r s'. \<forall>u i. r = Inr (u, i) \<longrightarrow> u \<noteq> ''error://pcap_fail'') s"
    and "trace s = h @ es0" and "list_all (mid_event ps) es0"
  shows "wp (bindp (finallyp m c) (\<lambda>(u, i). ret (u, i, d)))
     (\<lambda>r s'. \<exists>es. trace s' = h @ es \<and> (\<forall>u x. r = Inr (u, x) \<longrightarrow> tidy u es)) s"
proof -
  obtain r s1 where m: "m s = (r, s1)" by fastforce
  obtain es1 where es1: "trace s1 = trace s @ es1" "list_all (mid_event ps) es1"
    using emitsD [OF assms(1) m] by blast
  obtain x s2 where c: "c s1 = (x, s2)" by fastforce
  with assms(2) obtain es2 where es2: "x = Inr ()" "trace s2 = trace s1 @ es2" "swept ps es2"
    unfolding sweeps_def wp_def by (metis fst_conv snd_conv)
  have "\<not> left_over p (es0 @ es1 @ es2)" for p
    using left_over_swept [OF es2(3), of "es0 @ es1"] assms(5) es1(2) by simp
  moreover have "r = Inr (u, i) \<Longrightarrow> u \<noteq> ''error://pcap_fail''" for u i
    using assms(3) m by (simp add: wp_def)
  ultimately show ?thesis
    using m c es1 es2 assms(4)
    by (auto simp: wp_def bindp_def finallyp_def ret_def tidy_def split: sum.split)
qed

lemma wp_build_at:
  assumes "trace s = h @ es0" and "list_all (mid_event {base @ ''.pcap'', base @ ''.keys'', base @ ''_ext''}) es0"
  shows "wp (build_at E L sid raw keys pkts base obj)
    (\<lambda>r s'. \<exists>es. trace s' = h @ es \<and> (\<forall>u x. r = Inr (u, x) \<longrightarrow> tidy u es)) s"
proof -
  let ?ps = "{base @ ''.pcap'', base @ ''.keys'', base @ ''_ext''}"
  let ?Q = "\<lambda>r s'. \<exists>es. trace s' = h @ es \<and> (\<forall>u x. r = Inr (u, x) \<longrightarrow> tidy u es)"
  have pcap: "emits (mid_event ?ps) (catchp (seqp (write_pcap E sid (base @ ''.pcap'') raw pkts) (ret True)) (\<lambda>_. ret False))"
    by (intro emits_intros emits_write_pcap) simp
  show ?thesis
    unfolding build_at_def Let_def
  proof (rule wp_bind_emits [OF pcap assms])
    fix ok s1 es1
    assume 1: "trace s1 = h @ es1" "list_all (mid_event ?ps) es1"
    show "wp (if \<not> ok then ret (''error://pcap_fail'', [], [])
      else bindp (write_keys E (base @ ''.keys'') keys) (\<lambda>hk.
        bindp (carve E (base @ ''.pcap'') (base @ ''.keys'') (base @ ''_ext'') hk raw) (\<lambda>img.
        bindp (finallyp (upload_artifacts E L (base @ ''.pcap'') obj img)
          (cleanup E (base @ ''.pcap'') (base @ ''.keys'') (base @ ''_ext''))) (\<lambda>(u, i). ret (u, i, img))))) ?Q s1"
    proof (cases ok)
      case False
      with 1 mid_no_removal [OF 1(2)] show ?thesis by (auto simp: wp_simps tidy_def)
    next
      case True
      have "wp (bindp (write_keys E (base @ ''.keys'') keys) (\<lambda>hk.
        bindp (carve E (base @ ''.pcap'') (base @ ''.keys'') (base @ ''_ext'') hk raw) (\<lambda>img.
        bindp (finallyp (upload_artifacts E L (base @ ''.pcap'') obj img)
          (cleanup E (base @ ''.pcap'') (base @ ''.keys'') (base @ ''_ext''))) (\<lambda>(u, i). ret (u, i, img))))) ?Q s1"
      proof (rule wp_bind_emits [OF emits_write_keys 1])
        fix hk s2 es2
        assume 2: "trace s2 = h @ es2" "list_all (mid_event ?ps) es2"
        show "wp (bindp (carve E (base @ ''.pcap'') (base @ ''.keys'') (base @ ''_ext'') hk raw) (\<lambda>img.
          bindp (finallyp (upload_artifacts E L (base @ ''.pcap'') obj img)
            (cleanup E (base @ ''.pcap'') (base @ ''.keys'') (base @ ''_ext''))) (\<lambda>(u, i). ret (u, i, img)))) ?Q s2"
        proof (rule wp_bind_emits [OF emits_carve 2])
          fix img s3 es3
          assume 3: "trace s3 = h @ es3" "list_all (mid_event ?ps) es3"
          show "wp (bindp (finallyp (upload_artifacts E L (base @ ''.pcap'') obj img)
            (cleanup E (base @ ''.pcap'') (base @ ''.keys'') (base @ ''_ext''))) (\<lambda>(u, i). ret (u, i, img))) ?Q s3"
            by (rule wp_sweep_end [OF emits_upload_artifacts sweeps_cleanup upload_artifacts_not_fail 3])
        qed auto
      qed auto
      with True show ?thesis by simp
    qed
  qed auto
qed

lemma wp_sync_build:
  "wp (sync_build E L sid raw keys is_list pkts)
    (\<lambda>r s'. \<exists>es. trace s' = trace s @ es \<and> (\<forall>u x. r = Inr (u, x) \<longrightarrow> tidy u es)) s"
  unfolding sync_build_def int_time_def Let_def
  by (auto simp: wp_simps Let_def mid_event_def intro!: wp_build_at [simplified] split: sum.split)

section \<open>Properties\<close>

text \<open>
The mock capture carries the payload. The packets synthesised for a stream without IP packets
contain, in order, exactly the stream's bytes; every packet with data has at most 1300 bytes and
the TCP sequence number 1001 plus the number of payload bytes before it; and the closing FIN has
1001 plus the stream's length.
\<close>

theorem mock_capture_carries_payload:
  assumes "i < length (mock_packets raw)" and "payload (mock_packets raw ! i) \<noteq> []"
  shows "concat (map payload (mock_packets raw)) = raw
    \<and> length (payload (mock_packets raw ! i)) \<le> 1300
    \<and> seqno (mock_packets raw ! i) = 1001 + int (length (concat (map payload (take i (mock_packets raw)))))
    \<and> seqno (last (mock_packets raw)) = 1001 + int (length raw)"
proof -
  obtain ps n where d: "mock_data raw (py_range 0 (int (length raw)) chunk_size) 1001 = (ps, n)" by fastforce
  note p = mock_data_payload [OF d]
  have all: "concat (map payload ps) = raw" using p chunks_concat by simp
  let ?m = "mock_packets raw"
  have m: "?m = [\<lparr>from_client = True, flags = ''S'', seqno = 1000, ackno = 0, payload = []\<rparr>,
          \<lparr>from_client = False, flags = ''SA'', seqno = 2000, ackno = 1001, payload = []\<rparr>,
          \<lparr>from_client = True, flags = ''A'', seqno = 1001, ackno = 2001, payload = []\<rparr>] @ ps
        @ [\<lparr>from_client = True, flags = ''FA'', seqno = n, ackno = 2001, payload = []\<rparr>]"
    by (simp add: mock_packets_def d)
  have range: "3 \<le> i \<and> i - 3 < length ps"
    using assms by (auto simp: m nth_append nth_Cons split: if_splits nat.splits)
  then obtain j where j: "i = j + 3" "j < length ps" by (metis add.commute le_Suc_ex add_diff_cancel_right')
  have at: "?m ! i = ps ! j" "map payload (take i ?m) = [[], [], []] @ map payload (take j ps)"
    using j by (simp_all add: m nth_append numeral_3_eq_3)
  have "payload (ps ! j) = map payload ps ! j" using j by simp
  also have "\<dots> \<in> set (map payload ps)" using j by (metis length_map nth_mem)
  finally have "length (payload (ps ! j)) \<le> 1300" using p chunk_length by auto
  then show ?thesis using p all at j by (simp add: m)
qed

theorem mock_capture_carries_payload_witness:
  "concat (map payload (mock_packets [1, 2, 3])) = [1, 2, 3 :: byte]
    \<and> seqno (last (mock_packets [1, 2, 3])) = 1004"
proof -
  have "mock_packets [1, 2, 3 :: byte] ! 3 = \<lparr>from_client = True, flags = ''PA'', seqno = 1001, ackno = 2001, payload = [1, 2, 3]\<rparr>"
    "length (mock_packets [1, 2, 3 :: byte]) = 5"
    by (simp_all add: mock_packets_def py_range_def chunk_size_def slice_def slice_index_def)
  then show ?thesis
    using mock_capture_carries_payload [of 3 "[1, 2, 3]"] by simp
qed

text \<open>
The fallback carver. What it cuts out of a stream is a contiguous part of it that begins with
the JPEG start marker and ends with the end marker; it cuts nothing exactly when there is no start
marker before the last end marker.
\<close>

theorem jpeg_carve_correct:
  "jpeg_carve raw = [] \<and> (py_find raw [0xFF, 0xD8, 0xFF] = -1
        \<or> py_rfind raw [0xFF, 0xD9] \<le> py_find raw [0xFF, 0xD8, 0xFF])
   \<or> (\<exists>a b. raw = a @ jpeg_carve raw @ b) \<and> startswith (jpeg_carve raw) [0xFF, 0xD8, 0xFF]
      \<and> endswith (jpeg_carve raw) [0xFF, 0xD9]"
  using jpeg_carve_cases [of raw] by (auto simp: not_less)

text \<open>
A build leaves no temporary file behind: when \<open>sync_build\<close> returns, every path it created (the
capture, the key file, the export directory) was afterwards removed, or its removal was tried, or it
was reported absent. The exception is a build that could not write its capture: it returns
\<^verbatim>\<open>error://pcap_fail\<close> and has tried to remove nothing.
\<close>

lemma build_leaves_no_files:
  assumes "fst (sync_build E L sid raw keys is_list pkts w) = Inr (uri, image_uri, img)"
  shows "if uri = ''error://pcap_fail''
    then \<not> list_ex (\<lambda>e. removal (fst e)) (new_events (sync_build E L sid raw keys is_list pkts) w)
    else \<not> left_over path (new_events (sync_build E L sid raw keys is_list pkts) w)"
  using wp_sync_build [of E L sid raw keys is_list pkts w] assms
  by (auto simp: wp_def new_events_def tidy_def split: if_splits)

definition build_env :: env where
  "build_env h c = (case c of
      UuidHex \<Rightarrow> Inr (PStr ''0123456789'') | Clock \<Rightarrow> Inr (PInt 7)
    | Fs (FsExists _) \<Rightarrow> Inr (PBool True) | Fs (FsListDir _) \<Rightarrow> Inr (PList []) | _ \<Rightarrow> Inr PNone)"

lemma build_leaves_no_files_witness:
  "\<exists>uri. fst (sync_build build_env ref_lib ''s'' [1] ''k'' True [[1]] \<lparr>trace = []\<rparr>) = Inr (uri, [], [])
    \<and> \<not> left_over (base_path ''s'' 7 ''01234567'' @ ''.keys'')
       (new_events (sync_build build_env ref_lib ''s'' [1] ''k'' True [[1]]) \<lparr>trace = []\<rparr>)"
proof -
  have "\<exists>u. fst (sync_build build_env ref_lib ''s'' [1] ''k'' True [[1]] \<lparr>trace = []\<rparr>) = Inr (u, [], [])
     \<and> u \<noteq> ''error://pcap_fail''"
    by (simp add: run_defs sync_build_def build_at_def int_time_def base_path_def safe_id_def
        write_pcap_def mock_packets_def mock_data.simps py_range_def chunk_size_def slice_def slice_index_def
        build_pkt_def mock_flow_def default_flow_def write_keys_def carve_def exported_file_def
        jpeg_carve_def py_find_def upload_artifacts_def upload_pcap_def upload_image_def
        upload_file_def ensure_bucket_def cleanup_def remove_if_there_def build_env_def strip_id is_space_def
        replace_str.simps print_defs s3_uri_def output_dir_def encode_def)
  then show ?thesis
    using build_leaves_no_files [of build_env ref_lib "''s''" "[1]" "''k''" True "[[1]]" "\<lparr>trace = []\<rparr>"]
    by fastforce
qed

end
