(* ===== verification/RoutingWriters.thy ===== *)
theory RoutingWriters
  imports Effects
begin

text \<open>
  What the routing system writes and where it asks for an analysis: routing-system/pg_writer.py,
  routing-system/queue_writer.py and routing-system/dispatcher.py. SQL texts are the source's with
  runs of white space as one blank.
\<close>

section \<open>routing-system/pg\_writer.py\<close>

text \<open>
  \<^verbatim>\<open>init_pool\<close> tries until PostgreSQL accepts; the fuel counts the attempts, and the result is
  whether the pool is there.
\<close>

primrec init_pool :: "env \<Rightarrow> nat \<Rightarrow> ('z world_scheme, bool) prog" where
  "init_pool E 0 = ret False"
| "init_pool E (Suc attempts) =
     bindp (catchp (seqp (do_call E (Pg PgConnect)) (ret True))
                   (\<lambda>_. seqp (do_call E (Sleep 3)) (ret False))) (\<lambda>connected.
     if connected then ret True else init_pool E attempts)"

definition sql_upsert_endpoint :: string where
  "sql_upsert_endpoint =
     ''INSERT INTO endpoint_registry (endpoint_id, ip_address, first_seen, last_seen, total_chunks, total_bytes) VALUES ($1, $2, NOW(), NOW(), 1, $3) ON CONFLICT (endpoint_id) DO UPDATE SET last_seen = NOW(), ip_address = EXCLUDED.ip_address, total_chunks = endpoint_registry.total_chunks + 1, total_bytes = endpoint_registry.total_bytes + EXCLUDED.total_bytes''"

definition upsert_endpoint :: "env \<Rightarrow> bool \<Rightarrow> string \<Rightarrow> string \<Rightarrow> int \<Rightarrow> ('z world_scheme, unit) prog" where
  "upsert_endpoint E pool endpoint_id ip_address bytes_delta =
     (if \<not> pool then ret ()
      else
        catchp (do_call E (Pg (PgExecute sql_upsert_endpoint
                 [PStr endpoint_id, PStr ip_address, PInt bytes_delta])))
          (\<lambda>_. ret ()))"

definition sql_hash_cache :: string where
  "sql_hash_cache =
     ''INSERT INTO hash_cache (sha256, verdict, steg_score, model_type, analyzed_at, hit_count) VALUES ($1, $2, $3, $4, NOW(), 0) ON CONFLICT (sha256) DO UPDATE SET hit_count = hash_cache.hit_count + 1, verdict = EXCLUDED.verdict, steg_score = EXCLUDED.steg_score, analyzed_at = NOW()''"

definition store_hash_cache :: "env \<Rightarrow> bool \<Rightarrow> string \<Rightarrow> string \<Rightarrow> pyfloat \<Rightarrow> string
    \<Rightarrow> ('z world_scheme, unit) prog" where
  "store_hash_cache E pool sha256 verdict steg_score model_type =
     (if \<not> pool then ret ()
      else
        catchp (do_call E (Pg (PgExecute sql_hash_cache
                 [PStr sha256, PStr verdict, PFloat steg_score, PStr model_type])))
          (\<lambda>_. ret ()))"

section \<open>routing-system/queue\_writer.py\<close>

text \<open>The arguments of \<^verbatim>\<open>write_event\<close>; \<open>plain_event\<close> has its default values.\<close>

record stream_event =
  ev_stream_id :: string
  ev_endpoint_id :: string
  ev_sha256 :: string
  ev_verdict :: string
  ev_steg_score :: pyfloat
  ev_src_ip :: string
  ev_dst_ip :: string
  ev_bytes_total :: int
  ev_latency_ms :: int
  ev_model_type :: string
  ev_pcap_uri :: string
  ev_image_uri :: string

definition plain_event :: "string \<Rightarrow> string \<Rightarrow> string \<Rightarrow> string \<Rightarrow> pyfloat \<Rightarrow> stream_event" where
  "plain_event stream_id endpoint_id sha256 verdict steg_score =
     \<lparr>ev_stream_id = stream_id, ev_endpoint_id = endpoint_id, ev_sha256 = sha256,
      ev_verdict = verdict, ev_steg_score = steg_score, ev_src_ip = [], ev_dst_ip = [],
      ev_bytes_total = 0, ev_latency_ms = 0, ev_model_type = ''srnet'',
      ev_pcap_uri = [], ev_image_uri = []\<rparr>"

definition event_entry :: "pylib \<Rightarrow> stream_event \<Rightarrow> int \<Rightarrow> (string \<times> string) list" where
  "event_entry L ev now =
     [(''stream_id'', ev_stream_id ev), (''endpoint_id'', ev_endpoint_id ev),
      (''sha256'', ev_sha256 ev), (''verdict'', ev_verdict ev),
      (''steg_score'', float_str L (ev_steg_score ev)),
      (''src_ip'', ev_src_ip ev), (''dst_ip'', ev_dst_ip ev),
      (''bytes_total'', int_str (ev_bytes_total ev)), (''latency_ms'', int_str (ev_latency_ms ev)),
      (''model_type'', ev_model_type ev), (''pcap_uri'', ev_pcap_uri ev),
      (''image_uri'', ev_image_uri ev), (''ts_epoch_ms'', int_str now)]"

definition queue_max_len :: int where
  "queue_max_len = 10000"

definition write_event :: "env \<Rightarrow> pylib \<Rightarrow> string \<Rightarrow> stream_event \<Rightarrow> ('z world_scheme, pyval) prog" where
  "write_event E L stream_name ev =
     bindp (now_ms E) (\<lambda>now.
     call E (Redis (XAdd stream_name (event_entry L ev now) queue_max_len)))"

section \<open>routing-system/dispatcher.py\<close>

record analysis =
  an_stream_id :: string
  an_verdict :: string
  an_confidence :: pyfloat
  an_raw_score :: pyfloat
  an_latency_ms :: int
  an_model_type :: string
  an_error :: string

text \<open>The fields of an \<^verbatim>\<open>AnalysisResult\<close> as the generated class delivers them; an unset one has its zero.\<close>

definition as_analysis :: "pyval \<Rightarrow> exn + analysis" where
  "as_analysis v =
     (case v of
        PDict d \<Rightarrow>
          (case (dict_get d ''stream_id'' (PStr []), dict_get d ''verdict'' (PStr []),
                 as_float (dict_get d ''confidence'' (PFloat 0)), as_float (dict_get d ''raw_score'' (PFloat 0)),
                 dict_get d ''latency_ms'' (PInt 0),
                 dict_get d ''model_type'' (PStr []), dict_get d ''error'' (PStr [])) of
             (PStr s, PStr vd, Inr c, Inr x, PInt l, PStr m, PStr e) \<Rightarrow>
               Inr \<lparr>an_stream_id = s, an_verdict = vd, an_confidence = c, an_raw_score = x, an_latency_ms = l,
                    an_model_type = m, an_error = e\<rparr>
           | _ \<Rightarrow> Inl type_error)
      | _ \<Rightarrow> Inl type_error)"

definition analyze :: "env \<Rightarrow> string \<Rightarrow> bytes \<Rightarrow> string \<Rightarrow> string \<Rightarrow> string \<Rightarrow> string
    \<Rightarrow> ('z world_scheme, analysis) prog" where
  "analyze E stream_id image_bytes sha256 endpoint_id src dst =
     catchif (\<lambda>c. c = RpcErr)
       (call_as as_analysis E (Grpc (GrpcAnalyze stream_id image_bytes sha256 endpoint_id src dst)))
       (\<lambda>e. ret \<lparr>an_stream_id = stream_id, an_verdict = ''ERROR'', an_confidence = 0, an_raw_score = 0,
                  an_latency_ms = 0, an_model_type = [], an_error = exn_str e\<rparr>)"

section \<open>Lemmas\<close>

lemma no_raise_upsert_endpoint [no_raise_intros]: "no_raise (upsert_endpoint E p a b c)"
  unfolding upsert_endpoint_def by (intro no_raise_intros)

lemma no_raise_store_hash_cache [no_raise_intros]: "no_raise (store_hash_cache E p a b c d)"
  unfolding store_hash_cache_def by (intro no_raise_intros)

lemma wp_upsert_endpoint [wp_simps]:
  "wp (upsert_endpoint E pool ep ip n) Q w =
     (if pool then
        (let c = Pg (PgExecute sql_upsert_endpoint [PStr ep, PStr ip, PInt n])
         in Q (Inr ()) (w\<lparr>trace := trace w @ [(c, E (trace w) c)]\<rparr>))
      else Q (Inr ()) w)"
  by (simp add: upsert_endpoint_def wp_simps Let_def split: sum.split)

lemma wp_store_hash_cache [wp_simps]:
  "wp (store_hash_cache E pool s v x m) Q w =
     (if pool then
        (let c = Pg (PgExecute sql_hash_cache [PStr s, PStr v, PFloat x, PStr m])
         in Q (Inr ()) (w\<lparr>trace := trace w @ [(c, E (trace w) c)]\<rparr>))
      else Q (Inr ()) w)"
  by (simp add: store_hash_cache_def wp_simps Let_def split: sum.split)

text \<open>\<^verbatim>\<open>init_pool\<close> returns once PostgreSQL accepts within the attempts.\<close>

lemma init_pool_sleeps_fail:
  "fst (init_pool E n w) = Inr b \<Longrightarrow>
     b \<longleftrightarrow> (\<exists>v. (Pg PgConnect, Inr v) \<in> set (drop (length (trace w)) (trace (snd (init_pool E n w)))))"
proof (induction n arbitrary: w)
  case 0
  then show ?case by (simp add: ret_def)
next
  case (Suc n)
  let ?r = "E (trace w) (Pg PgConnect)"
  let ?w1 = "w\<lparr>trace := trace w @ [(Pg PgConnect, ?r)]\<rparr>"
  let ?s = "E (trace ?w1) (Sleep 3)"
  let ?w2 = "?w1\<lparr>trace := trace ?w1 @ [(Sleep 3, ?s)]\<rparr>"
  show ?case
  proof (cases ?r)
    case (Inr v)
    with Suc.prems show ?thesis
      by (auto simp: bindp_def seqp_def catchp_def do_call_def call_def ret_def Let_def)
  next
    case (Inl e)
    have "emits (\<lambda>_. True) (init_pool E n)"
      by (induction n) (auto intro!: emits_intros simp del: emits_def)
    then obtain es where es: "trace (snd (init_pool E n ?w2)) = trace ?w2 @ es"
      unfolding emits_def by blast
    show ?thesis
    proof (cases ?s)
      case (Inl e')
      with Suc.prems \<open>?r = Inl e\<close> show ?thesis
        by (simp add: bindp_def seqp_def catchp_def do_call_def call_def ret_def Let_def)
    next
      case (Inr u)
      then have "init_pool E (Suc n) w = init_pool E n ?w2"
        using \<open>?r = Inl e\<close>
        by (simp add: bindp_def seqp_def catchp_def do_call_def call_def ret_def Let_def)
      with Suc.IH [of ?w2] Suc.prems es \<open>?r = Inl e\<close> show ?thesis by auto
    qed
  qed
qed

end
