(* ===== verification/Servicer.thy ===== *)
theory Servicer
  imports Images Tables Messages RateLimiter HashCache KeyStore PcapBuilder RoutingWriters
begin

text \<open>
  routing-system/servicer.py: the orchestration engine. The router's own state (the open streams,
  the key store, the scan counter and its limit) extends the world; each coroutine is a program.
  What other coroutines do to the scan counter and to the limit while one sleeps or waits for an
  analysis is a parameter \<open>others\<close>.
\<close>

section \<open>State\<close>

record stream =
  st_chunks :: "bytes list"
  st_metadata :: payload_chunk
  st_endpoint_id :: string
  st_last_seen :: pyfloat

record router = world +
  streams :: "(string \<times> stream) list"
  key_store :: key_table
  active_scans :: int
  max_scans :: int

text \<open>
  The settings of the process: \<^verbatim>\<open>RATE_LIMIT_RPS\<close>, \<^verbatim>\<open>CACHE_TTL_SEC\<close>, \<^verbatim>\<open>REDIS_STREAM\<close>, whether the
  PostgreSQL pool is there, and the order in which Python visits a set.
\<close>

record router_cfg =
  rate_limit :: int
  cache_ttl :: int
  stream_name :: string
  pool_ready :: bool
  set_iter :: "string list \<Rightarrow> string list"

definition init_router :: "hist \<Rightarrow> router" where
  "init_router h = \<lparr>trace = h, streams = [], key_store = [], active_scans = 0, max_scans = 10\<rparr>"

text \<open>
  What other coroutines do to the counter and the limit while this one awaits, depending on the
  history.
\<close>

type_synonym interference = "hist \<Rightarrow> int \<Rightarrow> int \<Rightarrow> int \<times> int"

definition interfere :: "interference \<Rightarrow> (router, unit) prog" where
  "interfere others =
     modifyp (\<lambda>w. case others (trace w) (active_scans w) (max_scans w) of
                (a, m) \<Rightarrow> w\<lparr>active_scans := a, max_scans := m\<rparr>)"

section \<open>\_settings\_sync\<close>

text \<open>One pass of the loop, up to its sleep.\<close>

definition settings_sync_pass :: "env \<Rightarrow> (router, unit) prog" where
  "settings_sync_pass E =
     seqp (catchp
            (bindp (call E (Redis (HGet ''stegnar:settings'' ''maxConcurrentScans''))) (\<lambda>val.
             if truthy val then
               bindp (lift_sum (as_str val)) (\<lambda>s.
               bindp (lift_sum (py_int s)) (\<lambda>n.
               modifyp (\<lambda>w. w\<lparr>max_scans := n\<rparr>)))
             else ret ()))
            (\<lambda>_. ret ()))
          (do_call E (Sleep 10))"

section \<open>\_process\_stream\<close>

text \<open>
  The wait for a free slot: the fuel bounds the number of sleeps followed; the result says whether
  the slot was free.
\<close>

primrec wait_slot :: "env \<Rightarrow> interference \<Rightarrow> nat \<Rightarrow> (router, bool) prog" where
  "wait_slot E others 0 = getp (\<lambda>w. \<not> active_scans w \<ge> max_scans w)"
| "wait_slot E others (Suc n) =
     bindp (getp (\<lambda>w. active_scans w \<ge> max_scans w)) (\<lambda>busy.
     if busy then
       seqp (do_call E (Sleep (1/2)))
      (seqp (interfere others)
            (wait_slot E others n))
     else ret True)"

text \<open>The scan itself, with the counter around it.\<close>

definition scan :: "env \<Rightarrow> interference \<Rightarrow> string \<Rightarrow> bytes \<Rightarrow> string \<Rightarrow> string \<Rightarrow> payload_chunk
    \<Rightarrow> (router, analysis) prog" where
  "scan E others stream_id image_bytes sha endpoint_id chunk =
     seqp (modifyp (\<lambda>w. w\<lparr>active_scans := active_scans w + 1\<rparr>))
          (finallyp
             (finallyp (analyze E stream_id image_bytes sha endpoint_id (ck_src_ip chunk) (ck_dst_ip chunk))
                       (interfere others))
             (modifyp (\<lambda>w. w\<lparr>active_scans := active_scans w - 1\<rparr>)))"

definition image_to_analyze :: "bytes \<Rightarrow> bytes \<Rightarrow> bytes" where
  "image_to_analyze raw_bytes carved_image =
     (if sniff_image raw_bytes then raw_bytes
      else if carved_image \<noteq> [] then carved_image else [])"

text \<open>The fields every event of a stream has.\<close>

definition base_event :: "string \<Rightarrow> string \<Rightarrow> string \<Rightarrow> string \<Rightarrow> pyfloat \<Rightarrow> payload_chunk \<Rightarrow> nat
    \<Rightarrow> string \<Rightarrow> string \<Rightarrow> stream_event" where
  "base_event stream_id endpoint_id sha verdict score chunk n pcap_uri image_uri =
     (plain_event stream_id endpoint_id sha verdict score)
       \<lparr>ev_src_ip := ck_src_ip chunk, ev_dst_ip := ck_dst_ip chunk, ev_bytes_total := int n,
        ev_pcap_uri := pcap_uri, ev_image_uri := image_uri\<rparr>"

text \<open>The event of a finished analysis.\<close>

definition result_event :: "string \<Rightarrow> string \<Rightarrow> string \<Rightarrow> analysis \<Rightarrow> payload_chunk \<Rightarrow> nat \<Rightarrow> string \<Rightarrow> string \<Rightarrow> stream_event" where
  "result_event sid ep sha r chunk n pcap_uri image_uri =
     (base_event sid ep sha (an_verdict r) (an_confidence r) chunk n pcap_uri image_uri)
       \<lparr>ev_latency_ms := an_latency_ms r, ev_model_type := or_str (an_model_type r) ''srnet''\<rparr>"

text \<open>Storing a result, unless the analysis failed.\<close>

definition store_result :: "env \<Rightarrow> pylib \<Rightarrow> router_cfg \<Rightarrow> string \<Rightarrow> analysis \<Rightarrow> (router, unit) prog" where
  "store_result E L cfg sha result =
     whenp (an_verdict result \<notin> set [''ERROR''])
       (seqp (store E L (cache_ttl cfg) sha (an_verdict result) (an_confidence result))
             (store_hash_cache E (pool_ready cfg) sha (an_verdict result) (an_confidence result)
                (or_str (an_model_type result) ''srnet'')))"

text \<open>
  The dispatch of an image to the analyser. The answer is whether the coroutine got to its end
  within the fuel for the wait.
\<close>

definition dispatch_image :: "env \<Rightarrow> pylib \<Rightarrow> router_cfg \<Rightarrow> interference \<Rightarrow> nat \<Rightarrow> string \<Rightarrow> stream
    \<Rightarrow> string \<Rightarrow> string \<Rightarrow> bytes \<Rightarrow> (router, bool) prog" where
  "dispatch_image E L cfg others fuel stream_id data pcap_uri image_uri img =
     (let raw_bytes = concat (st_chunks data);
          chunk = st_metadata data;
          endpoint_id = st_endpoint_id data;
          full_sha256 = sha256_hex L raw_bytes
      in
      bindp (wait_slot E others fuel) (\<lambda>free.
      if \<not> free then ret False
      else
        bindp (scan E others stream_id img full_sha256 endpoint_id chunk) (\<lambda>result.
        seqp (store_result E L cfg full_sha256 result)
       (seqp (write_event E L (stream_name cfg)
               (result_event stream_id endpoint_id full_sha256 result chunk (length raw_bytes) pcap_uri image_uri))
       (ret True)))))"

text \<open>From the cache lookup on: a hit, no image, or an analysis.\<close>

definition judge_stream :: "env \<Rightarrow> pylib \<Rightarrow> router_cfg \<Rightarrow> interference \<Rightarrow> nat \<Rightarrow> string \<Rightarrow> stream
    \<Rightarrow> string \<Rightarrow> string \<Rightarrow> bytes \<Rightarrow> (router, bool) prog" where
  "judge_stream E L cfg others fuel stream_id data pcap_uri image_uri carved_image =
     (let raw_bytes = concat (st_chunks data);
          chunk = st_metadata data;
          endpoint_id = st_endpoint_id data;
          full_sha256 = sha256_hex L raw_bytes
      in
      bindp (lookup E L (cache_ttl cfg) full_sha256) (\<lambda>cached.
      case cached of
        Some (verdict, score) \<Rightarrow>
          seqp (store_hash_cache E (pool_ready cfg) full_sha256 verdict score ''srnet'')
         (seqp (write_event E L (stream_name cfg)
                 (base_event stream_id endpoint_id full_sha256 ''CACHE_HIT'' score chunk
                    (length raw_bytes) pcap_uri image_uri))
         (ret True))
      | None \<Rightarrow>
         (let img = image_to_analyze raw_bytes carved_image in
          if img = [] then
            seqp (write_event E L (stream_name cfg)
                   (base_event stream_id endpoint_id full_sha256 ''NO_IMAGE'' 0 chunk
                      (length raw_bytes) pcap_uri image_uri))
           (ret True)
          else dispatch_image E L cfg others fuel stream_id data pcap_uri image_uri img)))"

definition process_stream :: "env \<Rightarrow> pylib \<Rightarrow> router_cfg \<Rightarrow> interference \<Rightarrow> nat \<Rightarrow> string \<Rightarrow> stream
    \<Rightarrow> (router, bool) prog" where
  "process_stream E L cfg others fuel stream_id data =
     (let raw_bytes = concat (st_chunks data);
          chunk = st_metadata data;
          endpoint_id = st_endpoint_id data
      in
      seqp (upsert_endpoint E (pool_ready cfg) endpoint_id
              (or_str (ck_src_ip chunk) (or_str (ck_dst_ip chunk) [])) (int (length raw_bytes)))
     (bindp (getp (\<lambda>w. get_keys (set_iter cfg) (key_store w) endpoint_id)) (\<lambda>(all_keys, keys').
      seqp (modifyp (\<lambda>w. w\<lparr>key_store := keys'\<rparr>))
     (bindp (sync_build E L stream_id raw_bytes all_keys True (st_chunks data))
        (\<lambda>(pcap_uri, image_uri, carved_image).
      judge_stream E L cfg others fuel stream_id data pcap_uri image_uri carved_image)))))"

section \<open>\_reaper\<close>

text \<open>A coroutine that logs the exceptions of \<open>process_stream\<close>.\<close>

definition process_logged :: "env \<Rightarrow> pylib \<Rightarrow> router_cfg \<Rightarrow> interference \<Rightarrow> nat \<Rightarrow> string \<times> stream
    \<Rightarrow> (router, unit) prog" where
  "process_logged E L cfg others fuel sd =
     catchp (bindp (process_stream E L cfg others fuel (fst sd) (snd sd)) (\<lambda>_. ret ())) (\<lambda>_. ret ())"

fun reap :: "pyfloat \<Rightarrow> (string \<times> stream) list \<Rightarrow> (string \<times> stream) list
    \<Rightarrow> (string \<times> stream) list \<times> (string \<times> stream) list" where
  "reap now [] tbl = ([], tbl)"
| "reap now ((stream_id, data) # items) tbl =
     (let age = now - st_last_seen data in
      if age > 5 then
        (let (to_process, tbl') = reap now items (AList.delete stream_id tbl)
         in ((stream_id, data) # to_process, tbl'))
      else reap now items tbl)"

definition reaper_pass :: "env \<Rightarrow> pylib \<Rightarrow> router_cfg \<Rightarrow> interference \<Rightarrow> nat \<Rightarrow> (router, unit) prog" where
  "reaper_pass E L cfg others fuel =
     seqp (do_call E (Sleep 5))
    (bindp (call_as as_float E Clock) (\<lambda>now.
     bindp (getp (\<lambda>w. reap now (streams w) (streams w))) (\<lambda>(to_process, tbl).
     seqp (modifyp (\<lambda>w. w\<lparr>streams := tbl\<rparr>))
          (forp to_process (process_logged E L cfg others fuel)))))"

section \<open>StreamPayload\<close>

text \<open>
  A chunk of the request: it is dropped over the limit, and otherwise appended to its stream. The
  answer is whether its stream was touched.
\<close>

definition append_chunk :: "payload_chunk \<Rightarrow> pyfloat \<Rightarrow> pyfloat \<Rightarrow> (string \<times> stream) list
    \<Rightarrow> (string \<times> stream) list" where
  "append_chunk chunk now now' tbl =
     (let sid = ck_stream_id chunk;
          s = (case map_of tbl sid of
                 None \<Rightarrow> \<lparr>st_chunks = [], st_metadata = chunk, st_endpoint_id = ck_endpoint_id chunk,
                          st_last_seen = now\<rparr>
               | Some s \<Rightarrow> s)
      in AList.update sid (s\<lparr>st_chunks := st_chunks s @ [ck_raw_bytes chunk], st_last_seen := now'\<rparr>) tbl)"

definition accept_chunk :: "env \<Rightarrow> payload_chunk \<Rightarrow> (router, bool) prog" where
  "accept_chunk E chunk =
     seqp (whenp (ck_ssl_keylog chunk \<noteq> [])
            (modifyp (\<lambda>w. w\<lparr>key_store := add_keys (key_store w) (ck_endpoint_id chunk) (ck_ssl_keylog chunk)\<rparr>)))
    (bindp (getp (\<lambda>w. map_of (streams w) (ck_stream_id chunk))) (\<lambda>known.
     bindp (if known = None then call_as as_float E Clock else ret 0) (\<lambda>now.
     bindp (call_as as_float E Clock) (\<lambda>now'.
     seqp (modifyp (\<lambda>w. w\<lparr>streams := append_chunk chunk now now' (streams w)\<rparr>))
          (ret True)))))"

definition receive_chunk :: "env \<Rightarrow> router_cfg \<Rightarrow> payload_chunk \<Rightarrow> (router, bool) prog" where
  "receive_chunk E cfg chunk =
     bindp (is_allowed E (rate_limit cfg) (ck_endpoint_id chunk)) (\<lambda>allowed.
     if \<not> allowed then ret False else accept_chunk E chunk)"

definition touched_streams :: "payload_chunk list \<Rightarrow> bool list \<Rightarrow> string list" where
  "touched_streams chunks taken = remdups (map (ck_stream_id \<circ> fst) (filter snd (zip chunks taken)))"

definition finish_stream :: "env \<Rightarrow> pylib \<Rightarrow> router_cfg \<Rightarrow> interference \<Rightarrow> nat \<Rightarrow> string
    \<Rightarrow> (router, unit) prog" where
  "finish_stream E L cfg others fuel stream_id =
     bindp (getp (\<lambda>w. map_of (streams w) stream_id)) (\<lambda>s.
     case s of
       None \<Rightarrow> ret ()
     | Some data \<Rightarrow>
         seqp (modifyp (\<lambda>w. w\<lparr>streams := AList.delete stream_id (streams w)\<rparr>))
              (process_logged E L cfg others fuel (stream_id, data)))"

definition stream_payload :: "env \<Rightarrow> pylib \<Rightarrow> router_cfg \<Rightarrow> interference \<Rightarrow> nat \<Rightarrow> payload_chunk list
    \<Rightarrow> (router, stream_ack) prog" where
  "stream_payload E L cfg others fuel chunks =
     bindp (mapp (receive_chunk E cfg) chunks) (\<lambda>taken.
     seqp (forp (set_iter cfg (touched_streams chunks taken)) (finish_stream E L cfg others fuel))
     (ret \<lparr>ack_ok = True, ack_chunks_recv = length chunks,
           ack_message = ''processed '' @ int_str (int (length chunks)) @ '' chunks''\<rparr>))"

section \<open>Lemmas\<close>

subsection \<open>The stream table\<close>

definition idle :: "pyfloat \<Rightarrow> string \<times> stream \<Rightarrow> bool" where
  "idle now e \<longleftrightarrow> now - st_last_seen (snd e) > 5"

lemma reap_spec:
  "reap now items tbl = (filter (idle now) items, foldl (\<lambda>m k. AList.delete k m) tbl (map fst (filter (idle now) items)))"
  by (induction now items tbl rule: reap.induct) (auto simp: idle_def Let_def)

lemma foldl_delete_filter:
  "foldl (\<lambda>m k. AList.delete k m) d ks = filter (\<lambda>e. fst e \<notin> set ks) d"
proof (induction ks arbitrary: d)
  case Nil
  then show ?case by simp
next
  case (Cons k ks)
  then show ?case by (simp add: AList.delete_eq case_prod_unfold) (rule filter_cong, auto)
qed

lemma dict_filter_keys:
  assumes "dict_ok d" and "e \<in> set d"
  shows "fst e \<in> set (map fst (filter P d)) \<longleftrightarrow> P e"
  using assms unfolding dict_ok_def by (auto simp: distinct_map inj_on_def)

text \<open>The entry a chunk makes or extends.\<close>

fun stream_entry :: "stream option \<Rightarrow> payload_chunk \<times> pyfloat \<times> pyfloat \<Rightarrow> stream" where
  "stream_entry old (chunk, now, now') =
     (let s = (case old of None \<Rightarrow> \<lparr>st_chunks = [], st_metadata = chunk,
                 st_endpoint_id = ck_endpoint_id chunk, st_last_seen = now\<rparr> | Some s \<Rightarrow> s)
      in s\<lparr>st_chunks := st_chunks s @ [ck_raw_bytes chunk], st_last_seen := now'\<rparr>)"

lemma append_chunk_push:
  "append_chunk c t t' tbl = alist.push (\<lambda>x. ck_stream_id (fst x)) stream_entry tbl (c, t, t')"
  by (simp add: append_chunk_def alist.push_def Let_def)

lemma okp_is_allowed: "okp (is_allowed E rate ep) (\<lambda>_ w'. \<exists>tr. w' = w\<lparr>trace := tr\<rparr>) w"
  unfolding is_allowed_def by (simp add: okp_simps) blast

lemma okp_accept_chunk:
  "okp (accept_chunk E c) (\<lambda>taken w'. taken \<and> (\<exists>t t'. streams w' = append_chunk c t t' (streams w))) w"
  by (auto simp: accept_chunk_def okp_simps)

lemma okp_receive_chunk:
  "okp (receive_chunk E cfg c) (\<lambda>taken w'. \<exists>t t'. streams w' = (if taken then append_chunk c t t' (streams w) else streams w)) w"
  unfolding receive_chunk_def okp_bindp
proof (rule okp_mono [OF okp_is_allowed])
  fix b and w' :: router
  assume "\<exists>tr. w' = w\<lparr>trace := tr\<rparr>"
  then have "streams w' = streams w" by auto
  then show "okp (if \<not> b then ret False else accept_chunk E c)
      (\<lambda>taken w'. \<exists>t t'. streams w' = (if taken then append_chunk c t t' (streams w) else streams w)) w'"
    using okp_mono [OF okp_accept_chunk [of E c w'], of "\<lambda>taken w'. \<exists>t t'. streams w' = (if taken then append_chunk c t t' (streams w) else streams w)"]
    by (cases b) (simp_all add: okp_ret)
qed

lemma stream_entries:
  "foldl (\<lambda>v x. Some (stream_entry v x)) v xs =
     (case xs of [] \<Rightarrow> v
      | x # _ \<Rightarrow> Some (case v of
           None \<Rightarrow> \<lparr>st_chunks = map (\<lambda>x. ck_raw_bytes (fst x)) xs, st_metadata = fst x,
                    st_endpoint_id = ck_endpoint_id (fst x), st_last_seen = snd (snd (last xs))\<rparr>
         | Some s \<Rightarrow> s\<lparr>st_chunks := st_chunks s @ map (\<lambda>x. ck_raw_bytes (fst x)) xs,
                       st_last_seen := snd (snd (last xs))\<rparr>))"
proof (induction xs arbitrary: v)
  case Nil
  then show ?case by simp
next
  case (Cons x xs)
  obtain c t t' where "x = (c, t, t')" by (cases x) auto
  with Cons [of "Some (stream_entry v x)"] show ?case
    by (cases xs) (auto simp: Let_def split: option.splits)
qed

lemma okp_receive_chunks:
  "okp (mapp (receive_chunk E cfg) cs)
     (\<lambda>taken w'. \<exists>xs. streams w' = foldl (alist.push (\<lambda>x. ck_stream_id (fst x)) stream_entry) (streams w) xs
        \<and> map fst xs = map fst (filter snd (zip cs taken)) \<and> length taken = length cs) w"
proof -
  let ?I = "\<lambda>cs0 ys w'. \<exists>xs. streams w' = foldl (alist.push (\<lambda>x. ck_stream_id (fst x)) stream_entry) (streams w) xs
        \<and> map fst xs = map fst (filter snd (zip cs0 ys)) \<and> length ys = length cs0"
  have step: "okp (receive_chunk E cfg c) (\<lambda>y s'. ?I (cs0 @ [c]) (ys @ [y]) s') s"
    if I: "?I cs0 ys s" for cs0 ys c s
  proof -
    from I obtain xs where xs: "streams s = foldl (alist.push (\<lambda>x. ck_stream_id (fst x)) stream_entry) (streams w) xs"
      "map fst xs = map fst (filter snd (zip cs0 ys))" "length ys = length cs0" by blast
    show ?thesis
    proof (rule okp_mono [OF okp_receive_chunk])
      fix y s'
      assume "\<exists>t t'. streams s' = (if y then append_chunk c t t' (streams s) else streams s)"
      then obtain t t' where s': "streams s' = (if y then append_chunk c t t' (streams s) else streams s)" by blast
      show "?I (cs0 @ [c]) (ys @ [y]) s'"
        using xs s' by (intro exI [of _ "if y then xs @ [(c, t, t')] else xs"]) (auto simp: append_chunk_push)
    qed
  qed
  have "okp (mapp (receive_chunk E cfg) cs) (\<lambda>zs s'. ?I ([] @ cs) ([] @ zs) s') w"
    by (rule okp_mapp_fold [where I = ?I]) (use step in auto)
  then show ?thesis by simp
qed

subsection \<open>What the parts of a run emit\<close>

text \<open>The events by which a stream's processing is visible to the other services.\<close>

fun loud :: "event \<Rightarrow> bool" where
  "loud (Redis (XAdd _ _ _), _) = True"
| "loud (Redis (HGetAll _), _) = True"
| "loud (Redis (HSet _ _), _) = True"
| "loud (Grpc _, _) = True"
| "loud _ = False"

abbreviation quiet :: "event \<Rightarrow> bool" where
  "quiet e \<equiv> \<not> loud e"

lemma quiet_upload: "upload_event (S3 c) e \<Longrightarrow> quiet e"
  by (cases "(S3 c, e)" rule: upload_event.cases) auto

lemma quiet_parse: "emits quiet (parse_packets E ps)"
proof (induction ps)
  case (Cons p ps)
  then show ?case by (simp only: parse_packets.simps, intro emits_intros) (simp_all add: emits_ret)
qed (simp add: emits_ret)

lemma quiet_build: "emits quiet (sync_build E L sid raw ks b ps)"
  unfolding sync_build_def build_at_def int_time_def write_pcap_def build_pkt_def write_keys_def carve_def
    exported_file_def upload_artifacts_def upload_pcap_def upload_image_def cleanup_def remove_if_there_def Let_def
  by (intro emits_intros quiet_parse emits_mono [OF emits_upload_file quiet_upload]
      emits_mono [OF emits_upload_bytes quiet_upload]) simp_all

lemma only_trace_parse: "only_trace (parse_packets E ps)"
  unfolding only_trace_def
proof (induction ps)
  case (Cons p ps)
  then show ?case by (simp only: parse_packets.simps, intro keeps_intros) simp_all
qed (simp add: keeps_ret)

lemma only_trace_uploads:
  "only_trace (upload_file E L b p n)" "only_trace (upload_bytes E L b d m)"
  unfolding only_trace_def upload_file_def upload_bytes_def ensure_bucket_def Let_def
  by (intro keeps_intros; simp)+

lemma only_trace_build: "only_trace (sync_build E L sid raw ks b ps)"
  unfolding only_trace_def sync_build_def build_at_def int_time_def write_pcap_def build_pkt_def write_keys_def carve_def
    exported_file_def upload_artifacts_def upload_pcap_def upload_image_def cleanup_def remove_if_there_def Let_def
  by (intro keeps_intros only_trace_parse [unfolded only_trace_def] only_trace_uploads [unfolded only_trace_def]) simp_all

lemma quiet_wait_slot: "emits quiet (wait_slot E others n)"
  by (induction n) (auto simp: interfere_def intro!: emits_intros split: prod.split)

subsection \<open>The log of a run\<close>

definition logged :: "hist \<Rightarrow> hist \<Rightarrow> 'z world_scheme \<Rightarrow> bool" where
  "logged h l s \<longleftrightarrow> (\<exists>es. trace s = h @ es \<and> filter loud es = l)"

lemma filter_quiet: "list_all quiet es \<Longrightarrow> filter loud es = []"
  by (simp add: list_all_iff filter_empty_conv)

lemma okp_quiet:
  assumes "emits quiet m" and "logged h l s"
  shows "okp m (\<lambda>x s'. logged h l s') s"
  by (rule okp_mono [OF okp_emits [OF assms(1)]])
    (use assms(2) filter_quiet in \<open>force simp: logged_def\<close>)

lemma logged_modify: "logged h l s \<Longrightarrow> trace s' = trace s \<Longrightarrow> logged h l s'"
  by (simp add: logged_def)

lemma logged_snoc:
  "logged h l s \<Longrightarrow> trace s' = trace s @ es \<Longrightarrow> logged h (l @ filter loud es) s'"
  by (auto simp: logged_def)

text \<open>What the reply of an analysis call means to the router.\<close>

definition analysis_of :: "string \<Rightarrow> reply \<Rightarrow> analysis option" where
  "analysis_of stream_id rep =
     (case rep of
        Inr v \<Rightarrow> (case as_analysis v of Inr a \<Rightarrow> Some a | Inl _ \<Rightarrow> None)
      | Inl e \<Rightarrow> (if exn_cls e = RpcErr then
            Some \<lparr>an_stream_id = stream_id, an_verdict = ''ERROR'', an_confidence = 0, an_raw_score = 0,
                  an_latency_ms = 0, an_model_type = [], an_error = exn_str e\<rparr>
          else None))"

lemma as_analysis_error: "as_analysis v = Inl e \<Longrightarrow> exn_cls e = TypeErr"
  by (auto simp: as_analysis_def type_error_def split: pyval.splits sum.splits)

lemma okp_analyze:
  "okp (analyze E sid img sha ep a b) (\<lambda>r w'. \<exists>rep. trace w' = trace w @ [(Grpc (GrpcAnalyze sid img sha ep a b), rep)]
      \<and> analysis_of sid rep = Some r) w"
  unfolding analyze_def
  by (auto simp: okp_simps wp_simps Let_def analysis_of_def split: sum.split dest: as_analysis_error)

lemma okp_scan:
  "logged h l w \<Longrightarrow> okp (scan E others sid img sha ep c)
     (\<lambda>r w'. \<exists>rep. logged h (l @ [(Grpc (GrpcAnalyze sid img sha ep (ck_src_ip c) (ck_dst_ip c)), rep)]) w'
        \<and> analysis_of sid rep = Some r) w"
  unfolding scan_def interfere_def okp_seqp okp_finallyp okp_modifyp
proof (rule okp_mono [OF okp_analyze])
  fix r and w' :: router
  assume l: "logged h l w"
    and "\<exists>rep. trace w' = trace (w\<lparr>active_scans := active_scans w + 1\<rparr>) @
        [(Grpc (GrpcAnalyze sid img sha ep (ck_src_ip c) (ck_dst_ip c)), rep)] \<and> analysis_of sid rep = Some r"
  then obtain rep where rep: "trace w' = trace w @ [(Grpc (GrpcAnalyze sid img sha ep (ck_src_ip c) (ck_dst_ip c)), rep)]"
    "analysis_of sid rep = Some r" by auto
  have "logged h (l @ [(Grpc (GrpcAnalyze sid img sha ep (ck_src_ip c) (ck_dst_ip c)), rep)]) s'"
    if "trace s' = trace w'" for s' :: router
    using logged_snoc [OF l, of s'] rep(1) that by simp
  with rep(2) show "\<exists>rep. logged h (l @ [(Grpc (GrpcAnalyze sid img sha ep (ck_src_ip c) (ck_dst_ip c)), rep)])
        ((case others (trace w') (active_scans w') (max_scans w') of (a, m) \<Rightarrow> w'\<lparr>active_scans := a, max_scans := m\<rparr>)
          \<lparr>active_scans := active_scans (case others (trace w') (active_scans w') (max_scans w') of
             (a, m) \<Rightarrow> w'\<lparr>active_scans := a, max_scans := m\<rparr>) - 1\<rparr>) \<and> analysis_of sid rep = Some r"
    by (intro exI [of _ rep]) (simp split: prod.split)
qed

lemma okp_lookup:
  "logged h l w \<Longrightarrow> okp (lookup E L ttl s)
     (\<lambda>r w'. \<exists>d. logged h (l @ [(Redis (HGetAll (cache_prefix @ s)), Inr (PDict d))]) w' \<and> (r = None \<longleftrightarrow> d = [])) w"
  unfolding lookup_def Let_def
  by (auto simp: okp_simps as_dict_def logged_def split: pyval.splits) 

lemma okp_write_event:
  "logged h l w \<Longrightarrow> okp (write_event E L name ev)
     (\<lambda>r w'. \<exists>now. logged h (l @ [(Redis (XAdd name (event_entry L ev now) queue_max_len), Inr r)]) w') w"
  unfolding write_event_def
  by (auto simp: okp_simps logged_def)

lemma quiet_upsert: "emits quiet (upsert_endpoint E p a b c)"
  unfolding upsert_endpoint_def by (intro emits_intros) simp_all

lemma quiet_store_hash_cache: "emits quiet (store_hash_cache E p a b c d)"
  unfolding store_hash_cache_def by (intro emits_intros) simp_all

lemma okp_store:
  "logged h l w \<Longrightarrow> okp (store E L ttl s v x)
     (\<lambda>r w'. \<exists>y. logged h (l @ [(Redis (HSet (cache_prefix @ s)
        [(''verdict'', v), (''steg_score'', float_str L x), (''hit_count'', ''0'')]), Inr y)]) w') w"
  unfolding store_def Let_def
  by (auto simp: okp_simps logged_def)

text \<open>What a run shows to the other services, by the three ways it can end.\<close>

definition stream_protocol :: "pylib \<Rightarrow> router_cfg \<Rightarrow> string \<Rightarrow> stream \<Rightarrow> hist \<Rightarrow> bool" where
  "stream_protocol L cfg sid data es \<longleftrightarrow>
     (let raw = concat (st_chunks data); chunk = st_metadata data; ep = st_endpoint_id data;
          sha = sha256_hex L raw; n = length raw; key = cache_prefix @ sha;
          get = (\<lambda>d. (Redis (HGetAll key), Inr (PDict d)));
          queued = (\<lambda>ev now v. (Redis (XAdd (stream_name cfg) (event_entry L ev now) queue_max_len), Inr v))
      in \<exists>now v pcap img carved.
        (\<exists>d score. d \<noteq> [] \<and> es = [get d, queued (base_event sid ep sha ''CACHE_HIT'' score chunk n pcap img) now v])
      \<or> image_to_analyze raw carved = [] \<and>
          es = [get [], queued (base_event sid ep sha ''NO_IMAGE'' 0 chunk n pcap img) now v]
      \<or> image_to_analyze raw carved \<noteq> [] \<and>
          (\<exists>rep r y. analysis_of sid rep = Some r \<and>
             es = [get [], (Grpc (GrpcAnalyze sid (image_to_analyze raw carved) sha ep (ck_src_ip chunk) (ck_dst_ip chunk)), rep)]
               @ (if an_verdict r = ''ERROR'' then []
                  else [(Redis (HSet key [(''verdict'', an_verdict r),
                          (''steg_score'', float_str L (an_confidence r)), (''hit_count'', ''0'')]), Inr y)])
               @ [queued (result_event sid ep sha r chunk n pcap img) now v]))"

lemma okp_store_result:
  assumes "logged h l w"
  shows "okp (store_result E L cfg sha r) (\<lambda>_ w'. \<exists>y. logged h (l @ (if an_verdict r = ''ERROR'' then []
       else [(Redis (HSet (cache_prefix @ sha) [(''verdict'', an_verdict r),
          (''steg_score'', float_str L (an_confidence r)), (''hit_count'', ''0'')]), Inr y)])) w') w"
proof (cases "an_verdict r = ''ERROR''")
  case True
  with assms show ?thesis by (simp add: store_result_def okp_simps)
next
  case False
  then show ?thesis
    unfolding store_result_def
    by (simp add: okp_whenp okp_seqp)
      (rule okp_mono [OF okp_store [OF assms]], blast intro: okp_mono [OF okp_quiet [OF quiet_store_hash_cache]])
qed

text \<open>The last step of each way: the event is queued.\<close>

lemma okp_queue_end:
  assumes l: "logged h l s"
    and p: "\<And>now v. P (l @ [(Redis (XAdd name (event_entry L ev now) queue_max_len), Inr v)])"
  shows "okp (seqp (write_event E L name ev) (ret True))
    (\<lambda>fin w'. fin \<longrightarrow> (\<exists>es. logged h es w' \<and> P es)) s"
  unfolding okp_seqp okp_ret
  by (rule okp_mono [OF okp_write_event [OF l]]) (use p in blast)

lemma okp_dispatch_image:
  assumes l: "logged h [(Redis (HGetAll (cache_prefix @ sha256_hex L (concat (st_chunks data)))), Inr (PDict []))] s"
    and img: "image_to_analyze (concat (st_chunks data)) carved \<noteq> []"
  shows "okp (dispatch_image E L cfg others fuel sid data pcap iu (image_to_analyze (concat (st_chunks data)) carved))
     (\<lambda>fin w'. fin \<longrightarrow> (\<exists>es. logged h es w' \<and> stream_protocol L cfg sid data es)) s"
  (is "okp _ ?Q s")
  unfolding dispatch_image_def Let_def okp_bindp
proof (rule okp_mono [OF okp_quiet [OF quiet_wait_slot l]])
  fix free :: bool and s1 :: router
  let ?raw = "concat (st_chunks data)"
  let ?sha = "sha256_hex L ?raw" and ?c = "st_metadata data" and ?ep = "st_endpoint_id data"
  let ?img = "image_to_analyze ?raw carved"
  assume l1: "logged h [(Redis (HGetAll (cache_prefix @ ?sha)), Inr (PDict []))] s1"
  have "okp (bindp (scan E others sid ?img ?sha ?ep ?c) (\<lambda>r. seqp (store_result E L cfg ?sha r)
      (seqp (write_event E L (stream_name cfg) (result_event sid ?ep ?sha r ?c (length ?raw) pcap iu)) (ret True)))) ?Q s1"
    unfolding okp_bindp
  proof (rule okp_mono [OF okp_scan [OF l1]])
    fix r and s2 :: router
    assume "\<exists>rep. logged h ([(Redis (HGetAll (cache_prefix @ ?sha)), Inr (PDict []))] @
        [(Grpc (GrpcAnalyze sid ?img ?sha ?ep (ck_src_ip ?c) (ck_dst_ip ?c)), rep)]) s2 \<and> analysis_of sid rep = Some r"
    then obtain rep where l2: "logged h ([(Redis (HGetAll (cache_prefix @ ?sha)), Inr (PDict []))] @
        [(Grpc (GrpcAnalyze sid ?img ?sha ?ep (ck_src_ip ?c) (ck_dst_ip ?c)), rep)]) s2"
      and r: "analysis_of sid rep = Some r" by blast
    show "okp (seqp (store_result E L cfg ?sha r)
      (seqp (write_event E L (stream_name cfg) (result_event sid ?ep ?sha r ?c (length ?raw) pcap iu)) (ret True))) ?Q s2"
      unfolding okp_seqp [of "store_result E L cfg ?sha r"]
      by (rule okp_mono [OF okp_store_result [OF l2]], elim exE, erule okp_queue_end)
        (use r img in \<open>auto simp: stream_protocol_def Let_def\<close>)
  qed
  then show "okp (if \<not> free then ret False else bindp (scan E others sid ?img ?sha ?ep ?c) (\<lambda>r. seqp (store_result E L cfg ?sha r)
      (seqp (write_event E L (stream_name cfg) (result_event sid ?ep ?sha r ?c (length ?raw) pcap iu)) (ret True)))) ?Q s1"
    by (cases free) (simp_all add: okp_ret)
qed

lemma okp_judge_stream:
  assumes l: "logged h [] s"
  shows "okp (judge_stream E L cfg others fuel sid data pcap iu carved)
     (\<lambda>fin w'. fin \<longrightarrow> (\<exists>es. logged h es w' \<and> stream_protocol L cfg sid data es)) s"
  (is "okp _ ?Q s")
  unfolding judge_stream_def Let_def okp_bindp
proof (rule okp_mono [OF okp_lookup [OF l]])
  fix cached :: "(string \<times> pyfloat) option" and s1 :: router
  let ?raw = "concat (st_chunks data)"
  let ?sha = "sha256_hex L ?raw" and ?c = "st_metadata data" and ?ep = "st_endpoint_id data"
  assume "\<exists>d. logged h ([] @ [(Redis (HGetAll (cache_prefix @ ?sha)), Inr (PDict d))]) s1 \<and> (cached = None \<longleftrightarrow> d = [])"
  then obtain d where l1: "logged h [(Redis (HGetAll (cache_prefix @ ?sha)), Inr (PDict d))] s1"
    and d: "cached = None \<longleftrightarrow> d = []" by auto
  show "okp (case cached of None \<Rightarrow>
        if image_to_analyze ?raw carved = [] then
          seqp (write_event E L (stream_name cfg) (base_event sid ?ep ?sha ''NO_IMAGE'' 0 ?c (length ?raw) pcap iu)) (ret True)
        else dispatch_image E L cfg others fuel sid data pcap iu (image_to_analyze ?raw carved)
      | Some (verdict, score) \<Rightarrow>
          seqp (store_hash_cache E (pool_ready cfg) ?sha verdict score ''srnet'')
         (seqp (write_event E L (stream_name cfg) (base_event sid ?ep ?sha ''CACHE_HIT'' score ?c (length ?raw) pcap iu)) (ret True))) ?Q s1"
  proof (cases cached)
    case None
    with d l1 have l2: "logged h [(Redis (HGetAll (cache_prefix @ ?sha)), Inr (PDict []))] s1" by simp
    show ?thesis
    proof (cases "image_to_analyze ?raw carved = []")
      case True
      have "okp (seqp (write_event E L (stream_name cfg) (base_event sid ?ep ?sha ''NO_IMAGE'' 0 ?c (length ?raw) pcap iu)) (ret True)) ?Q s1"
        by (rule okp_queue_end [OF l2]) (use True in \<open>auto simp: stream_protocol_def Let_def\<close>)
      with None True show ?thesis by simp
    next
      case False
      with None okp_dispatch_image [OF l2] show ?thesis by simp
    qed
  next
    case (Some vs)
    obtain verdict score where vs: "vs = (verdict, score)" by fastforce
    have "okp (seqp (store_hash_cache E (pool_ready cfg) ?sha verdict score ''srnet'')
         (seqp (write_event E L (stream_name cfg) (base_event sid ?ep ?sha ''CACHE_HIT'' score ?c (length ?raw) pcap iu)) (ret True))) ?Q s1"
      unfolding okp_seqp [of "store_hash_cache E p a b c d" for p a b c d]
      by (rule okp_mono [OF okp_quiet [OF quiet_store_hash_cache l1]], erule okp_queue_end)
        (use d Some in \<open>auto simp: stream_protocol_def Let_def\<close>)
    with Some vs show ?thesis by simp
  qed
qed

lemma okp_process_stream:
  "okp (process_stream E L cfg others fuel sid data)
     (\<lambda>fin w'. fin \<longrightarrow> (\<exists>es. logged (trace w) es w' \<and> stream_protocol L cfg sid data es)) w"
proof -
  have l0: "logged (trace w) [] w" by (simp add: logged_def)
  show ?thesis
    unfolding process_stream_def Let_def okp_seqp [of "upsert_endpoint E p a b c" for p a b c]
  proof (rule okp_mono [OF okp_quiet [OF quiet_upsert l0]])
    fix s1 :: router
    assume l1: "logged (trace w) [] s1"
    show "okp (bindp (getp (\<lambda>w. get_keys (set_iter cfg) (key_store w) (st_endpoint_id data))) (\<lambda>(all_keys, keys').
        seqp (modifyp (\<lambda>w. w\<lparr>key_store := keys'\<rparr>))
       (bindp (sync_build E L sid (concat (st_chunks data)) all_keys True (st_chunks data)) (\<lambda>(pcap_uri, image_uri, carved).
        judge_stream E L cfg others fuel sid data pcap_uri image_uri carved))))
      (\<lambda>fin w'. fin \<longrightarrow> (\<exists>es. logged (trace w) es w' \<and> stream_protocol L cfg sid data es)) s1"
      using l1
      by (auto simp: okp_simps split: prod.split intro!: okp_mono [OF okp_quiet [OF quiet_build]]
          okp_judge_stream elim: logged_modify)
  qed
qed

subsection \<open>The stream table is touched by the receiver and the reaper only\<close>

lemma only_trace_lookup: "only_trace (lookup E L ttl s)"
  unfolding only_trace_def lookup_def Let_def by (intro keeps_intros) simp_all

lemma keeps_process_stream:
  assumes "\<And>w tr. f (w\<lparr>trace := tr\<rparr>) = f w" and "\<And>w k. f (w\<lparr>key_store := k\<rparr>) = f w"
    and "\<And>w a. f (w\<lparr>active_scans := a\<rparr>) = f w" and "\<And>w m. f (w\<lparr>max_scans := m\<rparr>) = f w"
  shows "keeps f (process_stream E L cfg others fuel sid data)"
proof -
  have i: "keeps f (interfere others)"
    using assms(3,4) by (auto simp: interfere_def intro!: keeps_modifyp split: prod.split)
  then have w: "keeps f (wait_slot E others n)" for n
    by (induction n) (auto intro!: keeps_intros assms)
  show ?thesis
    unfolding process_stream_def judge_stream_def dispatch_image_def scan_def store_result_def
      upsert_endpoint_def store_hash_cache_def write_event_def store_def analyze_def Let_def
    by (intro keeps_intros keeps_only_trace [OF only_trace_build] keeps_only_trace [OF only_trace_lookup] w i)
      (simp_all add: assms)
qed

lemma keeps_process_logged: "keeps streams (process_logged E L cfg others fuel sd)"
  unfolding process_logged_def by (intro keeps_intros keeps_process_stream) simp_all

lemma finish_stream_streams:
  "streams (snd (finish_stream E L cfg others fuel sid w)) = AList.delete sid (streams w)"
proof (cases "map_of (streams w) sid")
  case None
  then have "AList.delete sid (streams w) = streams w"
    by (simp add: map_of_eq_None_iff)
  with None show ?thesis by (simp add: finish_stream_def bindp_def getp_def ret_def)
next
  case (Some data)
  obtain r w' where p: "process_logged E L cfg others fuel (sid, data)
      (w\<lparr>streams := AList.delete sid (streams w)\<rparr>) = (r, w')" by fastforce
  then have "streams w' = AList.delete sid (streams w)"
    using keepsD [OF keeps_process_logged p] by simp
  with p Some show ?thesis
    by (simp add: finish_stream_def bindp_def seqp_def getp_def modifyp_def split: sum.split)
qed

lemma no_raise_finish: "no_raise (finish_stream E L cfg others fuel sid)"
  unfolding finish_stream_def process_logged_def by (intro no_raise_intros)

lemma finish_streams_streams:
  "streams (snd (forp sids (finish_stream E L cfg others fuel) w)) = foldl (\<lambda>m k. AList.delete k m) (streams w) sids"
proof (induction sids arbitrary: w)
  case Nil
  then show ?case by (simp add: ret_def)
next
  case (Cons sid sids)
  obtain w' where "finish_stream E L cfg others fuel sid w = (Inr (), w')"
    using no_raise_finish no_raiseE by (metis (full_types) unit.exhaust)
  with finish_stream_streams [of E L cfg others fuel sid w] Cons [of w'] show ?case
    by (simp add: seqp_def bindp_def)
qed

subsection \<open>Failed analyses and scan slots\<close>

text \<open>An event that stores an ERROR verdict under a digest in Redis.\<close>

fun caches_error :: "event \<Rightarrow> bool" where
  "caches_error (Redis (HSet _ fs), _) = (map_of fs ''verdict'' = Some ''ERROR'')"
| "caches_error _ = False"

lemma quiet_no_error: "quiet e \<Longrightarrow> \<not> caches_error e"
  by (cases e rule: caches_error.cases) auto

lemma no_error_cached: "emits (\<lambda>e. \<not> caches_error e) (process_stream E L cfg others fuel sid data)"
  unfolding process_stream_def judge_stream_def dispatch_image_def scan_def store_result_def lookup_def
    upsert_endpoint_def store_hash_cache_def write_event_def store_def analyze_def interfere_def Let_def catchif_def
  by (intro emits_intros emits_mono [OF quiet_build quiet_no_error] emits_mono [OF quiet_wait_slot quiet_no_error])
    (simp_all split: prod.split)

lemma wait_slot_free: "okp (wait_slot E others n) (\<lambda>free w'. free \<longrightarrow> active_scans w' < max_scans w') w"
proof (induction n arbitrary: w)
  case 0
  then show ?case by (auto simp: okp_simps)
next
  case (Suc n)
  then show ?case by (auto simp: okp_simps interfere_def)
qed

lemma keeps_scan:
  assumes "\<And>h a m. others h a m = (a, m)"
  shows "keeps active_scans (scan E others sid img sha ep c)"
  unfolding keeps_def
proof
  fix w
  have "keeps active_scans (finallyp (analyze E sid img sha ep (ck_src_ip c) (ck_dst_ip c)) (interfere others))"
    unfolding analyze_def interfere_def by (intro keeps_intros) (simp_all add: assms)
  from keepsD [OF this, of "w\<lparr>active_scans := active_scans w + 1\<rparr>"]
  show "active_scans (snd (scan E others sid img sha ep c w)) = active_scans w"
    unfolding scan_def seqp_def bindp_def modifyp_def finallyp_def [of "finallyp m n" for m n]
    by (auto split: prod.splits)
qed

lemma slot_kept:
  assumes "\<And>h a m. others h a m = (a, m)"
  shows "keeps active_scans (process_stream E L cfg others fuel sid data)"
proof -
  have w: "keeps active_scans (wait_slot E others n)" for n
    by (induction n) (auto intro!: keeps_intros simp: interfere_def assms)
  show ?thesis
    unfolding process_stream_def judge_stream_def dispatch_image_def store_result_def
      upsert_endpoint_def store_hash_cache_def write_event_def store_def Let_def
    by (intro keeps_intros keeps_only_trace [OF only_trace_build] keeps_only_trace [OF only_trace_lookup]
        keeps_scan w) (simp_all add: assms)
qed

section \<open>Witness data\<close>

text \<open>An environment in which every service answers and each digest is cached as CLEAN.\<close>

definition router_env :: env where
  "router_env h c = (case c of
      UuidHex \<Rightarrow> Inr (PStr ''0123456789'') | Clock \<Rightarrow> Inr (PInt 7)
    | Fs (FsExists _) \<Rightarrow> Inr (PBool False)
    | Redis (HGetAll _) \<Rightarrow> Inr (PDict [(''verdict'', PStr ''CLEAN''), (''steg_score'', PStr ''0'')])
    | RedisPipe _ \<Rightarrow> Inr (PList [PInt 0, PInt 0, PInt 1, PBool True])
    | _ \<Rightarrow> Inr PNone)"

definition sample_chunk :: payload_chunk where
  "sample_chunk = \<lparr>ck_endpoint_id = ''e'', ck_stream_id = ''s'', ck_raw_bytes = [1], ck_sha256 = [],
     ck_ssl_keylog = [], ck_src_ip = ''a'', ck_dst_ip = ''b'', ck_src_port = 1, ck_dst_port = 2, ck_captured_at = 0\<rparr>"

definition sample_stream :: stream where
  "sample_stream = \<lparr>st_chunks = [[1]], st_metadata = sample_chunk, st_endpoint_id = ''e'', st_last_seen = 1\<rparr>"

definition sample_cfg :: router_cfg where
  "sample_cfg = \<lparr>rate_limit = 10, cache_ttl = 60, stream_name = ''q'', pool_ready = True, set_iter = (\<lambda>xs. xs)\<rparr>"

lemma sample_run:
  "fst (process_stream router_env ref_lib sample_cfg (\<lambda>h a m. (a, m)) 0 ''s'' sample_stream (init_router [])) = Inr True"
  by (simp add: run_defs process_stream_def judge_stream_def lookup_def upsert_endpoint_def store_hash_cache_def
      write_event_def or_str_def sample_cfg_def sample_stream_def sample_chunk_def init_router_def get_keys_def dict_get_def
      sync_build_def build_at_def int_time_def base_path_def safe_id_def
      write_pcap_def mock_packets_def mock_data.simps py_range_def chunk_size_def slice_def slice_index_def
      build_pkt_def mock_flow_def default_flow_def write_keys_def carve_def exported_file_def
      jpeg_carve_def py_find_def upload_artifacts_def upload_pcap_def upload_image_def
      cleanup_def remove_if_there_def router_env_def replace_str.simps print_defs output_dir_def ref_lib_zero)

lemma sample_receive:
  "\<exists>w'. mapp (receive_chunk router_env sample_cfg) [sample_chunk] (init_router []) = (Inr [True], w')"
  by (simp add: run_defs receive_chunk_def accept_chunk_def is_allowed_def rl_pipeline_def router_env_def sample_cfg_def
      sample_chunk_def init_router_def)

section \<open>Properties\<close>

text \<open>
C1: The protocol of a stream. When the processing of a stream gets to its end, what it did to the
cache, the analyser and the event queue is exactly one of three sequences: a cache read that hits,
then one event with verdict CACHE_HIT and the cached score; a cache read that misses, no image, then
one event NO_IMAGE with score 0; or a miss, one analysis request that carries the sniffed payload or
else the carved image, the storing of the result if and only if its verdict is not ERROR, then one
event with the result. The digest is that of the stream's chunks joined in order, and the event
carries the stream's identifiers, addresses, size and artifact URIs.
\<close>

theorem processed_stream_protocol:
  assumes "fst (process_stream E L cfg others fuel sid data w) = Inr True"
  shows "stream_protocol L cfg sid data (filter loud (new_events (process_stream E L cfg others fuel sid data) w))"
  using okpD [OF okp_process_stream assms] by (auto simp: logged_def new_events_def)

theorem processed_stream_protocol_witness:
  "stream_protocol ref_lib sample_cfg ''s'' sample_stream (filter loud (new_events
     (process_stream router_env ref_lib sample_cfg (\<lambda>h a m. (a, m)) 0 ''s'' sample_stream) (init_router [])))"
  by (rule processed_stream_protocol) (rule sample_run)

text \<open>
C2: A failed analysis is never cached. No run of \<open>process_stream\<close>, finished, waiting or stopped by
an exception, writes the verdict ERROR into the Redis cache, whatever the analyser and the other
services answer; so a stream whose analysis failed is analysed again.
\<close>

theorem failed_analysis_not_cached:
  "\<not> list_ex caches_error (new_events (process_stream E L cfg others fuel sid data) w)"
  using emits_new_events [OF no_error_cached] by (fastforce simp: list_ex_iff)



text \<open>
The reaper flushes exactly the idle streams. Of a table without repeated identifiers one pass
takes out, in order, the streams last seen more than five seconds ago, and leaves the others in place.
\<close>

theorem reaper_takes_idle_streams:
  assumes "dict_ok tbl"
  shows "reap now tbl tbl = (filter (idle now) tbl, filter (\<lambda>e. \<not> idle now e) tbl)"
  using dict_filter_keys [OF assms] by (auto simp: reap_spec foldl_delete_filter intro!: filter_cong)

theorem reaper_takes_idle_streams_witness:
  "reap 10 [(''s'', sample_stream), (''t'', sample_stream\<lparr>st_last_seen := 8\<rparr>)]
     [(''s'', sample_stream), (''t'', sample_stream\<lparr>st_last_seen := 8\<rparr>)]
   = ([(''s'', sample_stream)], [(''t'', sample_stream\<lparr>st_last_seen := 8\<rparr>)])"
proof -
  have "dict_ok [(''s'', sample_stream), (''t'', sample_stream\<lparr>st_last_seen := 8\<rparr>)]"
    by (simp add: dict_ok_def)
  from reaper_takes_idle_streams [OF this, of 10] show ?thesis
    by (simp add: idle_def sample_stream_def)
qed

text \<open>
C29: Reassembly loses and reorders nothing. After the chunks of a request were received into an empty
table, the table has an entry for exactly the streams with an admitted chunk; its payload list is the
admitted chunks of that stream in arrival order, and its metadata is the first of them. Chunks the
limiter refused are in no entry.
\<close>

theorem chunks_grouped_by_stream:
  assumes "mapp (receive_chunk E cfg) chunks w = (Inr taken, w')" and "streams w = []"
  shows "map_option (\<lambda>s. (st_chunks s, st_metadata s)) (map_of (streams w') sid) =
     (let own = filter (\<lambda>c. ck_stream_id c = sid) (map fst (filter snd (zip chunks taken)))
      in if own = [] then None else Some (map ck_raw_bytes own, hd own))"
proof -
  from okpD [OF okp_receive_chunks, of E cfg chunks w taken] assms obtain xs where
    xs: "streams w' = foldl (alist.push (\<lambda>x. ck_stream_id (fst x)) stream_entry) [] xs"
      "map fst xs = map fst (filter snd (zip chunks taken))" by auto
  have own: "filter (\<lambda>c. ck_stream_id c = sid) (map fst xs) = map fst (filter (\<lambda>x. ck_stream_id (fst x) = sid) xs)"
    by (simp add: filter_map comp_def)
  show ?thesis
    unfolding xs(2) [symmetric] own
    by (cases "filter (\<lambda>x. ck_stream_id (fst x) = sid) xs")
      (auto simp: xs(1) alist.get_pushes stream_entries Let_def)
qed

theorem chunks_grouped_by_stream_witness:
  "\<exists>taken w'. mapp (receive_chunk router_env sample_cfg) [sample_chunk] (init_router []) = (Inr taken, w')
    \<and> map_option st_chunks (map_of (streams w') ''s'') = Some [[1]]"
proof -
  obtain w' where r: "mapp (receive_chunk router_env sample_cfg) [sample_chunk] (init_router []) = (Inr [True], w')"
    using sample_receive ..
  from chunks_grouped_by_stream [OF r, of "''s''"]
  have "map_option (\<lambda>s. (st_chunks s, st_metadata s)) (map_of (streams w') ''s'') = Some ([[1]], sample_chunk)"
    by (simp add: init_router_def sample_chunk_def)
  then have "map_option st_chunks (map_of (streams w') ''s'') = Some [[1]]" by auto
  with r show ?thesis by blast
qed



end
