(* ===== verification/Scans.thy ===== *)
theory Scans
  imports Main
begin

text \<open>
  The scan slots of routing-system/servicer.py under interleaving. asyncio switches coroutines at an
  \<^verbatim>\<open>await\<close> only, so the test of the \<^verbatim>\<open>while\<close> loop that lets a coroutine out and the increment after
  it are one step, and so is the decrement of the \<^verbatim>\<open>finally\<close> block. \<open>scan_step\<close> has the steps of all
  coroutines and of the settings task; \<open>peak\<close> is a ghost, the largest limit there has been.
\<close>

section \<open>Model\<close>

datatype task = Waiting | Scanning | Finished

record scans =
  tasks :: "task list"
  active :: int
  limit :: int
  peak :: int

definition init_scans :: scans where
  "init_scans = \<lparr>tasks = [], active = 0, limit = 10, peak = 10\<rparr>"

definition admit :: "nat \<Rightarrow> scans \<Rightarrow> scans" where
  "admit i s = s\<lparr>tasks := (tasks s)[i := Scanning], active := active s + 1\<rparr>"

definition finish :: "nat \<Rightarrow> scans \<Rightarrow> scans" where
  "finish i s = s\<lparr>tasks := (tasks s)[i := Finished], active := active s - 1\<rparr>"

inductive scan_step :: "scans \<Rightarrow> scans \<Rightarrow> bool" where
  arrive: "scan_step s (s\<lparr>tasks := tasks s @ [Waiting]\<rparr>)"
| admit_task: "i < length (tasks s) \<Longrightarrow> tasks s ! i = Waiting \<Longrightarrow> \<not> active s \<ge> limit s \<Longrightarrow>
    scan_step s (admit i s)"
| finish_task: "i < length (tasks s) \<Longrightarrow> tasks s ! i = Scanning \<Longrightarrow> scan_step s (finish i s)"
| sync: "scan_step s (s\<lparr>limit := n, peak := max (peak s) n\<rparr>)"

inductive_cases scan_stepE: "scan_step s s'"

inductive reachable :: "scans \<Rightarrow> bool" where
  reach_init: "reachable init_scans"
| reach_step: "reachable s \<Longrightarrow> scan_step s s' \<Longrightarrow> reachable s'"

section \<open>Invariant\<close>

definition scanning :: "scans \<Rightarrow> nat" where
  "scanning s = length (filter (\<lambda>t. t = Scanning) (tasks s))"

definition scans_ok :: "scans \<Rightarrow> bool" where
  "scans_ok s \<longleftrightarrow> active s = int (scanning s) \<and> active s \<le> peak s \<and> limit s \<le> peak s"

lemma filter_update:
  "i < length ts \<Longrightarrow> length (filter P (ts[i := t])) + (if P (ts ! i) then 1 else 0)
     = length (filter P ts) + (if P t then 1 else 0)"
proof (induction ts arbitrary: i)
  case (Cons u ts)
  then show ?case by (cases i) auto
qed simp

lemma scanning_admit: "i < length (tasks s) \<Longrightarrow> tasks s ! i = Waiting \<Longrightarrow> scanning (admit i s) = scanning s + 1"
  using filter_update [of i "tasks s" "\<lambda>t. t = Scanning" Scanning] by (simp add: scanning_def admit_def)

lemma scanning_finish: "i < length (tasks s) \<Longrightarrow> tasks s ! i = Scanning \<Longrightarrow> scanning (finish i s) + 1 = scanning s"
  using filter_update [of i "tasks s" "\<lambda>t. t = Scanning" Finished] by (simp add: scanning_def finish_def)

lemma scans_ok_step: "scan_step s s' \<Longrightarrow> scans_ok s \<Longrightarrow> scans_ok s'"
proof (induction rule: scan_step.induct)
  case (arrive s)
  then show ?case by (simp add: scans_ok_def scanning_def)
next
  case (admit_task i s)
  then show ?case using scanning_admit [of i s] by (simp add: scans_ok_def) (simp add: admit_def)
next
  case (finish_task i s)
  then show ?case using scanning_finish [of i s] by (simp add: scans_ok_def) (simp add: finish_def)
next
  case (sync s n)
  then show ?case by (auto simp: scans_ok_def scanning_def)
qed

lemma reachable_ok: "reachable s \<Longrightarrow> scans_ok s"
proof (induction rule: reachable.induct)
  case reach_init
  then show ?case by (simp add: scans_ok_def init_scans_def scanning_def)
next
  case (reach_step s s')
  then show ?case by (metis scans_ok_step)
qed

section \<open>Properties\<close>

text \<open>
C28: In every reachable interleaving of the coroutines the counter is the number of coroutines that
scan, and no more scan at once than the largest limit there has been since the start.
\<close>

theorem scans_bounded:
  assumes "reachable s"
  shows "active s = int (scanning s) \<and> int (scanning s) \<le> peak s"
  using reachable_ok [OF assms] by (simp add: scans_ok_def)

theorem scans_bounded_witness:
  "active (admit 0 (init_scans\<lparr>tasks := [Waiting]\<rparr>)) = int (scanning (admit 0 (init_scans\<lparr>tasks := [Waiting]\<rparr>)))"
proof -
  have "scan_step init_scans (init_scans\<lparr>tasks := tasks init_scans @ [Waiting]\<rparr>)" by (rule arrive)
  then have "reachable (init_scans\<lparr>tasks := [Waiting]\<rparr>)"
    using reach_step [OF reach_init] by (simp add: init_scans_def)
  moreover have "scan_step (init_scans\<lparr>tasks := [Waiting]\<rparr>) (admit 0 (init_scans\<lparr>tasks := [Waiting]\<rparr>))"
    by (rule admit_task) (simp_all add: init_scans_def)
  ultimately have "reachable (admit 0 (init_scans\<lparr>tasks := [Waiting]\<rparr>))" by (rule reach_step)
  from scans_bounded [OF this] show ?thesis by simp
qed

text \<open>
Progress of the scans. In a reachable state with a waiting coroutine, either some coroutine is
scanning, whose end frees a slot, or the waiting one can be admitted, unless the limit is not
positive; with such a limit no coroutine can ever be admitted.
\<close>

theorem scans_progress:
  assumes "reachable s" and "i < length (tasks s)" and "tasks s ! i = Waiting"
  shows "if limit s \<le> 0 then \<forall>s'. scan_step s s' \<longrightarrow> scanning s' \<le> scanning s
    else scanning s > 0 \<or> scan_step s (admit i s)"
proof (cases "limit s \<le> 0")
  case True
  have "active s \<ge> limit s" using reachable_ok [OF assms(1)] True by (simp add: scans_ok_def)
  then have "scanning s' \<le> scanning s" if "scan_step s s'" for s'
    using that by (cases rule: scan_stepE) (auto simp: scanning_def dest: scanning_finish [unfolded scanning_def])
  with True show ?thesis by simp
next
  case False
  have "scanning s > 0" if "active s \<ge> limit s"
    using reachable_ok [OF assms(1)] that False by (simp add: scans_ok_def)
  with False show ?thesis using admit_task [OF assms(2,3)] by auto
qed

theorem scans_progress_witness:
  "scan_step (init_scans\<lparr>tasks := [Waiting]\<rparr>) (admit 0 (init_scans\<lparr>tasks := [Waiting]\<rparr>))"
proof -
  have "scan_step init_scans (init_scans\<lparr>tasks := tasks init_scans @ [Waiting]\<rparr>)" by (rule arrive)
  then have "reachable (init_scans\<lparr>tasks := [Waiting]\<rparr>)"
    using reach_step [OF reach_init] by (simp add: init_scans_def)
  from scans_progress [OF this, of 0] show ?thesis
    by (simp add: init_scans_def scanning_def)
qed

end
