(* ===== verification/DataLayer.thy ===== *)
theory DataLayer
  imports RoutingWriters
begin

text \<open>
  data-layer/main.py and data-layer/pg_writer.py: the consumer that takes the events of the Redis
  stream and writes them to PostgreSQL. A \<^verbatim>\<open>datetime\<close> is its time in seconds.
\<close>

section \<open>data-layer/pg\_writer.py\<close>

primrec dl_connect :: "env \<Rightarrow> nat \<Rightarrow> ('z world_scheme, bool) prog" where
  "dl_connect E 0 = ret False"
| "dl_connect E (Suc attempts) =
     bindp (catchp (seqp (do_call E (Pg PgConnect)) (ret True))
                   (\<lambda>_. seqp (do_call E (Sleep 3)) (ret False))) (\<lambda>connected.
     if connected then ret True else dl_connect E attempts)"

definition sql_insert_event :: string where
  "sql_insert_event =
     ''INSERT INTO network_events ( ts, endpoint_id, stream_id, src_ip, dst_ip, sha256, bytes_total, steg_score, verdict, latency_ms, model_type, pcap_uri, image_uri ) VALUES ( $1, $2, $3, $4, $5, $6, $7, $8, $9, $10, $11, $12, $13 )''"

text \<open>\<^verbatim>\<open>entry.get(k)\<close>, and \<^verbatim>\<open>int(entry.get(k, 0))\<close>.\<close>

definition opt_field :: "(string \<times> string) list \<Rightarrow> string \<Rightarrow> pyval" where
  "opt_field entry k = (case map_of entry k of None \<Rightarrow> PNone | Some s \<Rightarrow> PStr s)"

definition int_field :: "(string \<times> string) list \<Rightarrow> string \<Rightarrow> exn + int" where
  "int_field entry k = (case map_of entry k of None \<Rightarrow> Inr 0 | Some s \<Rightarrow> py_int s)"

text \<open>
  \<^verbatim>\<open>datetime.fromtimestamp(ms / 1000.0, tz=utc)\<close> raises outside the years 1 to 9999.
\<close>

definition from_ms :: "int \<Rightarrow> exn + pyfloat" where
  "from_ms ms = (if -62135596800000 \<le> ms \<and> ms < 253402300800000 then Inr (of_int ms / 1000)
                 else Inl (Exn ValueError ''year is out of range''))"

definition insert_event :: "env \<Rightarrow> pylib \<Rightarrow> (string \<times> string) list \<Rightarrow> ('z world_scheme, unit) prog" where
  "insert_event E L entry =
     bindp (lift_sum (int_field entry ''ts_epoch_ms'')) (\<lambda>ts_ms.
     bindp (if ts_ms = 0 then call_as as_float E Clock else lift_sum (from_ms ts_ms)) (\<lambda>ts.
     bindp (lift_sum (int_field entry ''bytes_total'')) (\<lambda>bytes_total.
     bindp (lift_sum (case map_of entry ''steg_score'' of None \<Rightarrow> Inr 0 | Some s \<Rightarrow> str_float L s)) (\<lambda>score.
     bindp (lift_sum (int_field entry ''latency_ms'')) (\<lambda>latency_ms.
     do_call E (Pg (PgExecute sql_insert_event
       [PFloat ts, opt_field entry ''endpoint_id'', opt_field entry ''stream_id'',
        opt_field entry ''src_ip'', opt_field entry ''dst_ip'', opt_field entry ''sha256'',
        PInt bytes_total, PFloat score, opt_field entry ''verdict'', PInt latency_ms,
        PStr (dict_get entry ''model_type'' ''srnet''),
        opt_field entry ''pcap_uri'', opt_field entry ''image_uri''])))))))"

section \<open>data-layer/main.py\<close>

definition group_name :: string where
  "group_name = ''data_layer_cg''"

definition consumer_name :: string where
  "consumer_name = ''worker_1''"

definition ensure_group :: "env \<Rightarrow> string \<Rightarrow> ('z world_scheme, unit) prog" where
  "ensure_group E redis_stream =
     catchif (\<lambda>c. c = RedisResponseErr)
       (do_call E (Redis (XGroupCreate redis_stream group_name ''0'')))
       (\<lambda>e. if contains (exn_str e) ''BUSYGROUP'' then ret () else raise e)"

definition consume_message :: "env \<Rightarrow> pylib \<Rightarrow> string \<Rightarrow> string \<Rightarrow> (string \<times> string) list
    \<Rightarrow> ('z world_scheme, unit) prog" where
  "consume_message E L redis_stream msg_id msg_data =
     catchp (seqp (insert_event E L msg_data)
                  (do_call E (Redis (XAck redis_stream group_name msg_id))))
       (\<lambda>_. ret ())"

text \<open>The reply of \<^verbatim>\<open>XREADGROUP\<close>: a list of streams, each with a list of messages.\<close>

definition as_entry :: "pyval \<Rightarrow> exn + (string \<times> string) list" where
  "as_entry v = (case as_dict v of Inl e \<Rightarrow> Inl e
     | Inr d \<Rightarrow> (if list_all (\<lambda>f. case snd f of PStr _ \<Rightarrow> True | _ \<Rightarrow> False) d
                 then Inr (map (\<lambda>f. (fst f, case snd f of PStr s \<Rightarrow> s | _ \<Rightarrow> [])) d)
                 else Inl type_error))"

definition as_message :: "pyval \<Rightarrow> exn + string \<times> (string \<times> string) list" where
  "as_message v = (case v of
       PList [PStr msg_id, data] \<Rightarrow> (case as_entry data of Inl e \<Rightarrow> Inl e | Inr d \<Rightarrow> Inr (msg_id, d))
     | _ \<Rightarrow> Inl type_error)"

definition as_stream :: "pyval \<Rightarrow> exn + pyval list" where
  "as_stream v = (case v of PList [PStr _, PList msgs] \<Rightarrow> Inr msgs | _ \<Rightarrow> Inl type_error)"

definition consume_pass :: "env \<Rightarrow> pylib \<Rightarrow> string \<Rightarrow> ('z world_scheme, unit) prog" where
  "consume_pass E L redis_stream =
     catchp
       (bindp (call E (Redis (XReadGroup group_name consumer_name redis_stream 50 1000))) (\<lambda>reply.
        if \<not> truthy reply then ret ()
        else
          bindp (lift_sum (as_list reply)) (\<lambda>ss.
          forp ss (\<lambda>s.
            bindp (lift_sum (as_stream s)) (\<lambda>msgs.
            forp msgs (\<lambda>m.
              bindp (lift_sum (as_message m)) (\<lambda>(msg_id, msg_data).
              consume_message E L redis_stream msg_id msg_data)))))))
       (\<lambda>e. if exn_cls e = TimeoutErr then ret () else do_call E (Sleep 2))"

text \<open>\<open>passes\<close> is how often the stop event was found unset.\<close>

definition consume_loop :: "env \<Rightarrow> pylib \<Rightarrow> string \<Rightarrow> nat \<Rightarrow> ('z world_scheme, unit) prog" where
  "consume_loop E L redis_stream passes =
     seqp (ensure_group E redis_stream)
          (forp [0..<passes] (\<lambda>_. consume_pass E L redis_stream))"

section \<open>Lemmas\<close>

text \<open>
  Every acknowledgement directly follows an insert that succeeded; the flag says whether the event
  before the history was one.
\<close>

fun inserted :: "event \<Rightarrow> bool" where
  "inserted (Pg (PgExecute q _), Inr _) = (q = sql_insert_event)"
| "inserted _ = False"

fun is_ack :: "event \<Rightarrow> bool" where
  "is_ack (Redis (XAck _ _ _), _) = True"
| "is_ack _ = False"

fun acks_follow :: "bool \<Rightarrow> hist \<Rightarrow> bool" where
  "acks_follow b [] = True"
| "acks_follow b (e # h) = ((is_ack e \<longrightarrow> b) \<and> acks_follow (inserted e) h)"

lemma acks_follow_mono: "acks_follow False h \<Longrightarrow> acks_follow b h"
  by (cases h) auto

lemma acks_follow_append: "acks_follow b h \<Longrightarrow> acks_follow False h' \<Longrightarrow> acks_follow b (h @ h')"
  by (induction b h rule: acks_follow.induct) (auto intro: acks_follow_mono)

interpretation acks: history_property "acks_follow False"
  by unfold_locales (auto intro: acks_follow_append)

text \<open>The row a message stands for.\<close>

definition event_row :: "pylib \<Rightarrow> (string \<times> string) list \<Rightarrow> pyfloat \<Rightarrow> pyval list option" where
  "event_row L entry now =
     (case (case int_field entry ''ts_epoch_ms'' of Inl e \<Rightarrow> Inl e
              | Inr ts \<Rightarrow> if ts = 0 then Inr now else from_ms ts, int_field entry ''bytes_total'',
            (case map_of entry ''steg_score'' of None \<Rightarrow> Inr 0 | Some s \<Rightarrow> str_float L s),
            int_field entry ''latency_ms'') of
        (Inr ts, Inr n, Inr x, Inr l) \<Rightarrow> Some
          [PFloat ts, opt_field entry ''endpoint_id'', opt_field entry ''stream_id'',
           opt_field entry ''src_ip'', opt_field entry ''dst_ip'', opt_field entry ''sha256'',
           PInt n, PFloat x, opt_field entry ''verdict'', PInt l,
           PStr (dict_get entry ''model_type'' ''srnet''),
           opt_field entry ''pcap_uri'', opt_field entry ''image_uri'']
      | _ \<Rightarrow> None)"

lemma wp_insert_event:
  "wp (insert_event E L entry) (\<lambda>r w'.
     (\<exists>es. trace w' = trace w @ es \<and> (es = [] \<or> (\<exists>c. es = [(Clock, c)])) \<and> (\<exists>e. r = Inl e))
   \<or> (\<exists>pre now row x. trace w' = trace w @ pre @ [(Pg (PgExecute sql_insert_event row), x)]
        \<and> (pre = [] \<or> (\<exists>c. pre = [(Clock, c)])) \<and> event_row L entry now = Some row
        \<and> (case x of Inl e \<Rightarrow> r = Inl e | Inr _ \<Rightarrow> r = Inr ()))) w"
  unfolding insert_event_def
  by (auto simp: wp_simps Let_def event_row_def split: sum.split option.split)

text \<open>One message: nothing, a failed insert, or an insert and its acknowledgement.\<close>

definition message_log :: "pylib \<Rightarrow> string \<Rightarrow> string \<Rightarrow> (string \<times> string) list \<Rightarrow> hist \<Rightarrow> bool" where
  "message_log L stream_nm msg_id entry es \<longleftrightarrow>
     (\<exists>pre rest. es = pre @ rest \<and> (pre = [] \<or> (\<exists>c. pre = [(Clock, c)]))
        \<and> (rest = []
           \<or> (\<exists>now row e. event_row L entry now = Some row \<and> rest = [(Pg (PgExecute sql_insert_event row), Inl e)])
           \<or> (\<exists>now row v x. event_row L entry now = Some row \<and>
                rest = [(Pg (PgExecute sql_insert_event row), Inr v),
                        (Redis (XAck stream_nm group_name msg_id), x)])))"

lemma wp_consume_message:
  "wp (consume_message E L stream_nm msg_id entry) (\<lambda>r w'. r = Inr ()
     \<and> (\<exists>es. trace w' = trace w @ es \<and> message_log L stream_nm msg_id entry es)) w"
  unfolding consume_message_def wp_catchp wp_seqp
proof (rule wp_mono [OF wp_insert_event])
  fix r :: "exn + unit" and w' :: "'a world_scheme"
  assume "(\<exists>es. trace w' = trace w @ es \<and> (es = [] \<or> (\<exists>c. es = [(Clock, c)])) \<and> (\<exists>e. r = Inl e))
   \<or> (\<exists>pre now row x. trace w' = trace w @ pre @ [(Pg (PgExecute sql_insert_event row), x)]
        \<and> (pre = [] \<or> (\<exists>c. pre = [(Clock, c)])) \<and> event_row L entry now = Some row
        \<and> (case x of Inl e \<Rightarrow> r = Inl e | Inr _ \<Rightarrow> r = Inr ()))"
    (is "?A \<or> ?B")
  then show "case r of
      Inl e \<Rightarrow> (case Inl e of Inl e \<Rightarrow> wp (ret ()) (\<lambda>r w'. r = Inr ()
          \<and> (\<exists>es. trace w' = trace w @ es \<and> message_log L stream_nm msg_id entry es)) w'
        | Inr x \<Rightarrow> Inr x = Inr () \<and> (\<exists>es. trace w' = trace w @ es \<and> message_log L stream_nm msg_id entry es))
    | Inr x \<Rightarrow> wp (do_call E (Redis (XAck stream_nm group_name msg_id))) (\<lambda>r s'.
        case r of Inl e \<Rightarrow> wp (ret ()) (\<lambda>r w'. r = Inr ()
          \<and> (\<exists>es. trace w' = trace w @ es \<and> message_log L stream_nm msg_id entry es)) s'
        | Inr x \<Rightarrow> Inr x = Inr () \<and> (\<exists>es. trace s' = trace w @ es \<and> message_log L stream_nm msg_id entry es)) w'"
  proof
    assume ?A
    moreover have "message_log L stream_nm msg_id entry es" if "es = [] \<or> (\<exists>c. es = [(Clock, c)])" for es
      using that unfolding message_log_def by (intro exI [of _ es] exI [of _ "[]"]) simp
    ultimately show ?thesis by (auto simp: wp_simps)
  next
    assume ?B
    then obtain pre now row x where b: "trace w' = trace w @ pre @ [(Pg (PgExecute sql_insert_event row), x)]"
      "pre = [] \<or> (\<exists>c. pre = [(Clock, c)])" "event_row L entry now = Some row"
      "case x of Inl e \<Rightarrow> r = Inl e | Inr _ \<Rightarrow> r = Inr ()" by blast
    have fail: "message_log L stream_nm msg_id entry (pre @ [(Pg (PgExecute sql_insert_event row), Inl e)])" for e
      using b(2,3) unfolding message_log_def by blast
    have ok: "message_log L stream_nm msg_id entry (pre @ [(Pg (PgExecute sql_insert_event row), Inr v),
        (Redis (XAck stream_nm group_name msg_id), y)])" for v y
      using b(2,3) unfolding message_log_def by blast
    show ?thesis
      using b(1,4) fail ok by (cases x) (auto simp: wp_simps Let_def split: sum.split)
  qed
qed

lemma message_log_acks: "message_log L s i d es \<Longrightarrow> acks_follow False es"
  by (auto simp: message_log_def)

lemma adds_consume_message: "adds (acks_follow False) (consume_message E L s i d)"
  unfolding adds_def using wp_consume_message [of E L s i d] message_log_acks by (fastforce simp: wp_def)

lemma adds_consume_pass: "adds (acks_follow False) (consume_pass E L s)"
  unfolding consume_pass_def
  by (auto intro!: acks.adds_intros adds_consume_message split: prod.split)

lemma adds_consume_loop: "adds (acks_follow False) (consume_loop E L s n)"
  unfolding consume_loop_def ensure_group_def
  by (intro acks.adds_intros adds_consume_pass) simp_all

section \<open>Properties\<close>

text \<open>
C14: Acknowledged means stored. In everything the consumer does, over any number of passes and
whatever Redis and PostgreSQL answer, each acknowledgement directly follows an insert into
\<^verbatim>\<open>network_events\<close> that succeeded.
\<close>

theorem acked_messages_are_stored:
  "acks_follow False (new_events (consume_loop E L stream_nm passes) w)"
  by (rule adds_new_events [OF adds_consume_loop])

text \<open>
One message. Its processing never raises; it inserts at most one row, the row the message
stands for, and acknowledges the message if and only if the insert succeeded. A message with an
unreadable number, or whose insert fails, stays unacknowledged.
\<close>

theorem message_processed:
  "\<exists>w'. consume_message E L stream_nm msg_id entry w = (Inr (), w')
     \<and> message_log L stream_nm msg_id entry (new_events (consume_message E L stream_nm msg_id entry) w)"
  using wp_consume_message [of E L stream_nm msg_id entry w]
  by (auto simp: wp_def new_events_def prod_eq_iff)

text \<open>
C36: Events survive the queue. What the routing system queues with \<open>write_event\<close> is what the data
layer stores: the insert for an entry made of an event at millisecond \<open>now\<close> (after 1970 and before the year 10000) carries the
event's strings, its score, its byte count and its latency unchanged, and the time \<open>now\<close>.
\<close>

theorem queued_event_is_stored:
  assumes "float_roundtrip L" and "0 < now" and "now < 253402300800000"
  shows "insert_event E L (event_entry L ev now) w =
    (let c = Pg (PgExecute sql_insert_event
        [PFloat (of_int now / 1000), PStr (ev_endpoint_id ev), PStr (ev_stream_id ev), PStr (ev_src_ip ev),
         PStr (ev_dst_ip ev), PStr (ev_sha256 ev), PInt (ev_bytes_total ev), PFloat (ev_steg_score ev),
         PStr (ev_verdict ev), PInt (ev_latency_ms ev), PStr (ev_model_type ev), PStr (ev_pcap_uri ev),
         PStr (ev_image_uri ev)])
     in do_call E c w)"
  using assms
  by (simp add: insert_event_def event_entry_def from_ms_def int_field_def opt_field_def dict_get_def float_roundtrip_def
      bindp_def lift_sum_def ret_def Let_def)

theorem queued_event_is_stored_witness:
  "insert_event (\<lambda>h c. Inr PNone) ref_lib (event_entry ref_lib (plain_event ''s'' ''e'' ''h'' ''STEGO'' (1/2)) 5) \<lparr>trace = []\<rparr> =
    do_call (\<lambda>h c. Inr PNone) (Pg (PgExecute sql_insert_event
        [PFloat (5 / 1000), PStr ''e'', PStr ''s'', PStr [], PStr [], PStr ''h'', PInt 0, PFloat (1/2),
         PStr ''STEGO'', PInt 0, PStr ''srnet'', PStr [], PStr []])) \<lparr>trace = []\<rparr>"
  using queued_event_is_stored [OF ref_lib_roundtrip, of 5 "\<lambda>h c. Inr PNone" "plain_event ''s'' ''e'' ''h'' ''STEGO'' (1/2)"]
  by (simp add: plain_event_def)

end
