(* ===== verification/NetGraph.thy ===== *)
theory NetGraph
  imports Effects
begin

text \<open>
  The computation graphs that the CALPA-NET code builds with TensorFlow. A graph is the list of its
  operations in the order of their creation, each with the variable or name scope it was created
  in; a tensor is the position of the operation that computes it. The order within a scope decides
  the names of the variables (\<^verbatim>\<open>Conv\<close>, \<^verbatim>\<open>Conv_1\<close>, \<dots>), so equal graphs read the same checkpoint. A
  building program is a program whose state is the graph. Initialisers and regularisers of the
  variables are not in the model: they have no part in inference.

  The second part is the shape discipline of the operations, as TensorFlow documents it, with a
  small logic for programs that build well-shaped graphs: \<open>builds\<close>.
\<close>

section \<open>Graphs\<close>

datatype data_format = NHWC | NCHW

datatype padding = Same | Valid

datatype op =
    Placeholder
  | Cast nat
  | Transpose nat "nat list"
  | Conv2d nat int int int data_format
  | ConvKernel nat "int list" int padding
  | BatchNorm nat bool data_format
  | Relu nat
  | Abs nat
  | Neg nat
  | AddConst nat int
  | Add nat nat
  | AvgPool nat int int padding data_format
  | ReduceMean nat "nat list"
  | Flatten nat
  | Dense nat int
  | MatMul nat int int
  | BiasAdd nat int

type_synonym graph = "(string \<times> op) list"
type_synonym 'a build = "(graph, 'a) prog"

definition add_op :: "string \<Rightarrow> op \<Rightarrow> nat build" where
  "add_op sc x g = (Inr (length g), g @ [(sc, x)])"

text \<open>A loop that passes a value on.\<close>

primrec foldp :: "('b \<Rightarrow> 'a \<Rightarrow> ('s, 'b) prog) \<Rightarrow> 'b \<Rightarrow> 'a list \<Rightarrow> ('s, 'b) prog" where
  "foldp f b [] = ret b"
| "foldp f b (x # xs) = bindp (f b x) (\<lambda>b'. foldp f b' xs)"

section \<open>Shapes\<close>

type_synonym shape = "int list"

definition same_size :: "int \<Rightarrow> int \<Rightarrow> int" where
  "same_size h s = (h + s - 1) div s"

definition window :: "padding \<Rightarrow> int \<Rightarrow> int \<Rightarrow> int \<Rightarrow> int" where
  "window p k s h = (case p of Same \<Rightarrow> same_size h s | Valid \<Rightarrow> same_size (h - k + 1) s)"

text \<open>The shape of a convolution or pooling that gives \<open>n\<close> channels (\<open>None\<close>: as many as there are).\<close>

definition window_shape :: "data_format \<Rightarrow> padding \<Rightarrow> int \<Rightarrow> int \<Rightarrow> int option \<Rightarrow> shape \<Rightarrow> shape option" where
  "window_shape fmt p k s n sh =
     (case (fmt, sh) of
        (NHWC, [b, h, w, c]) \<Rightarrow>
          if 1 \<le> window p k s h \<and> 1 \<le> window p k s w
          then Some [b, window p k s h, window p k s w, case n of None \<Rightarrow> c | Some m \<Rightarrow> m] else None
      | (NCHW, [b, c, h, w]) \<Rightarrow>
          if 1 \<le> window p k s h \<and> 1 \<le> window p k s w
          then Some [b, case n of None \<Rightarrow> c | Some m \<Rightarrow> m, window p k s h, window p k s w] else None
      | _ \<Rightarrow> None)"

definition at_list :: "'a list \<Rightarrow> nat \<Rightarrow> 'a option" where
  "at_list xs i = (if i < length xs then Some (xs ! i) else None)"

definition if_shape :: "shape option \<Rightarrow> (shape \<Rightarrow> shape option) \<Rightarrow> shape option" where
  "if_shape s f = (case s of None \<Rightarrow> None | Some sh \<Rightarrow> f sh)"

text \<open>
  A convolution has at least one output channel, its kernel fits the channels of its input, and an
  addition has operands of equal shapes (nothing is broadcast).
\<close>

fun op_shape :: "shape \<Rightarrow> shape list \<Rightarrow> op \<Rightarrow> shape option" where
  "op_shape inp ss Placeholder = Some inp"
| "op_shape inp ss (Cast x) = at_list ss x"
| "op_shape inp ss (Transpose x perm) = if_shape (at_list ss x) (\<lambda>sh.
     if \<forall>i \<in> set perm. i < length sh then Some (map (\<lambda>i. sh ! i) perm) else None)"
| "op_shape inp ss (Conv2d x n k s fmt) = if_shape (at_list ss x) (\<lambda>sh.
     if 1 \<le> n then window_shape fmt Same k s (Some n) sh else None)"
| "op_shape inp ss (ConvKernel x kern s p) = if_shape (at_list ss x) (\<lambda>sh.
     case (kern, sh) of
       ([k, k', ci, co], [b, h, w, c]) \<Rightarrow>
         if k = k' \<and> ci = c \<and> 1 \<le> ci \<and> 1 \<le> co then window_shape NHWC p k s (Some co) sh else None
     | _ \<Rightarrow> None)"
| "op_shape inp ss (BatchNorm x training fmt) = if_shape (at_list ss x) (\<lambda>sh.
     if length sh = 4 then Some sh else None)"
| "op_shape inp ss (Relu x) = at_list ss x"
| "op_shape inp ss (Abs x) = at_list ss x"
| "op_shape inp ss (Neg x) = at_list ss x"
| "op_shape inp ss (AddConst x n) = at_list ss x"
| "op_shape inp ss (Add x y) = if_shape (at_list ss x) (\<lambda>sh. if_shape (at_list ss y) (\<lambda>sh'.
     if sh = sh' then Some sh else None))"
| "op_shape inp ss (AvgPool x k s p fmt) = if_shape (at_list ss x) (window_shape fmt p k s None)"
| "op_shape inp ss (ReduceMean x axes) = if_shape (at_list ss x) (\<lambda>sh.
     Some (map (\<lambda>i. if i \<in> set axes then 1 else sh ! i) [0..<length sh]))"
| "op_shape inp ss (Flatten x) = if_shape (at_list ss x) (\<lambda>sh.
     case sh of [] \<Rightarrow> None | b # ds \<Rightarrow> Some [b, prod_list ds])"
| "op_shape inp ss (Dense x n) = if_shape (at_list ss x) (\<lambda>sh.
     if length sh = 2 \<and> 1 \<le> sh ! 1 \<and> 1 \<le> n then Some [sh ! 0, n] else None)"
| "op_shape inp ss (MatMul x m n) = if_shape (at_list ss x) (\<lambda>sh.
     if length sh = 2 \<and> sh ! 1 = m \<and> 1 \<le> m then Some [sh ! 0, n] else None)"
| "op_shape inp ss (BiasAdd x n) = if_shape (at_list ss x) (\<lambda>sh.
     if length sh = 2 \<and> sh ! 1 = n then Some sh else None)"

text \<open>The shapes of the operations of a graph, for an input of shape \<open>inp\<close>.\<close>

definition add_shape :: "shape \<Rightarrow> shape list option \<Rightarrow> string \<times> op \<Rightarrow> shape list option" where
  "add_shape inp ss node = (case ss of None \<Rightarrow> None | Some xs \<Rightarrow>
     (case op_shape inp xs (snd node) of None \<Rightarrow> None | Some sh \<Rightarrow> Some (xs @ [sh])))"

definition shapes :: "shape \<Rightarrow> graph \<Rightarrow> shape list option" where
  "shapes inp g = foldl (add_shape inp) (Some []) g"

definition tensor :: "shape \<Rightarrow> graph \<Rightarrow> nat \<Rightarrow> shape \<Rightarrow> bool" where
  "tensor inp g x sh \<longleftrightarrow> (\<exists>ss. shapes inp g = Some ss \<and> at_list ss x = Some sh)"

section \<open>Building well-shaped graphs\<close>

definition grows :: "shape \<Rightarrow> graph \<Rightarrow> graph \<Rightarrow> bool" where
  "grows inp g g' \<longleftrightarrow> (\<forall>x sh. tensor inp g x sh \<longrightarrow> tensor inp g' x sh)"

lemma grows_refl [simp]: "grows inp g g"
  by (simp add: grows_def)

lemma grows_trans: "grows inp g g' \<Longrightarrow> grows inp g' g'' \<Longrightarrow> grows inp g g''"
  by (simp add: grows_def)

lemma growsD: "grows inp g g' \<Longrightarrow> tensor inp g x sh \<Longrightarrow> tensor inp g' x sh"
  by (simp add: grows_def)

definition builds :: "shape \<Rightarrow> graph \<Rightarrow> nat build \<Rightarrow> shape \<Rightarrow> bool" where
  "builds inp g m sh \<longleftrightarrow>
     (case m g of (Inl e, g') \<Rightarrow> False | (Inr x, g') \<Rightarrow> grows inp g g' \<and> tensor inp g' x sh)"

lemma length_shapes: "shapes inp g = Some ss \<Longrightarrow> length ss = length g"
  unfolding shapes_def
  by (induction g arbitrary: ss rule: rev_induct) (auto simp: add_shape_def split: option.splits)

lemma shapes_snoc:
  "shapes inp g = Some ss \<Longrightarrow> op_shape inp ss x = Some sh \<Longrightarrow>
     shapes inp (g @ [(sc, x)]) = Some (ss @ [sh])"
  by (simp add: shapes_def add_shape_def)

lemma at_list_append: "at_list xs i = Some x \<Longrightarrow> at_list (xs @ ys) i = Some x"
  by (auto simp: at_list_def nth_append split: if_splits)

text \<open>One operation, whose shape follows from the shapes of its operands.\<close>

lemma builds_add_op:
  assumes "tensor inp g x sh"
    and "\<And>ss. (\<And>y s. tensor inp g y s \<Longrightarrow> at_list ss y = Some s) \<Longrightarrow> op_shape inp ss p = Some sh'"
  shows "builds inp g (add_op sc p) sh'"
proof -
  from assms(1) obtain ss where ss: "shapes inp g = Some ss" by (auto simp: tensor_def)
  then have "\<And>y s. tensor inp g y s \<Longrightarrow> at_list ss y = Some s" by (auto simp: tensor_def)
  then have "op_shape inp ss p = Some sh'" by (rule assms(2))
  note step = shapes_snoc [OF ss this]
  have "tensor inp (g @ [(sc, p)]) (length g) sh'"
    using step [of sc] length_shapes [OF ss] by (auto simp: tensor_def at_list_def nth_append)
  moreover have "grows inp g (g @ [(sc, p)])"
    using step [of sc] ss by (auto simp: tensor_def grows_def intro: at_list_append)
  ultimately show ?thesis by (simp add: builds_def add_op_def)
qed

lemma builds_bindp:
  assumes "builds inp g m sh"
    and "\<And>x g'. grows inp g g' \<Longrightarrow> tensor inp g' x sh \<Longrightarrow> builds inp g' (f x) sh'"
  shows "builds inp g (bindp m f) sh'"
proof -
  from assms(1) obtain x g' where m: "m g = (Inr x, g')" "grows inp g g'" "tensor inp g' x sh"
    by (auto simp: builds_def split: prod.splits sum.splits)
  from assms(2) [OF m(2,3)] m(1,2) show ?thesis
    by (auto simp: builds_def bindp_def split: prod.splits sum.splits intro: grows_trans)
qed

lemma builds_ret: "tensor inp g x sh \<Longrightarrow> builds inp g (ret x) sh"
  by (simp add: builds_def ret_def)

lemma builds_lift_sum: "r = Inr v \<Longrightarrow> builds inp g (bindp (lift_sum r) f) sh = builds inp g (f v) sh"
  by (simp add: builds_def bindp_def lift_sum_def)

end
