(* ===== verification/RateConfig.thy ===== *)
theory RateConfig
  imports Effects
begin

text \<open>
  The configuration files that carry the pruning rates from the detection of CALPA-NET to the
  builders of the pruned networks. A configuration is what \<^verbatim>\<open>RawConfigParser\<close> holds after reading a
  file: sections with options, in order; reading and writing the text of a file is the library's.
\<close>

type_synonym config = "(string \<times> (string \<times> string) list) list"

section \<open>The operations of RawConfigParser\<close>

definition no_section :: exn where
  "no_section = Exn OtherErr ''NoSectionError''"

definition no_option :: exn where
  "no_option = Exn OtherErr ''NoOptionError''"

definition cfg_get :: "config \<Rightarrow> string \<Rightarrow> string \<Rightarrow> exn + string" where
  "cfg_get cfg sec opt =
     (case map_of cfg sec of None \<Rightarrow> Inl no_section
      | Some opts \<Rightarrow> (case map_of opts opt of None \<Rightarrow> Inl no_option | Some v \<Rightarrow> Inr v))"

definition getfloat :: "pylib \<Rightarrow> config \<Rightarrow> string \<Rightarrow> string \<Rightarrow> exn + pyfloat" where
  "getfloat L cfg sec opt = (case cfg_get cfg sec opt of Inl e \<Rightarrow> Inl e | Inr s \<Rightarrow> str_float L s)"

section \<open>Reading the rates\<close>

definition layer_opt :: "int \<Rightarrow> string" where
  "layer_opt i = ''layer'' @ int_str i"

definition keep_rate :: "pylib \<Rightarrow> config \<Rightarrow> string \<Rightarrow> int \<Rightarrow> exn + pyfloat" where
  "keep_rate L cfg sec i =
     (case getfloat L cfg sec (layer_opt i) of Inl e \<Rightarrow> Inl e | Inr rate \<Rightarrow> Inr (1 - rate))"

text \<open>\<^verbatim>\<open>fill_pruned_rate\<close> of the SRNet task.\<close>

definition fill_pruned_rate :: "pylib \<Rightarrow> config \<Rightarrow> exn + pyfloat list \<times> pyfloat list" where
  "fill_pruned_rate L cfg =
     (case collect (keep_rate L cfg ''Thinet_rate'') (py_range 3 13 1) of Inl e \<Rightarrow> Inl e | Inr thinet \<Rightarrow>
     (case collect (keep_rate L cfg ''L1_rate'') (py_range 8 13 1) of Inl e \<Rightarrow> Inl e | Inr l1 \<Rightarrow>
      Inr (thinet, l1)))"

text \<open>The two readers of the XuNet task.\<close>

definition block_rate :: "string \<Rightarrow> int \<Rightarrow> string" where
  "block_rate kind i = kind @ ''_block'' @ int_str i"

definition fill_pruned_thinet_rate :: "pylib \<Rightarrow> config \<Rightarrow> exn + pyfloat list" where
  "fill_pruned_thinet_rate L cfg =
     collect (\<lambda>(i, j). getfloat L cfg (block_rate ''rate'' i) (layer_opt j))
       (concat (map (\<lambda>i. map (\<lambda>j. (i, j)) (py_range 1 3 1)) (py_range 2 6 1)))"

definition fill_pruned_li_rate :: "pylib \<Rightarrow> config \<Rightarrow> exn + pyfloat list" where
  "fill_pruned_li_rate L cfg =
     collect (\<lambda>i. getfloat L cfg (block_rate ''rate'' i) (layer_opt 1)) (py_range 2 6 1)"

lemma fill_pruned_rate_lengths:
  "fill_pruned_rate L cfg = Inr (thinet, l1) \<Longrightarrow> length thinet = 10 \<and> length l1 = 5"
  unfolding fill_pruned_rate_def
  by (auto split: sum.splits dest!: collect_length simp: py_range_def)

section \<open>The shipped configuration\<close>

definition threshold05_cfg :: config where
  "threshold05_cfg =
    [(''Thinet_rate'', [(''layer3'', ''0.1''), (''layer4'', ''0.5''), (''layer5'', ''0.5''),
       (''layer6'', ''0.4''), (''layer7'', ''0.05''), (''layer8'', ''0.15''), (''layer9'', ''0.75''),
       (''layer10'', ''0.85''), (''layer11'', ''0.9''), (''layer12'', ''0.95'')]),
     (''Thinet_acc'', [(''layer3'', ''0.86900014''), (''layer4'', ''0.88179994''), (''layer5'', ''0.8835003''),
       (''layer6'', ''0.8929998''), (''layer7'', ''0.90060014''), (''layer8'', ''0.87299997''),
       (''layer9'', ''0.9033001''), (''layer10'', ''0.9030001''), (''layer11'', ''0.87920004''),
       (''layer12'', ''0.8711997'')]),
     (''L1_rate'', [(''layer8'', ''0.1''), (''layer9'', ''0.7''), (''layer10'', ''0.85''),
       (''layer11'', ''0.9''), (''layer12'', ''0.95'')]),
     (''L1_acc'', [(''layer8'', ''0.9031001''), (''layer9'', ''0.88430035''), (''layer10'', ''0.8960999''),
       (''layer11'', ''0.8961''), (''layer12'', ''0.9085002'')])]"

lemma threshold05_rates:
  "fill_pruned_rate ref_lib threshold05_cfg =
     Inr ([9/10, 1/2, 1/2, 3/5, 19/20, 17/20, 1/4, 3/20, 1/10, 1/20], [9/10, 3/10, 3/20, 1/10, 1/20])"
  by code_simp

end
