(* ===== verification/CalpaNet.thy ===== *)
theory CalpaNet
  imports NetGraph RateConfig
begin

text \<open>
  The networks of CALPA-NET: SRNet and XuNet2 as their models build them, the pruned ones of the
  tasks, and the port of the pruned SRNet in the worker of the MITM gateway. A builder has the
  data format and the training flag of its \<^verbatim>\<open>arg_scope\<close>, and whether its input is float already (a
  cast to the type a tensor has is the tensor itself).
\<close>

record scope_args =
  fmt :: data_format
  training :: bool

section \<open>Layers of SRNet\<close>

definition conv2d :: "scope_args \<Rightarrow> string \<Rightarrow> nat \<Rightarrow> int \<Rightarrow> int \<Rightarrow> int \<Rightarrow> nat build" where
  "conv2d A sc x n k s = add_op sc (Conv2d x n k s (fmt A))"

definition batch_norm :: "scope_args \<Rightarrow> string \<Rightarrow> nat \<Rightarrow> nat build" where
  "batch_norm A sc x = add_op sc (BatchNorm x (training A) (fmt A))"

definition norm_relu :: "scope_args \<Rightarrow> string \<Rightarrow> nat \<Rightarrow> nat build" where
  "norm_relu A sc x = bindp (batch_norm A sc x) (\<lambda>y. add_op sc (Relu y))"

definition avg_pool2d :: "scope_args \<Rightarrow> string \<Rightarrow> nat \<Rightarrow> nat build" where
  "avg_pool2d A sc x = add_op sc (AvgPool x 3 2 Same (fmt A))"

text \<open>\<^verbatim>\<open>tf.cast(..., tf.float32)\<close>, after the transposition for NCHW.\<close>

definition cast_float :: "bool \<Rightarrow> nat \<Rightarrow> nat build" where
  "cast_float float_input x = (if float_input then ret x else add_op [] (Cast x))"

definition cast_input :: "scope_args \<Rightarrow> bool \<Rightarrow> nat \<Rightarrow> nat build" where
  "cast_input A float_input x =
     (case fmt A of NCHW \<Rightarrow> bindp (add_op [] (Transpose x [0, 3, 1, 2])) (cast_float float_input)
      | NHWC \<Rightarrow> cast_float float_input x)"

definition reduction_axis :: "scope_args \<Rightarrow> nat list" where
  "reduction_axis A = (case fmt A of NCHW \<Rightarrow> [2, 3] | NHWC \<Rightarrow> [1, 2])"

text \<open>Layer 1 and 2, the residual layers 3 to 7, the downscaling layers 8 to 11, layer 12.\<close>

definition plain_layer :: "scope_args \<Rightarrow> string \<Rightarrow> int \<Rightarrow> nat \<Rightarrow> nat build" where
  "plain_layer A sc n x = bindp (conv2d A sc x n 3 1) (norm_relu A sc)"

definition residual_layer :: "scope_args \<Rightarrow> string \<Rightarrow> int \<Rightarrow> nat \<Rightarrow> nat build" where
  "residual_layer A sc n prev =
     bindp (plain_layer A sc n prev) (\<lambda>actv1.
     bindp (conv2d A sc actv1 16 3 1) (\<lambda>conv2.
     bindp (batch_norm A sc conv2) (\<lambda>bn.
     add_op sc (Add prev bn))))"

definition shortcut :: "scope_args \<Rightarrow> string \<Rightarrow> int \<Rightarrow> nat \<Rightarrow> nat build" where
  "shortcut A sc n prev = bindp (conv2d A sc prev n 1 2) (batch_norm A sc)"

definition main_branch :: "scope_args \<Rightarrow> string \<Rightarrow> int \<Rightarrow> nat \<Rightarrow> nat build" where
  "main_branch A sc n actv1 =
     bindp (conv2d A sc actv1 n 3 1) (\<lambda>conv2.
     bindp (batch_norm A sc conv2) (\<lambda>bn.
     avg_pool2d A sc bn))"

definition down_layer :: "scope_args \<Rightarrow> string \<Rightarrow> int \<Rightarrow> int \<Rightarrow> nat \<Rightarrow> nat build" where
  "down_layer A sc n_out n_mid prev =
     bindp (shortcut A sc n_out prev) (\<lambda>convs.
     bindp (plain_layer A sc n_mid prev) (\<lambda>actv1.
     bindp (main_branch A sc n_out actv1) (\<lambda>pool.
     add_op sc (Add convs pool))))"

definition last_layer :: "scope_args \<Rightarrow> string \<Rightarrow> int \<Rightarrow> int \<Rightarrow> nat \<Rightarrow> nat build" where
  "last_layer A sc n_mid n_out prev =
     bindp (plain_layer A sc n_mid prev) (\<lambda>actv1.
     bindp (conv2d A sc actv1 n_out 3 1) (\<lambda>conv2.
     bindp (batch_norm A sc conv2) (\<lambda>bn.
     add_op sc (ReduceMean bn (reduction_axis A)))))"

definition output_head :: "nat \<Rightarrow> nat build" where
  "output_head avgp = bindp (add_op [] (Flatten avgp)) (\<lambda>flat. add_op ''ip'' (Dense flat 2))"

section \<open>SRNet\<close>

definition srnet :: "scope_args \<Rightarrow> bool \<Rightarrow> nat \<Rightarrow> nat build" where
  "srnet A float_input inputs =
     bindp (cast_input A float_input inputs) (\<lambda>x.
     bindp (plain_layer A ''Layer1'' 64 x) (\<lambda>x.
     bindp (plain_layer A ''Layer2'' 16 x) (\<lambda>x.
     bindp (residual_layer A ''Layer3'' 16 x) (\<lambda>x.
     bindp (residual_layer A ''Layer4'' 16 x) (\<lambda>x.
     bindp (residual_layer A ''Layer5'' 16 x) (\<lambda>x.
     bindp (residual_layer A ''Layer6'' 16 x) (\<lambda>x.
     bindp (residual_layer A ''Layer7'' 16 x) (\<lambda>x.
     bindp (down_layer A ''Layer8'' 16 16 x) (\<lambda>x.
     bindp (down_layer A ''Layer9'' 64 64 x) (\<lambda>x.
     bindp (down_layer A ''Layer10'' 128 128 x) (\<lambda>x.
     bindp (down_layer A ''Layer11'' 256 256 x) (\<lambda>x.
     bindp (last_layer A ''Layer12'' 512 512 x)
     output_head))))))))))))"

section \<open>The pruned SRNet of the task\<close>

text \<open>\<^verbatim>\<open>int(base * rates[i])\<close>\<close>

definition kept :: "int \<Rightarrow> pyfloat list \<Rightarrow> int \<Rightarrow> int build" where
  "kept base rates i = bindp (lift_sum (py_nth rates i)) (\<lambda>r. ret (py_trunc (of_int base * r)))"

definition pruned_residual :: "scope_args \<Rightarrow> pyfloat list \<Rightarrow> string \<Rightarrow> int \<Rightarrow> nat \<Rightarrow> nat build" where
  "pruned_residual A thinet sc i prev = bindp (kept 16 thinet i) (\<lambda>n. residual_layer A sc n prev)"

definition pruned_down :: "scope_args \<Rightarrow> pyfloat list \<Rightarrow> pyfloat list \<Rightarrow> string \<Rightarrow> int \<Rightarrow> int \<Rightarrow> int
    \<Rightarrow> nat \<Rightarrow> nat build" where
  "pruned_down A thinet l1 sc base i j prev =
     bindp (kept base l1 j) (\<lambda>n_s.
     bindp (shortcut A sc n_s prev) (\<lambda>convs.
     bindp (kept base thinet i) (\<lambda>n_mid.
     bindp (plain_layer A sc n_mid prev) (\<lambda>actv1.
     bindp (kept base l1 j) (\<lambda>n_out.
     bindp (main_branch A sc n_out actv1) (\<lambda>pool.
     add_op sc (Add convs pool)))))))"

definition pruned_last :: "scope_args \<Rightarrow> pyfloat list \<Rightarrow> pyfloat list \<Rightarrow> nat \<Rightarrow> nat build" where
  "pruned_last A thinet l1 prev =
     bindp (kept 512 thinet 9) (\<lambda>n_mid.
     bindp (plain_layer A ''Layer12'' n_mid prev) (\<lambda>actv1.
     bindp (kept 512 l1 4) (\<lambda>n_out.
     bindp (conv2d A ''Layer12'' actv1 n_out 3 1) (\<lambda>conv2.
     bindp (batch_norm A ''Layer12'' conv2) (\<lambda>bn.
     add_op ''Layer12'' (ReduceMean bn (reduction_axis A)))))))"

definition srnet_pruned :: "scope_args \<Rightarrow> bool \<Rightarrow> pyfloat list \<Rightarrow> pyfloat list \<Rightarrow> nat \<Rightarrow> nat build" where
  "srnet_pruned A float_input thinet l1 inputs =
     bindp (cast_input A float_input inputs) (\<lambda>x.
     bindp (plain_layer A ''Layer1'' 64 x) (\<lambda>x.
     bindp (plain_layer A ''Layer2'' 16 x) (\<lambda>x.
     bindp (pruned_residual A thinet ''Layer3'' 0 x) (\<lambda>x.
     bindp (pruned_residual A thinet ''Layer4'' 1 x) (\<lambda>x.
     bindp (pruned_residual A thinet ''Layer5'' 2 x) (\<lambda>x.
     bindp (pruned_residual A thinet ''Layer6'' 3 x) (\<lambda>x.
     bindp (pruned_residual A thinet ''Layer7'' 4 x) (\<lambda>x.
     bindp (pruned_down A thinet l1 ''Layer8'' 16 5 0 x) (\<lambda>x.
     bindp (pruned_down A thinet l1 ''Layer9'' 64 6 1 x) (\<lambda>x.
     bindp (pruned_down A thinet l1 ''Layer10'' 128 7 2 x) (\<lambda>x.
     bindp (pruned_down A thinet l1 ''Layer11'' 256 8 3 x) (\<lambda>x.
     bindp (pruned_last A thinet l1 x)
     output_head))))))))))))"

section \<open>The worker's port\<close>

text \<open>The layers 3 to 7 and 8 to 11 are loops; \<open>(i, layer_idx)\<close> comes from \<^verbatim>\<open>enumerate\<close>.\<close>

definition layer_scope :: "int \<Rightarrow> string" where
  "layer_scope i = ''Layer'' @ int_str i"

definition worker_args :: scope_args where
  "worker_args = \<lparr>fmt = NHWC, training = False\<rparr>"

definition worker_residual :: "pyfloat list \<Rightarrow> nat \<Rightarrow> int \<times> int \<Rightarrow> nat build" where
  "worker_residual thinet_save prev p = (case p of (i, layer_idx) \<Rightarrow>
     bindp (kept 16 thinet_save i) (\<lambda>n.
     residual_layer worker_args (layer_scope layer_idx) n prev))"

definition base_out :: "(int \<times> int) list" where
  "base_out = [(8, 16), (9, 64), (10, 128), (11, 256)]"

definition worker_down :: "pyfloat list \<Rightarrow> pyfloat list \<Rightarrow> nat \<Rightarrow> int \<times> int \<Rightarrow> nat build" where
  "worker_down thinet_save l1_save prev p = (case p of (j, layer_idx) \<Rightarrow>
     let t_idx = layer_idx - 3
     in bindp (lift_sum (dict_item base_out layer_idx)) (\<lambda>base.
        bindp (kept base l1_save j) (\<lambda>out_ch.
        bindp (kept base thinet_save t_idx) (\<lambda>th_ch.
        down_layer worker_args (layer_scope layer_idx) out_ch th_ch prev))))"

definition build_pruned_srnet :: "pyfloat list \<Rightarrow> pyfloat list \<Rightarrow> nat \<Rightarrow> nat build" where
  "build_pruned_srnet thinet_save l1_save ph_input =
     bindp (plain_layer worker_args ''Layer1'' 64 ph_input) (\<lambda>prev.
     bindp (plain_layer worker_args ''Layer2'' 16 prev) (\<lambda>prev.
     bindp (foldp (worker_residual thinet_save) prev (zip [0..4] (py_range 3 8 1))) (\<lambda>prev.
     bindp (foldp (worker_down thinet_save l1_save) prev (zip [0..3] (py_range 8 12 1))) (\<lambda>prev.
     bindp (kept 512 thinet_save 9) (\<lambda>th12.
     bindp (kept 512 l1_save 4) (\<lambda>l1_12.
     bindp (last_layer worker_args ''Layer12'' th12 l1_12 prev)
     output_head))))))"

section \<open>Laws of builders\<close>

declare bindp_ret [simp] bindp_ret_right [simp]

lemma lift_sum_Inr [simp]: "lift_sum (Inr x) = ret x"
  by (rule ext) (simp add: lift_sum_def ret_def)

lemma kept_nth:
  "0 \<le> i \<Longrightarrow> nat i < length rates \<Longrightarrow>
     kept base rates i = ret (py_trunc (of_int base * rates ! nat i))"
  by (simp add: kept_def py_nth_def)

lemma layer_scopes:
  "layer_scope 3 = ''Layer3''" "layer_scope 4 = ''Layer4''" "layer_scope 5 = ''Layer5''"
  "layer_scope 6 = ''Layer6''" "layer_scope 7 = ''Layer7''" "layer_scope 8 = ''Layer8''"
  "layer_scope 9 = ''Layer9''" "layer_scope 10 = ''Layer10''" "layer_scope 11 = ''Layer11''"
  by (simp_all add: layer_scope_def print_defs)

lemma worker_loops:
  "zip [0..4] (py_range 3 8 1) = [(0, 3), (1, 4), (2, 5), (3, 6), (4, 7)]"
  "zip [0..3] (py_range 8 12 1) = [(0, 8), (1, 9), (2, 10), (3, 11)]"
  by code_simp+

lemma base_outs:
  "dict_item base_out 8 = Inr 16" "dict_item base_out 9 = Inr 64"
  "dict_item base_out 10 = Inr 128" "dict_item base_out 11 = Inr 256"
  by (simp_all add: dict_item_def base_out_def)

lemma worker_is_pruned:
  assumes "length thinet = 10" and "length l1 = 5"
  shows "build_pruned_srnet thinet l1 x = srnet_pruned worker_args True thinet l1 x"
  using assms
  by (simp add: build_pruned_srnet_def srnet_pruned_def worker_loops worker_residual_def worker_down_def
      layer_scopes base_outs kept_nth bindp_assoc cast_input_def cast_float_def worker_args_def
      pruned_residual_def pruned_down_def pruned_last_def down_layer_def last_layer_def Let_def)

lemma worker_builds_pruned:
  "length thinet = 10 \<Longrightarrow> length l1 = 5 \<Longrightarrow>
     build_pruned_srnet thinet l1 = srnet_pruned worker_args True thinet l1"
  by (rule ext) (rule worker_is_pruned)

lemma pruned_is_srnet:
  "srnet_pruned A fl (replicate 10 1) (replicate 5 1) x = srnet A fl x"
  by (simp add: srnet_def srnet_pruned_def kept_nth bindp_assoc py_trunc_def
      pruned_residual_def pruned_down_def pruned_last_def down_layer_def last_layer_def)

section \<open>Shapes\<close>

definition img :: "scope_args \<Rightarrow> int \<Rightarrow> int \<Rightarrow> int \<Rightarrow> int \<Rightarrow> shape" where
  "img A b h w c = (case fmt A of NHWC \<Rightarrow> [b, h, w, c] | NCHW \<Rightarrow> [b, c, h, w])"

lemma same_size_1 [simp]: "same_size h 1 = h"
  by (simp add: same_size_def)

lemma same_size_pos: "1 \<le> h \<Longrightarrow> 1 \<le> s \<Longrightarrow> 1 \<le> same_size h s"
  using zdiv_mono1 [of s "h + s - 1" s] by (simp add: same_size_def)

lemma builds_conv2d:
  assumes "tensor inp g x (img A b h w c)" and "1 \<le> h" "1 \<le> w" "1 \<le> n" "1 \<le> s"
  shows "builds inp g (conv2d A sc x n k s) (img A b (same_size h s) (same_size w s) n)"
  unfolding conv2d_def
  using assms same_size_pos [of h s] same_size_pos [of w s]
  by (intro builds_add_op [OF assms(1)])
    (auto simp: img_def if_shape_def window_shape_def window_def split: data_format.splits)

lemma builds_batch_norm:
  assumes "tensor inp g x (img A b h w c)"
  shows "builds inp g (batch_norm A sc x) (img A b h w c)"
  unfolding batch_norm_def using assms
  by (intro builds_add_op [OF assms(1)]) (auto simp: img_def if_shape_def split: data_format.splits)

lemma builds_relu: "tensor inp g x sh \<Longrightarrow> builds inp g (add_op sc (Relu x)) sh"
  by (rule builds_add_op) auto

lemma builds_add: "tensor inp g x sh \<Longrightarrow> tensor inp g y sh \<Longrightarrow> builds inp g (add_op sc (Add x y)) sh"
  by (rule builds_add_op) (auto simp: if_shape_def)

lemma builds_norm_relu: "tensor inp g x (img A b h w c) \<Longrightarrow> builds inp g (norm_relu A sc x) (img A b h w c)"
  unfolding norm_relu_def by (rule builds_bindp [OF builds_batch_norm builds_relu])

lemma builds_avg_pool:
  assumes "tensor inp g x (img A b h w c)" and "1 \<le> h" "1 \<le> w"
  shows "builds inp g (avg_pool2d A sc x) (img A b (same_size h 2) (same_size w 2) c)"
  unfolding avg_pool2d_def
  using assms same_size_pos [of h 2] same_size_pos [of w 2]
  by (intro builds_add_op [OF assms(1)])
    (auto simp: img_def if_shape_def window_shape_def window_def split: data_format.splits)

lemma builds_plain:
  assumes "tensor inp g x (img A b h w c)" and "1 \<le> h" "1 \<le> w" "1 \<le> n"
  shows "builds inp g (plain_layer A sc n x) (img A b h w n)"
  unfolding plain_layer_def
  using builds_bindp [OF builds_conv2d [OF assms, of 1 sc 3] builds_norm_relu] by simp

lemma builds_residual:
  assumes "tensor inp g x (img A b h w 16)" and "1 \<le> h" "1 \<le> w" "1 \<le> n"
  shows "builds inp g (residual_layer A sc n x) (img A b h w 16)"
  unfolding residual_layer_def
proof (rule builds_bindp [OF builds_plain [OF assms]])
  fix a g1
  assume 1: "grows inp g g1" "tensor inp g1 a (img A b h w n)"
  have c: "builds inp g1 (conv2d A sc a 16 3 1) (img A b h w 16)"
    using builds_conv2d [OF 1(2) assms(2,3), of 16 1 sc 3] by simp
  show "builds inp g1 (bindp (conv2d A sc a 16 3 1) (\<lambda>conv2. bindp (batch_norm A sc conv2)
      (\<lambda>bn. add_op sc (Add x bn)))) (img A b h w 16)"
    by (rule builds_bindp [OF c] builds_bindp [OF builds_batch_norm] builds_add
        | assumption | blast intro: growsD [OF 1(1) assms(1)] growsD)+
qed

lemma builds_shortcut:
  assumes "tensor inp g x (img A b h w c)" and "1 \<le> h" "1 \<le> w" "1 \<le> n"
  shows "builds inp g (shortcut A sc n x) (img A b (same_size h 2) (same_size w 2) n)"
  unfolding shortcut_def
  by (rule builds_bindp [OF builds_conv2d [OF assms] builds_batch_norm]) simp_all

lemma builds_main_branch:
  assumes "tensor inp g x (img A b h w c)" and "1 \<le> h" "1 \<le> w" "1 \<le> n"
  shows "builds inp g (main_branch A sc n x) (img A b (same_size h 2) (same_size w 2) n)"
proof -
  have c: "builds inp g (conv2d A sc x n 3 1) (img A b h w n)"
    using builds_conv2d [OF assms, of 1 sc 3] by simp
  show ?thesis
    unfolding main_branch_def
    by (rule builds_bindp [OF c] builds_bindp [OF builds_batch_norm] builds_avg_pool | assumption | rule assms)+
qed

lemma builds_down:
  assumes "tensor inp g x (img A b h w c)" and "1 \<le> h" "1 \<le> w" "1 \<le> n" "1 \<le> m"
  shows "builds inp g (down_layer A sc n m x) (img A b (same_size h 2) (same_size w 2) n)"
  unfolding down_layer_def
proof (rule builds_bindp [OF builds_shortcut [OF assms(1-4)]])
  fix s g1
  assume 1: "grows inp g g1" "tensor inp g1 s (img A b (same_size h 2) (same_size w 2) n)"
  show "builds inp g1 (bindp (plain_layer A sc m x) (\<lambda>actv1. bindp (main_branch A sc n actv1)
      (\<lambda>pool. add_op sc (Add s pool)))) (img A b (same_size h 2) (same_size w 2) n)"
  proof (rule builds_bindp [OF builds_plain [OF growsD [OF 1(1) assms(1)] assms(2,3,5)]])
    fix a g2
    assume 2: "grows inp g1 g2" "tensor inp g2 a (img A b h w m)"
    show "builds inp g2 (bindp (main_branch A sc n a) (\<lambda>pool. add_op sc (Add s pool)))
        (img A b (same_size h 2) (same_size w 2) n)"
      by (rule builds_bindp [OF builds_main_branch [OF 2(2) assms(2-4)]])
        (blast intro: builds_add growsD 1(2) 2(1))
  qed
qed

lemma builds_last:
  assumes "tensor inp g x (img A b h w c)" and "1 \<le> h" "1 \<le> w" "1 \<le> n" "1 \<le> m"
  shows "builds inp g (last_layer A sc n m x) (img A b 1 1 m)"
  unfolding last_layer_def
proof (rule builds_bindp [OF builds_plain [OF assms(1-4)]])
  fix a g1
  assume 1: "grows inp g g1" "tensor inp g1 a (img A b h w n)"
  have c: "builds inp g1 (conv2d A sc a m 3 1) (img A b h w m)"
    using builds_conv2d [OF 1(2) assms(2,3,5), of 1 sc 3] by simp
  have r: "builds inp g' (add_op sc (ReduceMean y (reduction_axis A))) (img A b 1 1 m)"
    if "tensor inp g' y (img A b h w m)" for g' y
    using that by (intro builds_add_op [OF that])
      (auto simp: if_shape_def img_def reduction_axis_def split: data_format.splits)
  show "builds inp g1 (bindp (conv2d A sc a m 3 1) (\<lambda>conv2. bindp (batch_norm A sc conv2)
      (\<lambda>bn. add_op sc (ReduceMean bn (reduction_axis A))))) (img A b 1 1 m)"
    by (rule builds_bindp [OF c] builds_bindp [OF builds_batch_norm] r | assumption)+
qed

lemma builds_head:
  assumes "tensor inp g x (img A b 1 1 m)" and "1 \<le> m"
  shows "builds inp g (output_head x) [b, 2]"
proof -
  have f: "builds inp g (add_op [] (Flatten x)) [b, m]"
    using assms(1)
    by (intro builds_add_op [OF assms(1)]) (auto simp: if_shape_def img_def split: data_format.splits)
  show ?thesis
    unfolding output_head_def
  proof (rule builds_bindp [OF f])
    fix y g' assume y: "tensor inp g' y [b, m]"
    then show "builds inp g' (add_op ''ip'' (Dense y 2)) [b, 2]"
      using assms(2) by (intro builds_add_op [OF y]) (auto simp: if_shape_def)
  qed
qed

lemma builds_cast_input:
  assumes "tensor inp g x [b, h, w, c]"
  shows "builds inp g (cast_input A fl x) (img A b h w c)"
proof -
  have c: "builds inp g' (cast_float fl y) sh" if "tensor inp g' y sh" for g' y sh
    using that by (auto simp: cast_float_def intro!: builds_ret builds_add_op)
  show ?thesis
  proof (cases "fmt A")
    case NHWC
    with c [OF assms] show ?thesis by (simp add: cast_input_def img_def)
  next
    case NCHW
    have t: "builds inp g (add_op [] (Transpose x [0, 3, 1, 2])) [b, c, h, w]"
      using assms by (intro builds_add_op [OF assms]) (auto simp: if_shape_def)
    from NCHW builds_bindp [OF t c] show ?thesis by (simp add: cast_input_def img_def)
  qed
qed

text \<open>Every layer keeps a channel.\<close>

definition keeps_some :: "pyfloat list \<Rightarrow> pyfloat list \<Rightarrow> bool" where
  "keeps_some thinet l1 \<longleftrightarrow> length thinet = 10 \<and> length l1 = 5
     \<and> list_all (\<lambda>(base, r). 1 \<le> py_trunc (of_int base * r))
         (zip [16, 16, 16, 16, 16, 16, 64, 128, 256, 512] thinet @ zip [16, 64, 128, 256, 512] l1)"

lemma pruned_down_eq:
  "0 \<le> i \<Longrightarrow> nat i < length thinet \<Longrightarrow> 0 \<le> j \<Longrightarrow> nat j < length l1 \<Longrightarrow>
   pruned_down A thinet l1 sc base i j prev =
     down_layer A sc (py_trunc (of_int base * l1 ! nat j)) (py_trunc (of_int base * thinet ! nat i)) prev"
  by (simp add: pruned_down_def kept_nth down_layer_def)

lemma pruned_last_eq:
  "9 < length thinet \<Longrightarrow> 4 < length l1 \<Longrightarrow>
   pruned_last A thinet l1 prev =
     last_layer A ''Layer12'' (py_trunc (512 * thinet ! 9)) (py_trunc (512 * l1 ! 4)) prev"
  by (simp add: pruned_last_def kept_nth last_layer_def)

lemma pruned_residual_eq:
  "0 \<le> i \<Longrightarrow> nat i < length thinet \<Longrightarrow>
   pruned_residual A thinet sc i prev = residual_layer A sc (py_trunc (16 * thinet ! nat i)) prev"
  by (simp add: pruned_residual_def kept_nth)

lemma length_10: "length xs = 10 \<Longrightarrow> \<exists>a b c d e f g h i j. xs = [a, b, c, d, e, f, g, h, i, j]"
  by (auto simp: length_Suc_conv numeral_eq_Suc)

lemma length_5: "length xs = 5 \<Longrightarrow> \<exists>a b c d e. xs = [a, b, c, d, e]"
  by (auto simp: length_Suc_conv numeral_eq_Suc)

lemma keeps_some_nth:
  assumes "keeps_some thinet l1"
  shows "1 \<le> py_trunc (16 * thinet ! 0)" "1 \<le> py_trunc (16 * thinet ! 1)" "1 \<le> py_trunc (16 * thinet ! 2)"
    "1 \<le> py_trunc (16 * thinet ! 3)" "1 \<le> py_trunc (16 * thinet ! 4)" "1 \<le> py_trunc (16 * thinet ! 5)"
    "1 \<le> py_trunc (64 * thinet ! 6)" "1 \<le> py_trunc (128 * thinet ! 7)" "1 \<le> py_trunc (256 * thinet ! 8)"
    "1 \<le> py_trunc (512 * thinet ! 9)" "1 \<le> py_trunc (16 * l1 ! 0)" "1 \<le> py_trunc (64 * l1 ! 1)"
    "1 \<le> py_trunc (128 * l1 ! 2)" "1 \<le> py_trunc (256 * l1 ! 3)" "1 \<le> py_trunc (512 * l1 ! 4)"
  using assms length_10 [of thinet] length_5 [of l1] unfolding keeps_some_def by auto

lemma builds_front:
  assumes "tensor inp g x [b, h, w, c]" and "1 \<le> h" "1 \<le> w"
    and "\<And>g' y. tensor inp g' y (img A b h w 16) \<Longrightarrow> builds inp g' (f y) sh"
  shows "builds inp g (bindp (cast_input A fl x) (\<lambda>x. bindp (plain_layer A ''Layer1'' 64 x) (\<lambda>x.
     bindp (plain_layer A ''Layer2'' 16 x) f))) sh"
  by (rule builds_bindp [OF builds_cast_input [OF assms(1)]]
      builds_bindp [OF builds_plain] assms(4) | assumption | rule assms | simp)+

lemma builds_srnet_pruned:
  assumes x: "tensor inp g x [b, h, w, c]" and hw: "1 \<le> h" "1 \<le> w" and k: "keeps_some thinet l1"
  shows "builds inp g (srnet_pruned A fl thinet l1 x) [b, 2]"
proof -
  from k have len: "length thinet = 10" "length l1 = 5" by (simp_all add: keeps_some_def)
  note ks = keeps_some_nth [OF k, unfolded One_nat_def]
  have hs: "1 \<le> h' \<Longrightarrow> 1 \<le> same_size h' 2" for h'
    by (simp add: same_size_pos)
  show ?thesis
    unfolding srnet_pruned_def
    by (simp add: len pruned_residual_eq pruned_down_eq pruned_last_eq, rule builds_front [OF x hw])
      (rule builds_bindp [OF builds_residual] builds_bindp [OF builds_down] builds_bindp [OF builds_last]
        builds_head hw hs ks | assumption)+
qed

end
