(* ===== verification/XuNet.thy ===== *)
theory XuNet
  imports CalpaNet
begin

text \<open>
  XuNet2 and its pruned version. The kernels are variables of a given shape here, so a wrong channel
  count is an ill-shaped graph and not a default. \<^verbatim>\<open>get_shape\<close> of the dense layer reads the static
  shape, so the builders take the shape of the input.
\<close>

section \<open>Layers\<close>

definition dct_layer :: "nat \<Rightarrow> nat build" where
  "dct_layer x =
     bindp (add_op [] (ConvKernel x [4, 4, 1, 16] 1 Valid)) (\<lambda>conv.
     bindp (add_op [] (Abs conv)) (\<lambda>dct.
     bindp (add_op [] (Neg dct)) (\<lambda>n.
     bindp (add_op [] (AddConst n 8)) (\<lambda>a.
     bindp (add_op [] (Relu a)) (\<lambda>r.
     bindp (add_op [] (AddConst r (-8))) (\<lambda>t.
     add_op [] (Neg t)))))))"

definition conv_bn :: "string \<Rightarrow> nat \<Rightarrow> int \<Rightarrow> int \<Rightarrow> int \<Rightarrow> bool \<Rightarrow> nat build" where
  "conv_bn sc x channels_in channels_out step istrain =
     bindp (add_op sc (ConvKernel x [3, 3, channels_in, channels_out] step Same)) (\<lambda>conv.
     add_op sc (BatchNorm conv istrain NHWC))"

definition conv_layer :: "string \<Rightarrow> nat \<Rightarrow> int \<Rightarrow> int \<Rightarrow> bool \<Rightarrow> nat build" where
  "conv_layer sc x channels_in channels_out istrain =
     bindp (conv_bn sc x channels_in channels_out 1 istrain) (\<lambda>bn. add_op sc (Relu bn))"

definition conv_layer_s :: "string \<Rightarrow> nat \<Rightarrow> int \<Rightarrow> int \<Rightarrow> bool \<Rightarrow> nat build" where
  "conv_layer_s sc x channels_in channels_out istrain = conv_bn sc x channels_in channels_out 2 istrain"

definition conv_layer_m :: "string \<Rightarrow> nat \<Rightarrow> nat \<Rightarrow> int \<Rightarrow> int \<Rightarrow> int \<Rightarrow> bool \<Rightarrow> nat build" where
  "conv_layer_m sc x bn_s channels_in channels_out step istrain =
     bindp (conv_bn sc x channels_in channels_out step istrain) (\<lambda>bn.
     bindp (add_op sc (Add bn bn_s)) (\<lambda>a. add_op sc (Relu a)))"

definition scope_in :: "string \<Rightarrow> string \<Rightarrow> string" where
  "scope_in block nm = block @ ''/'' @ nm"

definition conv_block :: "string \<Rightarrow> nat \<Rightarrow> int \<Rightarrow> int \<Rightarrow> int \<Rightarrow> bool \<Rightarrow> nat build" where
  "conv_block sc x channels_in channels_out_1 channels_out_2 istrain =
     bindp (conv_layer (scope_in sc ''layer_1'') x channels_in channels_out_1 istrain) (\<lambda>relu_1.
     bindp (conv_layer_s (scope_in sc ''layer_s'') x channels_in channels_out_2 istrain) (\<lambda>bn_s.
     bindp (conv_layer_m (scope_in sc ''layer_m_1'') relu_1 bn_s channels_out_1 channels_out_2 2 istrain) (\<lambda>relu_2.
     bindp (conv_layer (scope_in sc ''layer_2'') relu_2 channels_out_2 channels_out_2 istrain) (\<lambda>relu_3.
     conv_layer_m (scope_in sc ''layer_m_2'') relu_3 relu_2 channels_out_2 channels_out_2 1 istrain))))"

text \<open>\<^verbatim>\<open>input.get_shape()\<close>, and its fields 1 to 3.\<close>

definition get_shape :: "shape \<Rightarrow> nat \<Rightarrow> shape build" where
  "get_shape inp x = bindp (getp (shapes inp)) (\<lambda>ss.
     lift_sum (case ss of None \<Rightarrow> Inl (Exn ValueError ''shape'')
       | Some l \<Rightarrow> (case at_list l x of None \<Rightarrow> Inl (Exn ValueError ''shape'') | Some sh \<Rightarrow> Inr sh)))"

definition dense_layer :: "shape \<Rightarrow> nat \<Rightarrow> nat build" where
  "dense_layer inp x =
     bindp (get_shape inp x) (\<lambda>pool_shape.
     bindp (add_op ''dense'' (Flatten x)) (\<lambda>pool_reshape.
     bindp (lift_sum (py_nth pool_shape 1)) (\<lambda>p1.
     bindp (lift_sum (py_nth pool_shape 2)) (\<lambda>p2.
     bindp (lift_sum (py_nth pool_shape 3)) (\<lambda>p3.
     bindp (add_op ''dense'' (MatMul pool_reshape (p1 * p2 * p3) 2)) (\<lambda>y.
     add_op ''dense'' (BiasAdd y 2)))))))"

definition pool_layer :: "nat \<Rightarrow> nat build" where
  "pool_layer x = add_op [] (AvgPool x 8 1 Valid NHWC)"

section \<open>XuNet2\<close>

definition xunet :: "shape \<Rightarrow> nat \<Rightarrow> nat build" where
  "xunet inp inputs =
     bindp (dct_layer inputs) (\<lambda>res.
     bindp (conv_block ''block_1'' res 16 12 24 True) (\<lambda>res.
     bindp (conv_block ''block_2'' res 24 24 48 True) (\<lambda>res.
     bindp (conv_block ''block_3'' res 48 48 96 True) (\<lambda>res.
     bindp (conv_block ''block_4'' res 96 96 192 True) (\<lambda>res.
     bindp (conv_block ''block_5'' res 192 192 384 True) (\<lambda>res.
     bindp (pool_layer res) (dense_layer inp)))))))"

section \<open>The pruned XuNet2\<close>

text \<open>\<^verbatim>\<open>int(n * (1 - ratio))\<close>\<close>

definition keep_channels :: "int \<Rightarrow> pyfloat \<Rightarrow> int" where
  "keep_channels n ratio = py_trunc (of_int n * (1 - ratio))"

definition pruned_block :: "string \<Rightarrow> nat \<Rightarrow> int \<Rightarrow> int \<Rightarrow> int \<Rightarrow> pyfloat \<Rightarrow> pyfloat \<Rightarrow> pyfloat \<Rightarrow> bool
    \<Rightarrow> nat build" where
  "pruned_block sc x channels_in channels_out_1 channels_out_2 ratio1 ratio2 ratio3 istrain =
     bindp (conv_layer (scope_in sc ''layer_1'') x channels_in (keep_channels channels_out_1 ratio1) istrain) (\<lambda>relu_1.
     bindp (conv_layer_s (scope_in sc ''layer_s'') x channels_in (keep_channels channels_out_2 ratio3) istrain) (\<lambda>bn_s.
     bindp (conv_layer_m (scope_in sc ''layer_m_1'') relu_1 bn_s (keep_channels channels_out_1 ratio1)
              (keep_channels channels_out_2 ratio3) 2 istrain) (\<lambda>relu_2.
     bindp (conv_layer (scope_in sc ''layer_2'') relu_2 (keep_channels channels_out_2 ratio3)
              (keep_channels channels_out_2 ratio2) istrain) (\<lambda>relu_3.
     conv_layer_m (scope_in sc ''layer_m_2'') relu_3 relu_2 (keep_channels channels_out_2 ratio2)
              (keep_channels channels_out_2 ratio3) 1 istrain))))"

text \<open>A block whose rates are entries of the lists read from the configuration.\<close>

definition rated_block :: "pyfloat list \<Rightarrow> pyfloat list \<Rightarrow> string \<Rightarrow> int \<Rightarrow> int \<Rightarrow> int \<Rightarrow> int \<Rightarrow> int \<Rightarrow> int
    \<Rightarrow> nat \<Rightarrow> nat build" where
  "rated_block thinet li sc channels_in channels_out_1 channels_out_2 i j k res =
     bindp (lift_sum (py_nth thinet i)) (\<lambda>r1.
     bindp (lift_sum (py_nth thinet j)) (\<lambda>r2.
     bindp (lift_sum (py_nth li k)) (\<lambda>r3.
     pruned_block sc res channels_in channels_out_1 channels_out_2 r1 r2 r3 True)))"

definition rated_in :: "pyfloat list \<Rightarrow> int \<Rightarrow> int \<Rightarrow> int build" where
  "rated_in li n k = bindp (lift_sum (py_nth li k)) (\<lambda>r. ret (keep_channels n r))"

definition xunet_pruned :: "shape \<Rightarrow> pyfloat list \<Rightarrow> pyfloat list \<Rightarrow> nat \<Rightarrow> nat build" where
  "xunet_pruned inp thinet li inputs =
     bindp (dct_layer inputs) (\<lambda>res.
     bindp (pruned_block ''block_1'' res 16 12 24 0 0 0 True) (\<lambda>res.
     bindp (rated_block thinet li ''block_2'' 24 24 48 0 1 0 res) (\<lambda>res.
     bindp (rated_in li 48 0) (\<lambda>c.
     bindp (rated_block thinet li ''block_3'' c 48 96 2 3 1 res) (\<lambda>res.
     bindp (rated_in li 96 1) (\<lambda>c.
     bindp (rated_block thinet li ''block_4'' c 96 192 4 5 2 res) (\<lambda>res.
     bindp (rated_in li 192 2) (\<lambda>c.
     bindp (rated_block thinet li ''block_5'' c 192 384 6 7 3 res) (\<lambda>res.
     bindp (pool_layer res) (dense_layer inp))))))))))"

section \<open>Lemmas\<close>

lemma keep_channels_0 [simp]: "keep_channels n 0 = n"
  by (simp add: keep_channels_def py_trunc_def)

lemma pruned_block_0: "pruned_block sc x ci c1 c2 0 0 0 t = conv_block sc x ci c1 c2 t"
  by (simp add: pruned_block_def conv_block_def)

lemma rated_block_eq:
  "0 \<le> i \<Longrightarrow> nat i < length thinet \<Longrightarrow> 0 \<le> j \<Longrightarrow> nat j < length thinet \<Longrightarrow> 0 \<le> k \<Longrightarrow> nat k < length li \<Longrightarrow>
   rated_block thinet li sc ci c1 c2 i j k res =
     pruned_block sc res ci c1 c2 (thinet ! nat i) (thinet ! nat j) (li ! nat k) True"
  by (simp add: rated_block_def py_nth_def)

lemma rated_in_eq: "0 \<le> k \<Longrightarrow> nat k < length li \<Longrightarrow> rated_in li n k = ret (keep_channels n (li ! nat k))"
  by (simp add: rated_in_def py_nth_def)

lemma xunet_pruned_0: "xunet_pruned inp (replicate 8 0) (replicate 4 0) x = xunet inp x"
  by (simp add: xunet_pruned_def xunet_def rated_block_eq rated_in_eq pruned_block_0)

section \<open>Shapes\<close>

lemma builds_conv_bn:
  assumes "tensor inp g x [b, h, w, ci]" and "1 \<le> h" "1 \<le> w" "1 \<le> ci" "1 \<le> co" "1 \<le> s"
  shows "builds inp g (conv_bn sc x ci co s t) [b, same_size h s, same_size w s, co]"
proof -
  have c: "builds inp g (add_op sc (ConvKernel x [3, 3, ci, co] s Same)) [b, same_size h s, same_size w s, co]"
    using assms same_size_pos [of h s] same_size_pos [of w s]
    by (intro builds_add_op [OF assms(1)]) (auto simp: if_shape_def window_shape_def window_def)
  have n: "builds inp g' (add_op sc (BatchNorm y t NHWC)) sh" if "tensor inp g' y sh" "length sh = 4" for g' y sh
    using that by (intro builds_add_op [OF that(1)]) (auto simp: if_shape_def)
  show ?thesis
    unfolding conv_bn_def by (rule builds_bindp [OF c n]) simp_all
qed

lemma builds_conv_layer:
  assumes "tensor inp g x [b, h, w, ci]" and "1 \<le> h" "1 \<le> w" "1 \<le> ci" "1 \<le> co"
  shows "builds inp g (conv_layer sc x ci co t) [b, h, w, co]"
proof -
  have c: "builds inp g (conv_bn sc x ci co 1 t) [b, h, w, co]"
    using builds_conv_bn [OF assms, of 1 sc t] by simp
  show ?thesis unfolding conv_layer_def by (rule builds_bindp [OF c builds_relu])
qed

lemma builds_conv_layer_m:
  assumes "tensor inp g x [b, h, w, ci]" and "1 \<le> h" "1 \<le> w" "1 \<le> ci" "1 \<le> co" "1 \<le> s"
    and "tensor inp g y [b, same_size h s, same_size w s, co]"
  shows "builds inp g (conv_layer_m sc x y ci co s t) [b, same_size h s, same_size w s, co]"
  unfolding conv_layer_m_def
  by (rule builds_bindp [OF builds_conv_bn [OF assms(1-6)]])
    (blast intro: builds_bindp builds_add builds_relu growsD assms(7))

lemma builds_pruned_block:
  assumes x: "tensor inp g x [b, h, w, ci]" and p: "1 \<le> h" "1 \<le> w" "1 \<le> ci"
    and k: "1 \<le> keep_channels c1 r1" "1 \<le> keep_channels c2 r2" "1 \<le> keep_channels c2 r3"
  shows "builds inp g (pruned_block sc x ci c1 c2 r1 r2 r3 t)
    [b, same_size h 2, same_size w 2, keep_channels c2 r3]"
  unfolding pruned_block_def
proof (rule builds_bindp [OF builds_conv_layer [OF x p k(1)]])
  have h2: "1 \<le> same_size h 2" "1 \<le> same_size w 2" using p by (simp_all add: same_size_pos)
  fix r g1 assume 1: "grows inp g g1" "tensor inp g1 r [b, h, w, keep_channels c1 r1]"
  show "builds inp g1 (bindp (conv_layer_s (scope_in sc ''layer_s'') x ci (keep_channels c2 r3) t) (\<lambda>bn_s.
     bindp (conv_layer_m (scope_in sc ''layer_m_1'') r bn_s (keep_channels c1 r1) (keep_channels c2 r3) 2 t) (\<lambda>relu_2.
     bindp (conv_layer (scope_in sc ''layer_2'') relu_2 (keep_channels c2 r3) (keep_channels c2 r2) t) (\<lambda>relu_3.
     conv_layer_m (scope_in sc ''layer_m_2'') relu_3 relu_2 (keep_channels c2 r2) (keep_channels c2 r3) 1 t))))
     [b, same_size h 2, same_size w 2, keep_channels c2 r3]"
    unfolding conv_layer_s_def
  proof (rule builds_bindp [OF builds_conv_bn [OF growsD [OF 1(1) x] p k(3), of 2]])
    fix s g2 assume 2: "grows inp g1 g2" "tensor inp g2 s [b, same_size h 2, same_size w 2, keep_channels c2 r3]"
    show "builds inp g2 (bindp (conv_layer_m (scope_in sc ''layer_m_1'') r s (keep_channels c1 r1) (keep_channels c2 r3) 2 t)
       (\<lambda>relu_2. bindp (conv_layer (scope_in sc ''layer_2'') relu_2 (keep_channels c2 r3) (keep_channels c2 r2) t)
       (\<lambda>relu_3. conv_layer_m (scope_in sc ''layer_m_2'') relu_3 relu_2 (keep_channels c2 r2) (keep_channels c2 r3) 1 t)))
       [b, same_size h 2, same_size w 2, keep_channels c2 r3]"
    proof (rule builds_bindp [OF builds_conv_layer_m [OF growsD [OF 2(1) 1(2)] p(1,2) k(1,3) _ 2(2)]])
      fix u g3 assume 3: "grows inp g2 g3" "tensor inp g3 u [b, same_size h 2, same_size w 2, keep_channels c2 r3]"
      show "builds inp g3 (bindp (conv_layer (scope_in sc ''layer_2'') u (keep_channels c2 r3) (keep_channels c2 r2) t)
         (\<lambda>relu_3. conv_layer_m (scope_in sc ''layer_m_2'') relu_3 u (keep_channels c2 r2) (keep_channels c2 r3) 1 t))
         [b, same_size h 2, same_size w 2, keep_channels c2 r3]"
        by (rule builds_bindp [OF builds_conv_layer [OF 3(2) h2 k(3,2)]])
          (use builds_conv_layer_m [OF _ h2 k(2,3), of inp _ _ b 1] growsD 3(2) in force)
    qed simp
  qed simp
qed

lemma builds_dct:
  assumes "tensor inp g x [b, h, w, 1]" and "4 \<le> h" "4 \<le> w"
  shows "builds inp g (dct_layer x) [b, h - 3, w - 3, 16]"
proof -
  have c: "builds inp g (add_op [] (ConvKernel x [4, 4, 1, 16] 1 Valid)) [b, h - 3, w - 3, 16]"
    using assms by (intro builds_add_op [OF assms(1)]) (auto simp: if_shape_def window_shape_def window_def)
  have u: "builds inp g' (add_op [] p) sh" if "p \<in> {Abs y, Neg y, AddConst y n, Relu y}" "tensor inp g' y sh"
    for g' y sh p n
    using that by (intro builds_add_op [OF that(2)]) auto
  show ?thesis
    unfolding dct_layer_def
    by (rule builds_bindp [OF c]) (rule builds_bindp u | assumption | simp)+
qed

lemma get_shape_tensor: "tensor inp g x sh \<Longrightarrow> bindp (get_shape inp x) f g = f sh g"
  by (auto simp: get_shape_def bindp_def getp_def lift_sum_def tensor_def)

lemma builds_dense:
  assumes "tensor inp g x [b, h, w, c]" and "1 \<le> h" "1 \<le> w" "1 \<le> c"
  shows "builds inp g (dense_layer inp x) [b, 2]"
proof -
  have pos: "1 \<le> h * w * c"
    using assms(2-4) mult_mono [of 1 "h * w" 1 c] mult_mono [of 1 h 1 w] by simp
  have f: "builds inp g (add_op ''dense'' (Flatten x)) [b, h * w * c]"
    using assms(1) by (intro builds_add_op [OF assms(1)]) (auto simp: if_shape_def algebra_simps)
  have m: "builds inp g' (add_op ''dense'' (MatMul y (h * w * c) 2)) [b, 2]"
    if "tensor inp g' y [b, h * w * c]" for g' y
    using that pos by (intro builds_add_op [OF that]) (auto simp: if_shape_def)
  have a: "builds inp g' (add_op ''dense'' (BiasAdd y 2)) [b, 2]" if "tensor inp g' y [b, 2]" for g' y
    using that by (intro builds_add_op [OF that]) (auto simp: if_shape_def)
  have "builds inp g (bindp (add_op ''dense'' (Flatten x)) (\<lambda>y. bindp (add_op ''dense'' (MatMul y (h * w * c) 2))
      (\<lambda>z. add_op ''dense'' (BiasAdd z 2)))) [b, 2]"
    by (rule builds_bindp [OF f] builds_bindp [OF m] a | assumption)+
  then show ?thesis
    unfolding dense_layer_def by (simp add: builds_def get_shape_tensor [OF assms(1)] py_nth_def)
qed

lemma builds_pool:
  assumes "tensor inp g x [b, h, w, c]" and "8 \<le> h" "8 \<le> w"
  shows "builds inp g (pool_layer x) [b, h - 7, w - 7, c]"
  unfolding pool_layer_def using assms
  by (intro builds_add_op [OF assms(1)]) (auto simp: if_shape_def window_shape_def window_def)

text \<open>The size after the five blocks.\<close>

definition halved :: "int \<Rightarrow> int" where
  "halved h = (same_size (same_size (same_size (same_size (same_size h 2) 2) 2) 2) 2)"

definition keeps_some_xu :: "pyfloat list \<Rightarrow> pyfloat list \<Rightarrow> bool" where
  "keeps_some_xu thinet li \<longleftrightarrow> length thinet = 8 \<and> length li = 4
     \<and> list_all (\<lambda>(n, r). 1 \<le> keep_channels n r)
         (zip [24, 48, 48, 96, 96, 192, 192, 384] thinet @ zip [48, 96, 192, 384] li)"

lemma length_8: "length xs = 8 \<Longrightarrow> \<exists>a b c d e f g h. xs = [a, b, c, d, e, f, g, h]"
  by (auto simp: length_Suc_conv numeral_eq_Suc)

lemma length_4: "length xs = 4 \<Longrightarrow> \<exists>a b c d. xs = [a, b, c, d]"
  by (auto simp: length_Suc_conv numeral_eq_Suc)

lemma keeps_some_xu_nth:
  assumes "keeps_some_xu thinet li"
  shows "1 \<le> keep_channels 24 (thinet ! 0)" "1 \<le> keep_channels 48 (thinet ! 1)"
    "1 \<le> keep_channels 48 (thinet ! 2)" "1 \<le> keep_channels 96 (thinet ! 3)"
    "1 \<le> keep_channels 96 (thinet ! 4)" "1 \<le> keep_channels 192 (thinet ! 5)"
    "1 \<le> keep_channels 192 (thinet ! 6)" "1 \<le> keep_channels 384 (thinet ! 7)"
    "1 \<le> keep_channels 48 (li ! 0)" "1 \<le> keep_channels 96 (li ! 1)"
    "1 \<le> keep_channels 192 (li ! 2)" "1 \<le> keep_channels 384 (li ! 3)"
  using assms length_8 [of thinet] length_4 [of li] unfolding keeps_some_xu_def by auto

lemma builds_xunet_pruned:
  assumes x: "tensor inp g x [b, h, w, 1]" and hw: "8 \<le> halved (h - 3)" "8 \<le> halved (w - 3)"
    and pos: "4 \<le> h" "4 \<le> w" and k: "keeps_some_xu thinet li"
  shows "builds inp g (xunet_pruned inp thinet li x) [b, 2]"
proof -
  from k have len: "length thinet = 8" "length li = 4" by (simp_all add: keeps_some_xu_def)
  note ks = keeps_some_xu_nth [OF k, unfolded One_nat_def]
  have hs: "1 \<le> h' \<Longrightarrow> 1 \<le> same_size h' 2" for h' by (simp add: same_size_pos)
  have p3: "1 \<le> h - 3" "1 \<le> w - 3" using pos by simp_all
  have one: "1 \<le> keep_channels 12 0" "1 \<le> keep_channels 24 0" "1 \<le> (16 :: int)" by simp_all
  have p8: "1 \<le> halved (h - 3) - 7" "1 \<le> halved (w - 3) - 7" using hw by simp_all
  show ?thesis
    unfolding xunet_pruned_def
    by (simp add: len rated_block_eq rated_in_eq del: keep_channels_0,
        rule builds_bindp [OF builds_dct [OF x pos]])
      ((rule builds_bindp [OF builds_pruned_block] builds_bindp [OF builds_pool] builds_dense
        hs p3 one ks hw [unfolded halved_def] p8 [unfolded halved_def] | assumption)+,
       (simp only: keep_channels_0 | assumption | rule builds_bindp [OF builds_pruned_block] builds_bindp [OF builds_pool] builds_dense
        hs p3 one ks hw [unfolded halved_def] p8 [unfolded halved_def])+)
qed

section \<open>Properties of the networks\<close>

text \<open>A whole network: its input and what a builder makes of it.\<close>

definition network :: "(nat \<Rightarrow> nat build) \<Rightarrow> nat build" where
  "network build = bindp (add_op [] Placeholder) build"

lemma builds_network:
  assumes "\<And>g x. tensor inp g x inp \<Longrightarrow> builds inp g (build x) sh"
  shows "\<exists>x g ss. network build [] = (Inr x, g) \<and> shapes inp g = Some ss \<and> at_list ss x = Some sh"
proof -
  have t: "tensor inp [([], Placeholder)] 0 inp"
    by (simp add: tensor_def shapes_def add_shape_def at_list_def)
  from assms [OF t] show ?thesis
    by (auto simp: network_def builds_def add_op_def bindp_def tensor_def split: prod.splits sum.splits)
qed

text \<open>
C22: The worker's network is the network of the checkpoint. For every configuration, the worker of
the gateway builds the graph that the SRNet task builds for inference: the same operations on the
same tensors with the same channel counts, created in the same order in the same variable scopes,
so the variables of the checkpoint have the same names and shapes in both. Where the configuration
lacks a rate, neither builds anything.
\<close>

theorem worker_network_is_task_network:
  "(case fill_pruned_rate L cfg of Inl e \<Rightarrow> (Inl e, [])
     | Inr (thinet, l1) \<Rightarrow> network (build_pruned_srnet thinet l1) []) =
   (case fill_pruned_rate L cfg of Inl e \<Rightarrow> (Inl e, [])
     | Inr (thinet, l1) \<Rightarrow> network (srnet_pruned worker_args True thinet l1) [])"
  using fill_pruned_rate_lengths [of L cfg] by (auto simp: worker_builds_pruned split: sum.split)

text \<open>
Pruning nothing is the original. With every channel kept (the rates of a fresh configuration)
the pruned builders make exactly the graphs of the unpruned models, SRNet in both data formats and
XuNet2.
\<close>

theorem unpruned_networks:
  "network (srnet_pruned A float_input (replicate 10 1) (replicate 5 1)) = network (srnet A float_input)
   \<and> network (xunet_pruned inp (replicate 8 0) (replicate 4 0)) = network (xunet inp)"
  unfolding network_def by (intro conjI arg_cong [where f = "bindp _"] ext pruned_is_srnet xunet_pruned_0)

text \<open>
C32: The pruned SRNet is well shaped. For every image size, in both data formats, and whatever
rates keep a channel in every layer, the whole graph is well shaped: each convolution has a channel
and fits its input, the two branches of every residual layer have the same shape (nothing is
broadcast), and the output is one pair of logits for each image of the batch.
\<close>

theorem srnet_pruned_well_shaped:
  assumes "keeps_some thinet l1" and "1 \<le> h" and "1 \<le> w"
  shows "\<exists>x g ss. network (srnet_pruned A float_input thinet l1) [] = (Inr x, g)
     \<and> shapes [b, h, w, 1] g = Some ss \<and> at_list ss x = Some [b, 2]"
  by (rule builds_network, rule builds_srnet_pruned [OF _ assms(2,3,1)])

theorem srnet_pruned_well_shaped_witness:
  "\<exists>thinet l1 x g ss. fill_pruned_rate ref_lib threshold05_cfg = Inr (thinet, l1)
     \<and> network (srnet_pruned worker_args True thinet l1) [] = (Inr x, g)
     \<and> shapes [1, 512, 384, 1] g = Some ss \<and> at_list ss x = Some [1, 2]"
proof -
  let ?t = "[9/10, 1/2, 1/2, 3/5, 19/20, 17/20, 1/4, 3/20, 1/10, 1/20] :: pyfloat list"
  let ?l = "[9/10, 3/10, 3/20, 1/10, 1/20] :: pyfloat list"
  have "keeps_some ?t ?l" by code_simp
  from srnet_pruned_well_shaped [OF this, of 512 384 worker_args True 1] show ?thesis
    using threshold05_rates by auto
qed

text \<open>
The pruned XuNet2 is well shaped. For images whose sides are at least 8 after the DCT and five
halvings, and rates that keep a channel in every layer, every kernel has the channel count of its
input (the counts of one block and the next are computed in different calls), both branches of each
block agree, and the dense layer fits whatever is left.
\<close>

theorem xunet_pruned_well_shaped:
  assumes "keeps_some_xu thinet li" and "4 \<le> h" "4 \<le> w"
    and "8 \<le> halved (h - 3)" "8 \<le> halved (w - 3)"
  shows "\<exists>x g ss. network (xunet_pruned [b, h, w, 1] thinet li) [] = (Inr x, g)
     \<and> shapes [b, h, w, 1] g = Some ss \<and> at_list ss x = Some [b, 2]"
  by (rule builds_network, rule builds_xunet_pruned [OF _ assms(4,5,2,3,1)])

theorem xunet_pruned_well_shaped_witness:
  "\<exists>x g ss. network (xunet_pruned [40, 256, 256, 1] (replicate 8 (19/20)) [1/20, 1/10, 1/2, 9/10]) [] = (Inr x, g)
     \<and> shapes [40, 256, 256, 1] g = Some ss \<and> at_list ss x = Some [40, 2]"
proof -
  have "keeps_some_xu (replicate 8 (19/20)) [1/20, 1/10, 1/2, 9/10]" by code_simp
  moreover have "8 \<le> halved (256 - 3)" by code_simp
  ultimately show ?thesis
    using xunet_pruned_well_shaped [of _ _ 256 256 40] by simp
qed

end
