(* ===== verification/Detect.thy ===== *)
theory Detect
  imports RateConfig "HOL-Library.Multiset"
begin

text \<open>
  The detection of the pruning rates: libs/psm/detect\_srnet.py and detect\_xunet.py with the setup
  of the configuration files. What TensorFlow and NumPy compute is a parameter: \<open>mse removed i\<close> is
  the mean square of the output when the channels \<open>removed @ [i]\<close> alone are let through, \<open>argsort\<close>
  the order of a list of numbers, \<open>evaluate\<close> the loss and accuracy of the network after the variables
  named have been cut down to some of their channels. The state is the configuration files and the
  two logs.
\<close>

record detect =
  files :: "(string \<times> config) list"
  f_log :: string
  f_log_S :: string

section \<open>Configuration files\<close>

definition set_opt :: "string \<Rightarrow> string \<Rightarrow> string \<Rightarrow> config \<Rightarrow> exn + config" where
  "set_opt sec opt v cfg =
     (case map_of cfg sec of None \<Rightarrow> Inl no_section
      | Some opts \<Rightarrow> Inr (AList.update sec (AList.update opt v opts) cfg))"

definition remove_option :: "string \<Rightarrow> string \<Rightarrow> config \<Rightarrow> exn + config" where
  "remove_option sec opt cfg =
     (case map_of cfg sec of None \<Rightarrow> Inl no_section
      | Some opts \<Rightarrow> Inr (AList.update sec (AList.delete opt opts) cfg))"

text \<open>\<^verbatim>\<open>config.read(path)\<close>: a file that is missing is an empty configuration.\<close>

definition read_cfg :: "string \<Rightarrow> ('z detect_scheme, config) prog" where
  "read_cfg path = getp (\<lambda>s. dict_get (files s) path [])"

definition write_cfg :: "string \<Rightarrow> config \<Rightarrow> ('z detect_scheme, unit) prog" where
  "write_cfg path cfg = modifyp (\<lambda>s. s\<lparr>files := AList.update path cfg (files s)\<rparr>)"

subsection \<open>The initial files\<close>

text \<open>The options of a fresh file, in the order the setup sets them, each to \<^verbatim>\<open>0.0\<close>.\<close>

definition fresh :: "string list \<Rightarrow> (string \<times> string) list \<Rightarrow> config" where
  "fresh secs opts = foldl (\<lambda>cfg (sec, opt). AList.map_entry sec (AList.update opt ''0.0'') cfg)
     (map (\<lambda>sec. (sec, [])) secs) opts"

definition initial_srnet_cfg :: config where
  "initial_srnet_cfg = fresh [''Thinet_rate'', ''Thinet_acc'', ''L1_rate'', ''L1_acc'']
    [(''Thinet_rate'', ''layer3''), (''Thinet_rate'', ''layer4''), (''Thinet_rate'', ''layer5''),
     (''Thinet_rate'', ''layer6''), (''Thinet_rate'', ''layer7''), (''Thinet_rate'', ''layer8''),
     (''Thinet_rate'', ''layer9''), (''Thinet_rate'', ''layer10''), (''Thinet_rate'', ''layer11''),
     (''Thinet_rate'', ''layer12''),
     (''Thinet_acc'', ''layer3''), (''Thinet_acc'', ''layer4''), (''Thinet_acc'', ''layer5''),
     (''Thinet_acc'', ''layer6''), (''Thinet_acc'', ''layer7''), (''Thinet_acc'', ''layer8''),
     (''Thinet_acc'', ''layer9''), (''Thinet_acc'', ''layer10''), (''Thinet_acc'', ''layer11''),
     (''Thinet_acc'', ''layer12''),
     (''L1_rate'', ''layer8''), (''L1_rate'', ''layer9''), (''L1_rate'', ''layer10''),
     (''L1_rate'', ''layer11''), (''L1_rate'', ''layer12''),
     (''L1_acc'', ''layer8''), (''L1_acc'', ''layer9''), (''L1_acc'', ''layer10''),
     (''L1_acc'', ''layer11''), (''L1_acc'', ''layer12'')]"

definition initial_xunet_cfg :: config where
  "initial_xunet_cfg = fresh
    [''rate_block1'', ''rate_block2'', ''rate_block3'', ''rate_block4'', ''rate_block5'',
     ''acc_block1'', ''acc_block2'', ''acc_block3'', ''acc_block4'', ''acc_block5'']
    [(''rate_block1'', ''layer1''), (''rate_block2'', ''layer1''), (''rate_block3'', ''layer1''),
     (''rate_block4'', ''layer1''), (''rate_block5'', ''layer1''),
     (''rate_block1'', ''layer2''), (''rate_block2'', ''layer2''), (''rate_block3'', ''layer2''),
     (''rate_block4'', ''layer2''), (''rate_block5'', ''layer2''),
     (''acc_block1'', ''layer1''), (''acc_block2'', ''layer1''), (''acc_block3'', ''layer1''),
     (''acc_block4'', ''layer1''), (''acc_block5'', ''layer1''),
     (''acc_block1'', ''layer2''), (''acc_block2'', ''layer2''), (''acc_block3'', ''layer2''),
     (''acc_block4'', ''layer2''), (''acc_block5'', ''layer2'')]"

definition initial_config_file :: "config \<Rightarrow> string \<Rightarrow> ('z detect_scheme, unit) prog" where
  "initial_config_file cfg config_log = write_cfg config_log cfg"

subsection \<open>Recording a rate\<close>

definition replace_opt :: "string \<Rightarrow> string \<Rightarrow> string \<Rightarrow> config \<Rightarrow> exn + config" where
  "replace_opt sec opt v cfg =
     (case remove_option sec opt cfg of Inl e \<Rightarrow> Inl e | Inr c \<Rightarrow> set_opt sec opt v c)"

text \<open>One threshold of SRNet's \<^verbatim>\<open>write_2_config_file\<close>.\<close>

definition try_threshold :: "pylib \<Rightarrow> string \<Rightarrow> string \<Rightarrow> pyfloat \<Rightarrow> string \<Rightarrow> pyfloat
    \<Rightarrow> config \<times> string \<Rightarrow> pyfloat \<Rightarrow> ('z detect_scheme, unit) prog" where
  "try_threshold L detect_type index_layer acc rate test_acc cp threshold = (case cp of (cfg, path) \<Rightarrow>
     bindp (lift_sum (getfloat L cfg (detect_type @ ''_acc'') (''layer'' @ index_layer))) (\<lambda>last_acc.
     whenp (last_acc \<le> acc \<or> \<bar>test_acc - acc\<bar> \<le> threshold)
       (bindp (lift_sum (replace_opt (detect_type @ ''_rate'') (''layer'' @ index_layer) rate cfg)) (\<lambda>cfg.
        bindp (lift_sum (replace_opt (detect_type @ ''_acc'') (''layer'' @ index_layer) (float_str L acc) cfg)) (\<lambda>cfg.
        write_cfg path cfg)))))"

definition thresholds :: "pyfloat list" where
  "thresholds = [2/100, 5/100, 10/100, 20/100, 50/100]"

definition read_cfgs :: "string list \<Rightarrow> ('z detect_scheme, (config \<times> string) list) prog" where
  "read_cfgs config_log_list =
     bindp (mapp (\<lambda>i. lift_sum (py_nth config_log_list i)) [0..4]) (\<lambda>paths.
     mapp (\<lambda>p. bindp (read_cfg p) (\<lambda>c. ret (c, p))) paths)"

definition write_2_config_file :: "pylib \<Rightarrow> string \<Rightarrow> string \<Rightarrow> pyfloat \<Rightarrow> string \<Rightarrow> string list
    \<Rightarrow> pyfloat \<Rightarrow> ('z detect_scheme, unit) prog" where
  "write_2_config_file L detect_type index_layer acc rate config_log_list test_acc =
     bindp (read_cfgs config_log_list) (\<lambda>cfgs.
     seqp (whenp (detect_type = ''Thinet'')
             (forp (zip cfgs thresholds) (\<lambda>(cp, t). try_threshold L ''Thinet'' index_layer acc rate test_acc cp t)))
          (whenp (detect_type = ''L1'')
             (forp (zip cfgs thresholds) (\<lambda>(cp, t). try_threshold L ''L1'' index_layer acc rate test_acc cp t))))"

text \<open>XuNet has one file and the threshold 0.05, and sets the accuracy first.\<close>

definition xu_write_2_config_file :: "pylib \<Rightarrow> string \<Rightarrow> string \<Rightarrow> pyfloat \<Rightarrow> string \<Rightarrow> string
    \<Rightarrow> pyfloat \<Rightarrow> ('z detect_scheme, unit) prog" where
  "xu_write_2_config_file L index_block index_layer acc rate config_log test_acc =
     bindp (read_cfg config_log) (\<lambda>cfg.
     bindp (lift_sum (getfloat L cfg (''acc_block'' @ index_block) (''layer'' @ index_layer))) (\<lambda>last_acc.
     whenp (last_acc \<le> acc \<or> \<bar>test_acc - acc\<bar> \<le> 5/100)
       (bindp (lift_sum (replace_opt (''acc_block'' @ index_block) (''layer'' @ index_layer) (float_str L acc) cfg)) (\<lambda>cfg.
        bindp (lift_sum (replace_opt (''rate_block'' @ index_block) (''layer'' @ index_layer) rate cfg)) (\<lambda>cfg.
        write_cfg config_log cfg)))))"

section \<open>ThiNet: the greedy order of the channels\<close>

definition maxsize :: pyfloat where
  "maxsize = 2 ^ 63 - 1"

definition value_error :: exn where
  "value_error = Exn ValueError ''list.remove(x): x not in list''"

text \<open>The inner loop: the first channel of \<open>S\<close> with the least value below \<^verbatim>\<open>sys.maxsize\<close>.\<close>

definition least_step :: "(int list \<Rightarrow> int \<Rightarrow> pyfloat) \<Rightarrow> int list \<Rightarrow> pyfloat \<times> int \<Rightarrow> int \<Rightarrow> pyfloat \<times> int" where
  "least_step mse removed m i = (if mse removed i < fst m then (mse removed i, i) else m)"

definition least :: "(int list \<Rightarrow> int \<Rightarrow> pyfloat) \<Rightarrow> int list \<Rightarrow> int list \<Rightarrow> int" where
  "least mse removed S = snd (foldl (least_step mse removed) (maxsize, -1) S)"

text \<open>One pass of the outer loop; \<^verbatim>\<open>S.remove\<close> raises where nothing was found.\<close>

definition greedy_step :: "(int list \<Rightarrow> int \<Rightarrow> pyfloat) \<Rightarrow> int list \<times> int list \<Rightarrow> exn + int list \<times> int list" where
  "greedy_step mse st = (case st of (removed, S) \<Rightarrow>
     let i = least mse removed S
     in if i \<in> set S then Inr (removed @ [i], remove1 i S) else Inl value_error)"

primrec greedy :: "(int list \<Rightarrow> int \<Rightarrow> pyfloat) \<Rightarrow> nat \<Rightarrow> int list \<times> int list \<Rightarrow> exn + int list \<times> int list" where
  "greedy mse 0 st = Inr st"
| "greedy mse (Suc n) st = (case greedy_step mse st of Inl e \<Rightarrow> Inl e | Inr st' \<Rightarrow> greedy mse n st')"

definition channels :: "nat \<Rightarrow> int list" where
  "channels n = map int [0..<n]"

definition thinet_sorted :: "(int list \<Rightarrow> int \<Rightarrow> pyfloat) \<Rightarrow> nat \<Rightarrow> exn + int list" where
  "thinet_sorted mse n = (case greedy mse n ([], channels n) of
     Inl e \<Rightarrow> Inl e | Inr (removed, S) \<Rightarrow> Inr (rev removed))"

section \<open>L1: the order by the norms of the kernels\<close>

definition l1_sorted :: "(pyfloat list \<Rightarrow> int list) \<Rightarrow> pyfloat list \<Rightarrow> int list" where
  "l1_sorted argsort norms = argsort (map uminus norms)"

section \<open>Trying the rates\<close>

text \<open>How many of \<open>n\<close> channels stay at \<open>ratio\<close> twentieths, and which ones.\<close>

definition kept_length :: "nat \<Rightarrow> int \<Rightarrow> int" where
  "kept_length n ratio = py_trunc (of_int (20 - ratio) * (of_nat n * (5/100)))"

definition kept_channels :: "int list \<Rightarrow> nat \<Rightarrow> int \<Rightarrow> int list" where
  "kept_channels order n ratio = slice_to order (kept_length n ratio)"

text \<open>The variables a selection is assigned to, each with the axis of the channels.\<close>

type_synonym assignment = "string \<times> nat \<times> int list"

definition layer_var :: "int \<Rightarrow> string \<Rightarrow> string" where
  "layer_var layer v = ''Layer'' @ int_str layer @ ''/'' @ v"

definition own_vars :: "int \<Rightarrow> string \<Rightarrow> int list \<Rightarrow> assignment list" where
  "own_vars layer k s =
     [(layer_var layer (''Conv'' @ k @ ''/weights:0''), 3, s), (layer_var layer (''Conv'' @ k @ ''/biases:0''), 0, s),
      (layer_var layer (''BatchNorm'' @ k @ ''/moving_mean:0''), 0, s),
      (layer_var layer (''BatchNorm'' @ k @ ''/moving_variance:0''), 0, s),
      (layer_var layer (''BatchNorm'' @ k @ ''/gamma:0''), 0, s), (layer_var layer (''BatchNorm'' @ k @ ''/beta:0''), 0, s)]"

text \<open>\<open>None\<close>: no such layer, the code prints a message.\<close>

definition thinet_vars :: "int \<Rightarrow> (int list \<Rightarrow> assignment list) option" where
  "thinet_vars layer =
     (if layer \<ge> 3 \<and> layer \<le> 7 \<or> layer = 12
      then Some (\<lambda>s. own_vars layer [] s @ [(layer_var layer ''Conv_1/weights:0'', 2, s)])
      else if layer \<ge> 8 \<and> layer \<le> 11
      then Some (\<lambda>s. own_vars layer ''_1'' s @ [(layer_var layer ''Conv_2/weights:0'', 2, s)])
      else None)"

definition l1_vars :: "int \<Rightarrow> (int list \<Rightarrow> assignment list) option" where
  "l1_vars layer =
     (if layer \<ge> 8 \<and> layer \<le> 11
      then Some (\<lambda>s. own_vars layer [] s @ own_vars layer ''_2'' s
        @ (if layer \<noteq> 11 then [(layer_var (layer + 1) ''Conv_1/weights:0'', 2, s), (layer_var (layer + 1) ''Conv/weights:0'', 2, s)]
           else [(layer_var (layer + 1) ''Conv/weights:0'', 2, s)]))
      else if layer = 12
      then Some (\<lambda>s. own_vars layer ''_1'' s @ [(''ip/weights:0'', 0, s)])
      else None)"

definition log_line :: "string \<Rightarrow> ('z detect_scheme, unit) prog" where
  "log_line t = modifyp (\<lambda>s. s\<lparr>f_log := f_log s @ t\<rparr>)"

definition log_S_line :: "string \<Rightarrow> ('z detect_scheme, unit) prog" where
  "log_S_line t = modifyp (\<lambda>s. s\<lparr>f_log_S := f_log_S s @ t\<rparr>)"

definition list_str :: "int list \<Rightarrow> string" where
  "list_str xs = ''['' @ join '', '' (map int_str xs) @ '']''"

definition twentieths :: "int \<Rightarrow> pyfloat" where
  "twentieths ratio = of_int ratio * (5/100)"

text \<open>One ratio: a selection without a channel is skipped.\<close>

definition try_ratio :: "pylib \<Rightarrow> (assignment list \<Rightarrow> pyfloat \<times> pyfloat) \<Rightarrow> string \<Rightarrow> (int list \<Rightarrow> assignment list)
    \<Rightarrow> int \<Rightarrow> int list \<Rightarrow> nat \<Rightarrow> string list \<Rightarrow> pyfloat \<Rightarrow> int \<Rightarrow> ('z detect_scheme, unit) prog" where
  "try_ratio L evaluate detect_type vars layer order n config_log_list test_acc ratio =
     (let s = kept_channels order n ratio
      in whenp (length s \<ge> 1)
        (let (mean_loss, mean_accuracy) = evaluate (vars s)
         in seqp (log_line (''rate '' @ float_str L (twentieths ratio) @ '',acc '' @ float_str L mean_accuracy
                    @ '',loss '' @ float_str L mean_loss @ [newline]))
           (seqp (log_S_line (''rate '' @ float_str L (twentieths ratio) @ '':'' @ list_str s @ [newline]))
           (seqp (write_2_config_file L detect_type (int_str layer) mean_accuracy (float_str L (twentieths ratio))
                    config_log_list test_acc)
                 (whenp (detect_type = ''Thinet'') (log_S_line [newline]))))))"

definition log_header :: "int \<Rightarrow> ('z detect_scheme, unit) prog" where
  "log_header layer =
     seqp (log_line (''----------- layer '' @ int_str layer @ ''-------------'' @ [newline]))
          (log_S_line (''----------- layer '' @ int_str layer @ ''-------------'' @ [newline]))"

definition detect_one_layer_Thinet :: "pylib \<Rightarrow> (int list \<Rightarrow> int \<Rightarrow> pyfloat) \<Rightarrow> (assignment list \<Rightarrow> pyfloat \<times> pyfloat)
    \<Rightarrow> nat \<Rightarrow> int \<Rightarrow> string list \<Rightarrow> pyfloat \<Rightarrow> ('z detect_scheme, unit) prog" where
  "detect_one_layer_Thinet L mse evaluate n layer config_log_list test_acc =
     seqp (log_header layer)
       (case thinet_vars layer of None \<Rightarrow> ret ()
        | Some vars \<Rightarrow>
            bindp (lift_sum (thinet_sorted mse n)) (\<lambda>order.
            forp (py_range 1 20 1) (try_ratio L evaluate ''Thinet'' vars layer order n config_log_list test_acc)))"

definition detect_one_layer_Li :: "pylib \<Rightarrow> (pyfloat list \<Rightarrow> int list) \<Rightarrow> pyfloat list
    \<Rightarrow> (assignment list \<Rightarrow> pyfloat \<times> pyfloat) \<Rightarrow> int \<Rightarrow> string list \<Rightarrow> pyfloat \<Rightarrow> ('z detect_scheme, unit) prog" where
  "detect_one_layer_Li L argsort norms evaluate layer config_log_list test_acc =
     seqp (log_header layer)
       (case l1_vars layer of None \<Rightarrow> ret ()
        | Some vars \<Rightarrow>
            forp (py_range 1 20 1) (try_ratio L evaluate ''L1'' vars layer (l1_sorted argsort norms) (length norms)
              config_log_list test_acc))"

section \<open>XuNet\<close>

definition bn_var :: "int \<Rightarrow> string \<Rightarrow> string" where
  "bn_var i v = ''batch_normalization'' @ (if i = 0 then [] else CHR ''_'' # int_str i) @ ''/'' @ v"

definition block_var :: "int \<Rightarrow> string \<Rightarrow> string" where
  "block_var b v = ''block_'' @ int_str b @ ''/'' @ v"

definition bn_vars :: "int \<Rightarrow> int list \<Rightarrow> assignment list" where
  "bn_vars i S = [(bn_var i ''moving_mean:0'', 0, S), (bn_var i ''moving_variance:0'', 0, S),
     (bn_var i ''gamma:0'', 0, S), (bn_var i ''beta:0'', 0, S)]"

definition xu_thinet_vars :: "int \<Rightarrow> int \<Rightarrow> int list \<Rightarrow> assignment list" where
  "xu_thinet_vars b l S =
     (let bn_index = 5 * (b - 1) + 3 * (l - 1)
      in [(block_var b (''layer_'' @ int_str l @ ''/kernel:0''), 3, S),
          (block_var b (''layer_m_'' @ int_str l @ ''/kernel:0''), 2, S),
          (bn_var bn_index ''moving_mean:0'', 0, S), (bn_var bn_index ''moving_variance:0'', 0, S),
          (bn_var bn_index ''beta:0'', 0, S), (bn_var bn_index ''gamma:0'', 0, S)])"

definition xu_li_vars :: "int \<Rightarrow> int list \<Rightarrow> assignment list" where
  "xu_li_vars b S =
     (block_var b ''layer_s/kernel:0'', 3, S) # bn_vars (5 * (b - 1) + 1) S
     @ (block_var b ''layer_m_1/kernel:0'', 3, S) # bn_vars (5 * (b - 1) + 2) S
     @ (block_var b ''layer_m_2/kernel:0'', 3, S) # bn_vars (5 * (b - 1) + 4) S
     @ [(block_var b ''layer_2/kernel:0'', 2, S)]
     @ (if b < 5 then [(block_var (b + 1) ''layer_1/kernel:0'', 2, S), (block_var (b + 1) ''layer_s/kernel:0'', 2, S)]
        else [])
     @ (if b = 5 then [(''dense/weights:0'', 0, S)] else [])"

text \<open>
  One evaluation. \<open>reached len k\<close> is the comparison \<^verbatim>\<open>len >= step * k\<close> of floats, where the rounding
  of \<^verbatim>\<open>n * 0.05 * k\<close> decides whether the last step is reached; it is a parameter.
\<close>

definition xu_evaluate :: "pylib \<Rightarrow> (assignment list \<Rightarrow> pyfloat \<times> pyfloat) \<Rightarrow> (int list \<Rightarrow> assignment list)
    \<Rightarrow> string \<Rightarrow> int \<Rightarrow> int \<Rightarrow> string \<Rightarrow> pyfloat \<Rightarrow> int \<Rightarrow> int list \<Rightarrow> ('z detect_scheme, unit) prog" where
  "xu_evaluate L evaluate vars note b l config_log test_acc k S =
     (let (mean_loss, mean_accuracy) = evaluate (vars S)
      in seqp (log_line (''rate '' @ float_str L (twentieths k) @ '',acc '' @ float_str L mean_accuracy
                 @ '',loss '' @ float_str L mean_loss @ [newline]))
        (seqp (log_line (note @ list_str S @ [newline]))
        (xu_write_2_config_file L (int_str b) (int_str l) mean_accuracy (float_str L (twentieths k)) config_log test_acc)))"

function xu_thinet_loop :: "pylib \<Rightarrow> (int list \<Rightarrow> int \<Rightarrow> pyfloat) \<Rightarrow> (assignment list \<Rightarrow> pyfloat \<times> pyfloat)
    \<Rightarrow> (nat \<Rightarrow> int \<Rightarrow> bool) \<Rightarrow> int \<Rightarrow> int \<Rightarrow> string \<Rightarrow> pyfloat \<Rightarrow> nat
    \<Rightarrow> int list \<Rightarrow> int list \<Rightarrow> int \<Rightarrow> ('z detect_scheme, unit) prog" where
  "xu_thinet_loop L mse evaluate reached b l config_log test_acc n removed S step_count =
     (if length removed < n then
        (let i = least mse removed S
         in if i \<notin> set S then raise value_error
            else if reached (length (removed @ [i])) step_count then
              (let S' = filter (\<lambda>c. c \<notin> set (removed @ [i])) (channels n)
               in seqp (xu_evaluate L evaluate (xu_thinet_vars b l) [] b l config_log test_acc step_count S')
                    (xu_thinet_loop L mse evaluate reached b l config_log test_acc n (removed @ [i]) S' (step_count + 1)))
            else xu_thinet_loop L mse evaluate reached b l config_log test_acc n (removed @ [i]) (remove1 i S) step_count)
      else ret ())"
  by pat_completeness auto
termination
  by (relation "measure (\<lambda>(L, mse, evaluate, reached, b, l, config_log, test_acc, n, removed, S, step_count).
       n - length removed)") auto

declare xu_thinet_loop.simps [simp del]

definition xu_header :: "string \<Rightarrow> int \<Rightarrow> int \<Rightarrow> ('z detect_scheme, unit) prog" where
  "xu_header dashes b l =
     log_line (dashes @ ''block '' @ int_str b @ '' layer '' @ int_str l @ ''-------------'' @ [newline])"

definition thinet_detect_on_cov_layer :: "pylib \<Rightarrow> (int list \<Rightarrow> int \<Rightarrow> pyfloat) \<Rightarrow> (assignment list \<Rightarrow> pyfloat \<times> pyfloat)
    \<Rightarrow> (nat \<Rightarrow> int \<Rightarrow> bool) \<Rightarrow> nat \<Rightarrow> int \<Rightarrow> int \<Rightarrow> string \<Rightarrow> pyfloat \<Rightarrow> ('z detect_scheme, unit) prog" where
  "thinet_detect_on_cov_layer L mse evaluate reached n b l config_log test_acc =
     seqp (xu_header ''-----------'' b l)
          (xu_thinet_loop L mse evaluate reached b l config_log test_acc n [] (channels n) 1)"

definition Li_detect_on_conv_layer :: "pylib \<Rightarrow> (pyfloat list \<Rightarrow> int list) \<Rightarrow> pyfloat list
    \<Rightarrow> (assignment list \<Rightarrow> pyfloat \<times> pyfloat) \<Rightarrow> int \<Rightarrow> int \<Rightarrow> string \<Rightarrow> pyfloat \<Rightarrow> ('z detect_scheme, unit) prog" where
  "Li_detect_on_conv_layer L argsort norms evaluate b l config_log test_acc =
     seqp (xu_header ''----------- '' b l)
       (if l = 1 then
          forp (py_range 1 20 1) (\<lambda>ratio.
            xu_evaluate L evaluate (xu_li_vars b) ''layer_S:'' b l config_log test_acc ratio
              (kept_channels (l1_sorted argsort norms) (length norms) ratio))
        else ret ())"

section \<open>Lemmas: the greedy order\<close>

lemma least_fold:
  "foldl (least_step mse removed) m S = (x, i) \<Longrightarrow>
     x \<le> fst m \<and> (\<forall>c \<in> set S. x \<le> mse removed c)
     \<and> ((x, i) = m \<or> i \<in> set S \<and> x = mse removed i)"
proof (induction S arbitrary: m)
  case Nil
  then show ?case by simp
next
  case (Cons c S)
  then have "foldl (least_step mse removed) (least_step mse removed m c) S = (x, i)" by simp
  from Cons.IH [OF this] show ?case by (auto simp: least_step_def split: if_splits)
qed

lemma least_in:
  assumes "\<And>c. c \<in> set S \<Longrightarrow> mse removed c < maxsize" and "S \<noteq> []"
  shows "least mse removed S \<in> set S \<and> (\<forall>c \<in> set S. mse removed (least mse removed S) \<le> mse removed c)"
proof -
  obtain x i where f: "foldl (least_step mse removed) (maxsize, -1) S = (x, i)" by fastforce
  from assms(2) obtain c where "c \<in> set S" by (cases S) auto
  with least_fold [OF f] assms(1) [of c] have "i \<in> set S \<and> x = mse removed i" by auto
  with least_fold [OF f] f show ?thesis by (simp add: least_def)
qed

text \<open>Each channel is a least one of those that were left when it was taken.\<close>

definition greedy_order :: "(int list \<Rightarrow> int \<Rightarrow> pyfloat) \<Rightarrow> int list \<Rightarrow> int list \<Rightarrow> bool" where
  "greedy_order mse removed S \<longleftrightarrow>
     (\<forall>k < length removed. \<forall>c \<in> set (drop k removed) \<union> set S.
        mse (take k removed) (removed ! k) \<le> mse (take k removed) c)"

lemma greedy_order_snoc:
  assumes "greedy_order mse removed S" and "i \<in> set S"
    and "\<forall>c \<in> set S. mse removed i \<le> mse removed c" and "set S' \<subseteq> set S"
  shows "greedy_order mse (removed @ [i]) S'"
  using assms unfolding greedy_order_def by (auto simp: less_Suc_eq nth_append)

lemma greedy_spec:
  assumes "\<And>r c. mse r c < maxsize" and "length S = n" and "greedy_order mse removed S"
  shows "\<exists>order. greedy mse n (removed, S) = Inr (removed @ order, []) \<and> mset order = mset S
     \<and> greedy_order mse (removed @ order) []"
  using assms(2,3)
proof (induction n arbitrary: removed S)
  case 0
  then show ?case by simp
next
  case (Suc n)
  let ?i = "least mse removed S"
  from Suc.prems have ne: "S \<noteq> []" by auto
  note l = least_in [of S mse removed, OF assms(1) ne]
  have "greedy_order mse (removed @ [?i]) (remove1 ?i S)"
    using greedy_order_snoc [OF Suc.prems(2)] l set_remove1_subset [of ?i S] by blast
  moreover have "length (remove1 ?i S) = n" using l Suc.prems by (simp add: length_remove1)
  ultimately obtain order where "greedy mse n (removed @ [?i], remove1 ?i S) = Inr ((removed @ [?i]) @ order, [])"
    "mset order = mset (remove1 ?i S)" "greedy_order mse ((removed @ [?i]) @ order) []"
    using Suc.IH by blast
  with l show ?case by (intro exI [of _ "?i # order"]) (simp add: greedy_step_def Let_def)
qed

lemma thinet_sorted_spec:
  assumes "\<And>r c. mse r c < maxsize"
  shows "\<exists>order. thinet_sorted mse n = Inr (rev order) \<and> mset order = mset (channels n) \<and> greedy_order mse order []"
  using greedy_spec [of mse "channels n" n "[]", OF assms]
  by (auto simp: thinet_sorted_def channels_def greedy_order_def)

section \<open>Lemmas: the kept channels\<close>

lemma kept_length_floor: "0 \<le> ratio \<Longrightarrow> ratio \<le> 20 \<Longrightarrow> kept_length n ratio = (20 - ratio) * int n div 20"
proof -
  assume r: "0 \<le> ratio" "ratio \<le> 20"
  have "(of_int (20 - ratio) * (of_nat n * (5/100)) :: rat) = of_int ((20 - ratio) * int n) / of_int 20"
    by simp
  moreover have "\<not> (of_int ((20 - ratio) * int n) / of_int 20 :: rat) < 0"
    using r by (simp add: zero_le_mult_iff not_less flip: of_int_diff of_int_mult)
  ultimately show ?thesis
    unfolding kept_length_def py_trunc_def by (simp only: floor_divide_of_int_eq if_False)
qed

lemma kept_length_le: "0 \<le> ratio \<Longrightarrow> ratio \<le> 20 \<Longrightarrow> 0 \<le> kept_length n ratio \<and> kept_length n ratio \<le> int n"
proof -
  assume r: "0 \<le> ratio" "ratio \<le> 20"
  have "(20 - ratio) * int n \<le> 20 * int n" using r by (intro mult_right_mono) auto
  then have "(20 - ratio) * int n div 20 \<le> 20 * int n div 20" by (rule zdiv_mono1) simp
  moreover have "0 \<le> (20 - ratio) * int n" using r by simp
  ultimately show ?thesis using r by (simp add: kept_length_floor pos_imp_zdiv_nonneg_iff)
qed

lemma length_kept:
  "length order = n \<Longrightarrow> 0 \<le> ratio \<Longrightarrow> ratio \<le> 20 \<Longrightarrow> int (length (kept_channels order n ratio)) = kept_length n ratio"
  using kept_length_le [of ratio n] by (auto simp: kept_channels_def slice_to_nonneg min_def nat_le_iff)

text \<open>The channel count a builder computes from the rate recorded with a selection.\<close>

lemma rate_gives_length:
  "0 \<le> ratio \<Longrightarrow> ratio \<le> 20 \<Longrightarrow> py_trunc (of_int (int n) * (1 - twentieths ratio)) = kept_length n ratio"
proof -
  have "of_int (int n) * (1 - twentieths ratio) = of_int (20 - ratio) * (of_nat n * (5/100))"
    by (simp add: twentieths_def field_simps)
  then show ?thesis by (simp only: kept_length_def)
qed

section \<open>Lemmas: recording\<close>

text \<open>The rate and the accuracy a configuration holds for a layer, and the code's decision.\<close>

definition entry_of :: "pylib \<Rightarrow> string \<Rightarrow> string \<Rightarrow> config \<Rightarrow> (string \<times> pyfloat) option" where
  "entry_of L ty lay cfg =
     (case (cfg_get cfg (ty @ ''_rate'') (''layer'' @ lay), getfloat L cfg (ty @ ''_acc'') (''layer'' @ lay)) of
        (Inr rate, Inr acc) \<Rightarrow> Some (rate, acc) | _ \<Rightarrow> None)"

definition record_step :: "pyfloat \<Rightarrow> pyfloat \<Rightarrow> string \<times> pyfloat \<Rightarrow> string \<times> pyfloat \<Rightarrow> string \<times> pyfloat" where
  "record_step threshold test_acc prev m =
     (if snd prev \<le> snd m \<or> \<bar>test_acc - snd m\<bar> \<le> threshold then m else prev)"

lemma replace_opt_spec:
  assumes "cfg_get cfg sec opt = Inr u"
  shows "\<exists>cfg'. replace_opt sec opt v cfg = Inr cfg'
    \<and> (\<forall>sec' opt'. cfg_get cfg' sec' opt' = (if sec' = sec \<and> opt' = opt then Inr v else cfg_get cfg sec' opt'))"
proof -
  from assms obtain opts where o: "map_of cfg sec = Some opts"
    by (auto simp: cfg_get_def split: option.splits)
  show ?thesis
    using o by (auto simp: replace_opt_def remove_option_def set_opt_def cfg_get_def)
qed

lemma rate_acc_sections: "ty @ ''_rate'' \<noteq> ty @ ''_acc''"
  by simp

text \<open>The two replacements of one threshold.\<close>

lemma replace_both:
  assumes "float_roundtrip L" and "entry_of L ty lay cfg = Some e"
  shows "\<exists>c1 c2. replace_opt (ty @ ''_rate'') (''layer'' @ lay) rate cfg = Inr c1
    \<and> replace_opt (ty @ ''_acc'') (''layer'' @ lay) (float_str L acc) c1 = Inr c2
    \<and> entry_of L ty lay c2 = Some (rate, acc)"
proof -
  from assms(2) obtain r u where e: "cfg_get cfg (ty @ ''_rate'') (''layer'' @ lay) = Inr r"
    "cfg_get cfg (ty @ ''_acc'') (''layer'' @ lay) = Inr u"
    by (auto simp: entry_of_def getfloat_def split: sum.splits)
  obtain c1 where c1: "replace_opt (ty @ ''_rate'') (''layer'' @ lay) rate cfg = Inr c1"
    "\<And>s o'. cfg_get c1 s o' = (if s = ty @ ''_rate'' \<and> o' = ''layer'' @ lay then Inr rate else cfg_get cfg s o')"
    using replace_opt_spec [OF e(1)] by blast
  then have "cfg_get c1 (ty @ ''_acc'') (''layer'' @ lay) = Inr u" using e(2) by simp
  from replace_opt_spec [OF this] obtain c2 where c2: "replace_opt (ty @ ''_acc'') (''layer'' @ lay) (float_str L acc) c1 = Inr c2"
    "\<And>s o'. cfg_get c2 s o' = (if s = ty @ ''_acc'' \<and> o' = ''layer'' @ lay then Inr (float_str L acc) else cfg_get c1 s o')"
    by blast
  show ?thesis
    using c1 c2 assms(1) by (intro exI [of _ c1] exI [of _ c2]) (simp add: entry_of_def getfloat_def float_roundtrip_def)
qed

definition file_of :: "'z detect_scheme \<Rightarrow> string \<Rightarrow> config" where
  "file_of s p = dict_get (files s) p []"

lemma file_of_update: "file_of (s\<lparr>files := AList.update p c (files s)\<rparr>) q = (if q = p then c else file_of s q)"
  by (simp add: file_of_def dict_get_def)

lemma try_threshold_spec:
  assumes L: "float_roundtrip L" and e: "entry_of L ty lay cfg = Some e" and f: "file_of s p = cfg"
  shows "\<exists>s'. try_threshold L ty lay acc rate test_acc (cfg, p) t s = (Inr (), s')
    \<and> entry_of L ty lay (file_of s' p) = Some (record_step t test_acc e (rate, acc))
    \<and> (\<forall>q. q \<noteq> p \<longrightarrow> file_of s' q = file_of s q)"
proof -
  from e have last: "getfloat L cfg (ty @ ''_acc'') (''layer'' @ lay) = Inr (snd e)"
    by (auto simp: entry_of_def split: sum.splits)
  obtain c1 c2 where c: "replace_opt (ty @ ''_rate'') (''layer'' @ lay) rate cfg = Inr c1"
    "replace_opt (ty @ ''_acc'') (''layer'' @ lay) (float_str L acc) c1 = Inr c2"
    "entry_of L ty lay c2 = Some (rate, acc)"
    using replace_both [OF L e] by blast
  show ?thesis
    using last c e f
    by (auto simp: try_threshold_def record_step_def write_cfg_def whenp_def ret_def bindp_def modifyp_def
        lift_sum_def file_of_update)
qed

text \<open>All the files of a call: distinct paths, each with the configuration read from it.\<close>

lemma record_all:
  assumes L: "float_roundtrip L"
  shows "distinct (map (\<lambda>x. snd (fst x)) ps) \<Longrightarrow>
    \<forall>x \<in> set ps. file_of s (snd (fst x)) = fst (fst x) \<and> entry_of L ty lay (fst (fst x)) = Some (e (snd (fst x))) \<Longrightarrow>
    \<exists>s'. forp ps (\<lambda>(cp, t). try_threshold L ty lay acc rate test_acc cp t) s = (Inr (), s')
      \<and> (\<forall>x \<in> set ps. entry_of L ty lay (file_of s' (snd (fst x)))
            = Some (record_step (snd x) test_acc (e (snd (fst x))) (rate, acc)))
      \<and> (\<forall>q. q \<notin> set (map (\<lambda>x. snd (fst x)) ps) \<longrightarrow> file_of s' q = file_of s q)"
proof (induction ps arbitrary: s)
  case Nil
  then show ?case by (simp add: ret_def)
next
  case (Cons x ps)
  obtain cfg p t where x: "x = ((cfg, p), t)" by (metis prod.exhaust)
  with Cons.prems(2) have fe: "file_of s p = cfg" "entry_of L ty lay cfg = Some (e p)" by auto
  obtain s1 where s1: "try_threshold L ty lay acc rate test_acc (cfg, p) t s = (Inr (), s1)"
    "entry_of L ty lay (file_of s1 p) = Some (record_step t test_acc (e p) (rate, acc))"
    "\<And>q. q \<noteq> p \<Longrightarrow> file_of s1 q = file_of s q"
    using try_threshold_spec [OF L fe(2,1)] by blast
  have np: "p \<notin> set (map (\<lambda>x. snd (fst x)) ps)" and d: "distinct (map (\<lambda>x. snd (fst x)) ps)"
    using Cons.prems(1) x by auto
  have "\<forall>x \<in> set ps. file_of s1 (snd (fst x)) = fst (fst x) \<and> entry_of L ty lay (fst (fst x)) = Some (e (snd (fst x)))"
  proof
    fix y assume y: "y \<in> set ps"
    then have "snd (fst y) \<noteq> p" using np by auto
    with s1(3) Cons.prems(2) y
    show "file_of s1 (snd (fst y)) = fst (fst y) \<and> entry_of L ty lay (fst (fst y)) = Some (e (snd (fst y)))" by simp
  qed
  from Cons.IH [OF d this] obtain s2 where s2:
    "forp ps (\<lambda>(cp, t). try_threshold L ty lay acc rate test_acc cp t) s1 = (Inr (), s2)"
    "\<forall>x \<in> set ps. entry_of L ty lay (file_of s2 (snd (fst x)))
        = Some (record_step (snd x) test_acc (e (snd (fst x))) (rate, acc))"
    "\<And>q. q \<notin> set (map (\<lambda>x. snd (fst x)) ps) \<Longrightarrow> file_of s2 q = file_of s1 q"
    by blast
  show ?case
    using s1 s2 np x by (intro exI [of _ s2]) (auto simp: seqp_def bindp_def)
qed

text \<open>The recorded entries of the five files.\<close>

definition recorded :: "pylib \<Rightarrow> string \<Rightarrow> string \<Rightarrow> string list \<Rightarrow> (string \<times> pyfloat) list
    \<Rightarrow> 'z detect_scheme \<Rightarrow> bool" where
  "recorded L ty lay paths es s \<longleftrightarrow>
     length es = 5 \<and> (\<forall>i < 5. entry_of L ty lay (file_of s (paths ! i)) = Some (es ! i))"

definition record_steps :: "pyfloat \<Rightarrow> string \<times> pyfloat \<Rightarrow> (string \<times> pyfloat) list \<Rightarrow> (string \<times> pyfloat) list" where
  "record_steps test_acc m es = map (\<lambda>(t, e). record_step t test_acc e m) (zip thresholds es)"

lemma read_cfgs_eval:
  assumes "length paths = 5"
  shows "read_cfgs paths s = (Inr (map (\<lambda>p. (file_of s p, p)) paths), s)"
proof -
  from assms obtain a b c d e where p: "paths = [a, b, c, d, e]"
    by (auto simp: length_Suc_conv numeral_eq_Suc)
  have r: "[0..4] = [0, 1, 2, 3, 4 :: int]" by code_simp
  show ?thesis
    by (simp add: p r read_cfgs_def read_cfg_def py_nth_def bindp_def ret_def lift_sum_def getp_def file_of_def)
qed

lemma write_2_spec:
  assumes L: "float_roundtrip L" and ty: "ty \<in> {''Thinet'', ''L1''}"
    and d: "distinct paths" "length paths = 5" and r: "recorded L ty lay paths es s"
  shows "\<exists>s'. write_2_config_file L ty lay acc rate paths test_acc s = (Inr (), s')
    \<and> recorded L ty lay paths (record_steps test_acc (rate, acc) es) s'"
proof -
  let ?ps = "zip (map (\<lambda>p. (file_of s p, p)) paths) thresholds"
  let ?e = "\<lambda>p. the (entry_of L ty lay (file_of s p))"
  have len: "length thresholds = 5" by (simp add: thresholds_def)
  have "map (\<lambda>x. snd (fst x)) ?ps = paths"
    using d(2) len by (intro nth_equalityI) auto
  with d have 1: "distinct (map (\<lambda>x. snd (fst x)) ?ps)" by simp
  have 2: "\<forall>x \<in> set ?ps. file_of s (snd (fst x)) = fst (fst x) \<and> entry_of L ty lay (fst (fst x)) = Some (?e (snd (fst x)))"
    using r d(2) by (auto simp: set_zip recorded_def)
  from record_all [OF L 1 2, of acc rate test_acc] obtain s' where s':
    "forp ?ps (\<lambda>(cp, t). try_threshold L ty lay acc rate test_acc cp t) s = (Inr (), s')"
    "\<forall>x \<in> set ?ps. entry_of L ty lay (file_of s' (snd (fst x))) = Some (record_step (snd x) test_acc (?e (snd (fst x))) (rate, acc))"
    by blast
  have "entry_of L ty lay (file_of s' (paths ! i)) = Some (record_steps test_acc (rate, acc) es ! i)" if i: "i < 5" for i
  proof -
    have "((file_of s (paths ! i), paths ! i), thresholds ! i) \<in> set ?ps"
      using i d(2) len by (auto simp: set_zip intro!: exI [of _ i])
    from bspec [OF s'(2) this] show ?thesis
      using i r len by (simp add: recorded_def record_steps_def)
  qed
  then have "recorded L ty lay paths (record_steps test_acc (rate, acc) es) s'"
    using r len by (simp add: recorded_def record_steps_def)
  with s'(1) ty show ?thesis
    by (auto simp: write_2_config_file_def bindp_def read_cfgs_eval [OF d(2)] seqp_def whenp_def ret_def)
qed

lemma recorded_logs:
  "recorded L ty lay paths es (s\<lparr>f_log := l\<rparr>) = recorded L ty lay paths es s"
  "recorded L ty lay paths es (s\<lparr>f_log_S := l\<rparr>) = recorded L ty lay paths es s"
  by (simp_all add: recorded_def file_of_def)

text \<open>What the loop over the ratios measures: the accuracy and the rate of each selection with a channel.\<close>

definition measurements :: "pylib \<Rightarrow> (assignment list \<Rightarrow> pyfloat \<times> pyfloat) \<Rightarrow> (int list \<Rightarrow> assignment list)
    \<Rightarrow> int list \<Rightarrow> nat \<Rightarrow> int list \<Rightarrow> (string \<times> pyfloat) list" where
  "measurements L evaluate vars order n ratios =
     map (\<lambda>k. (float_str L (twentieths k), snd (evaluate (vars (kept_channels order n k)))))
       (filter (\<lambda>k. 1 \<le> length (kept_channels order n k)) ratios)"

lemma try_ratio_spec:
  assumes "float_roundtrip L" and "ty \<in> {''Thinet'', ''L1''}" and "distinct paths" "length paths = 5"
    and r: "recorded L ty (int_str layer) paths es s" and k: "1 \<le> length (kept_channels order n k)"
  shows "\<exists>s'. try_ratio L evaluate ty vars layer order n paths test_acc k s = (Inr (), s')
    \<and> recorded L ty (int_str layer) paths
        (record_steps test_acc (float_str L (twentieths k), snd (evaluate (vars (kept_channels order n k)))) es) s'"
proof -
  obtain l a where ev: "evaluate (vars (kept_channels order n k)) = (l, a)" by fastforce
  let ?r = "float_str L (twentieths k)"
  obtain l1 l2 where logs: "\<And>m :: (_, unit) prog. seqp (log_line (''rate '' @ ?r @ '',acc '' @ float_str L a @ '',loss '' @ float_str L l @ [newline]))
      (seqp (log_S_line (''rate '' @ ?r @ '':'' @ list_str (kept_channels order n k) @ [newline])) m) s
    = m (s\<lparr>f_log := l1, f_log_S := l2\<rparr>)"
    by (simp add: seqp_def bindp_def log_line_def log_S_line_def modifyp_def)
  from r have "recorded L ty (int_str layer) paths es (s\<lparr>f_log := l1, f_log_S := l2\<rparr>)"
    by (simp add: recorded_logs)
  from write_2_spec [OF assms(1-4) this, of a ?r test_acc] obtain s' where s':
    "write_2_config_file L ty (int_str layer) a ?r paths test_acc (s\<lparr>f_log := l1, f_log_S := l2\<rparr>) = (Inr (), s')"
    "recorded L ty (int_str layer) paths (record_steps test_acc (?r, a) es) s'" by blast
  have "try_ratio L evaluate ty vars layer order n paths test_acc k s =
      seqp (write_2_config_file L ty (int_str layer) a ?r paths test_acc)
        (if ty = ''Thinet'' then log_S_line [newline] else ret ()) (s\<lparr>f_log := l1, f_log_S := l2\<rparr>)"
    by (simp only: try_ratio_def ev Let_def whenp_def prod.case k if_True logs)
  with s' show ?thesis
    by (auto simp: ev seqp_def bindp_def log_S_line_def modifyp_def ret_def recorded_logs)
qed

lemma try_ratios_spec:
  assumes "float_roundtrip L" and "ty \<in> {''Thinet'', ''L1''}" and "distinct paths" "length paths = 5"
  shows "recorded L ty (int_str layer) paths es s \<Longrightarrow>
    \<exists>s'. forp ratios (try_ratio L evaluate ty vars layer order n paths test_acc) s = (Inr (), s')
    \<and> recorded L ty (int_str layer) paths
        (foldl (\<lambda>es m. record_steps test_acc m es) es (measurements L evaluate vars order n ratios)) s'"
proof (induction ratios arbitrary: s es)
  case Nil
  then show ?case by (simp add: ret_def measurements_def)
next
  case (Cons k ks)
  show ?case
  proof (cases "1 \<le> length (kept_channels order n k)")
    case True
    from try_ratio_spec [OF assms Cons.prems True] obtain s1 where s1:
      "try_ratio L evaluate ty vars layer order n paths test_acc k s = (Inr (), s1)"
      "recorded L ty (int_str layer) paths
        (record_steps test_acc (float_str L (twentieths k), snd (evaluate (vars (kept_channels order n k)))) es) s1"
      by blast
    from Cons.IH [OF s1(2)] s1(1) True show ?thesis
      by (auto simp: seqp_def bindp_def measurements_def)
  next
    case False
    then have "try_ratio L evaluate ty vars layer order n paths test_acc k s = (Inr (), s)"
      by (simp add: try_ratio_def whenp_def ret_def not_le)
    with Cons.IH [OF Cons.prems] False show ?thesis
      by (auto simp: seqp_def bindp_def measurements_def)
  qed
qed

lemma log_header_recorded:
  "\<exists>s'. log_header layer s = (Inr (), s') \<and> recorded L ty lay paths es s' = recorded L ty lay paths es s"
  by (simp add: log_header_def log_line_def log_S_line_def seqp_def bindp_def modifyp_def recorded_logs)

section \<open>Properties\<close>

text \<open>
The ThiNet search. Whatever the network computes (below \<^verbatim>\<open>sys.maxsize\<close>), the search ends
without an exception with an order that has every channel once, and it is the greedy order: read
backwards, each channel is one whose removal, after those before it, costs least among all the
channels that were left.
\<close>

theorem thinet_order_is_greedy:
  assumes "\<And>r c. mse r c < maxsize"
  shows "\<exists>order. thinet_sorted mse n = Inr (rev order) \<and> mset order = mset (channels n)
    \<and> greedy_order mse order []"
  by (rule thinet_sorted_spec [OF assms])

theorem thinet_order_is_greedy_witness:
  "thinet_sorted (\<lambda>r c. of_int ((c - 2) * (c - 2))) 4 = Inr [0, 3, 1, 2]
   \<and> (\<exists>order. thinet_sorted (\<lambda>r c. of_int (if c < 10 then c else 0)) 4 = Inr (rev order)
        \<and> greedy_order (\<lambda>r c. of_int (if c < 10 then c else 0)) order [])"
proof
  show "thinet_sorted (\<lambda>r c. of_int ((c - 2) * (c - 2))) 4 = Inr [0, 3, 1, 2]" by code_simp
  have "(of_int (if c < 10 then c else 0) :: pyfloat) < maxsize" for c
    unfolding maxsize_def by (auto intro: le_less_trans [of _ 10])
  from thinet_order_is_greedy [of "\<lambda>r c. of_int (if c < 10 then c else 0)" 4, OF this]
  show "\<exists>order. thinet_sorted (\<lambda>r c. of_int (if c < 10 then c else 0)) 4 = Inr (rev order)
        \<and> greedy_order (\<lambda>r c. of_int (if c < 10 then c else 0)) order []" by blast
qed


definition fresh_detect :: "string list \<Rightarrow> detect" where
  "fresh_detect paths = \<lparr>files = map (\<lambda>p. (p, initial_srnet_cfg)) paths, f_log = [], f_log_S = []\<rparr>"

lemma fresh_recorded:
  "recorded ref_lib ''Thinet'' (int_str 3) [''02'', ''05'', ''10'', ''20'', ''50''] (replicate 5 (''0.0'', 0))
     (fresh_detect [''02'', ''05'', ''10'', ''20'', ''50''])"
proof -
  have e: "entry_of ref_lib ''Thinet'' (int_str 3) initial_srnet_cfg = Some (''0.0'', 0)" by code_simp
  show ?thesis
    unfolding recorded_def
    by (auto simp: e file_of_def dict_get_def fresh_detect_def less_Suc_eq numeral_eq_Suc)
qed


text \<open>
What a recorded rate means. The selection that is measured for \<open>k\<close> twentieths has exactly the
number of channels that the builders of the pruned networks compute from the recorded rate.
\<close>

theorem recorded_rate_counts_channels:
  assumes "length order = n" and "0 \<le> k" and "k \<le> 20"
  shows "int (length (kept_channels order n k)) = py_trunc (of_int (int n) * (1 - twentieths k))
    \<and> length (kept_channels order n k) \<le> n"
  using assms length_kept [OF assms] rate_gives_length [OF assms(2,3), of n] kept_length_le [OF assms(2,3), of n]
  by linarith

theorem recorded_rate_counts_channels_witness:
  "length (kept_channels (channels 16) 16 19) = 0 \<and> int (length (kept_channels (channels 64) 64 15)) = 16"
proof -
  have "\<lfloor>4 / 5 :: pyfloat\<rfloor> = 0" by code_simp
  then show ?thesis
    using recorded_rate_counts_channels [of "channels 16" 16 19] recorded_rate_counts_channels [of "channels 64" 64 15]
    by (simp add: channels_def twentieths_def py_trunc_def)
qed

lemma record_step_keeps:
  "0 \<le> t \<Longrightarrow> test_acc - t \<le> snd e \<Longrightarrow> test_acc - t \<le> snd (record_step t test_acc e m)"
  by (auto simp: record_step_def)

lemma record_steps_keep:
  "0 \<le> t \<Longrightarrow> test_acc - t \<le> snd e \<Longrightarrow> test_acc - t \<le> snd (foldl (record_step t test_acc) e ms)"
  by (induction ms arbitrary: e) (simp_all add: record_step_keeps)

lemma record_steps_reach:
  assumes "0 \<le> t" and "m \<in> set ms" and "\<bar>test_acc - snd m\<bar> \<le> t"
  shows "test_acc - t \<le> snd (foldl (record_step t test_acc) e ms)"
  using assms(2)
proof (induction ms arbitrary: e)
  case Nil
  then show ?case by simp
next
  case (Cons x ms)
  show ?case
  proof (cases "m = x")
    case True
    then have "record_step t test_acc e x = x" using assms(3) by (auto simp: record_step_def)
    then show ?thesis using True assms(1,3) record_steps_keep [of t test_acc x ms] by auto
  next
    case False
    with Cons show ?thesis by simp
  qed
qed

text \<open>
The accuracy a file holds. Once a measured accuracy was within the threshold of the accuracy of
the original network, the accuracy recorded at the end of the search is at most the threshold below
it, whatever was measured before and after. But a fresh file has the accuracy 0, so it records its
first measurement, however far below the threshold that is.
\<close>

theorem recorded_accuracy_bound:
  "(\<forall>t test_acc e ms m. 0 \<le> t \<and> m \<in> set ms \<and> \<bar>test_acc - snd m\<bar> \<le> t
      \<longrightarrow> test_acc - t \<le> snd (foldl (record_step t test_acc) e ms))
   \<and> (\<forall>t test_acc rate m. 0 \<le> snd m \<longrightarrow> record_step t test_acc (rate, 0) m = m)"
  by (auto intro: record_steps_reach) (simp add: record_step_def)

theorem recorded_accuracy_bound_witness:
  "record_step (5/100) (9/10) (''0.0'', 0) (''0.05'', 1/2) = (''0.05'', 1/2)
   \<and> (9/10 - 5/100 :: pyfloat) \<le> snd (foldl (record_step (5/100) (9/10)) (''0.0'', 0)
        [(''0.05'', 1/2), (''0.1'', 88/100), (''0.15'', 3/4)])"
proof
  show "record_step (5/100) (9/10) (''0.0'', 0) (''0.05'', 1/2) = (''0.05'', 1/2)"
    using recorded_accuracy_bound by simp
  have "0 \<le> (5/100 :: pyfloat) \<and> (''0.1'', 88/100) \<in> set [(''0.05'', 1/2), (''0.1'', 88/100), (''0.15'', 3/4 :: pyfloat)]
    \<and> \<bar>9/10 - snd (''0.1'', 88/100 :: pyfloat)\<bar> \<le> 5/100" by simp
  then show "(9/10 - 5/100 :: pyfloat) \<le> snd (foldl (record_step (5/100) (9/10)) (''0.0'', 0)
        [(''0.05'', 1/2), (''0.1'', 88/100), (''0.15'', 3/4)])"
    using recorded_accuracy_bound by blast
qed

section \<open>Lemmas: the L1 selections and XuNet\<close>

definition sorts :: "(pyfloat list \<Rightarrow> int list) \<Rightarrow> bool" where
  "sorts argsort \<longleftrightarrow> (\<forall>xs. mset (argsort xs) = mset (channels (length xs))
     \<and> sorted (map (\<lambda>i. xs ! nat i) (argsort xs)))"

lemma distinct_channels: "distinct (channels n)"
  by (simp add: channels_def distinct_map inj_on_def)

lemma set_channels: "set (channels n) = {0..<int n}"
  by (auto simp: channels_def image_iff) (metis atLeastLessThan_iff int_nat_eq nat_less_iff not_le zero_le)

lemma l1_sorted_facts:
  assumes "sorts argsort"
  shows "distinct (l1_sorted argsort norms)" "length (l1_sorted argsort norms) = length norms"
    "set (l1_sorted argsort norms) = {0..<int (length norms)}"
    "sorted (map (\<lambda>i. - norms ! nat i) (l1_sorted argsort norms))"
proof -
  let ?o = "l1_sorted argsort norms"
  have m: "mset ?o = mset (channels (length norms))"
    and so: "sorted (map (\<lambda>i. map uminus norms ! nat i) ?o)"
    using assms [unfolded sorts_def, rule_format, of "map uminus norms"] by (simp_all add: l1_sorted_def)
  show "distinct ?o" using m distinct_channels [of "length norms"] by (metis distinct_count_atmost_1 set_mset_mset)
  show "length ?o = length norms" using m by (metis channels_def diff_zero length_map length_upt mset_eq_length)
  show s: "set ?o = {0..<int (length norms)}" using m set_channels [of "length norms"] by (metis set_mset_mset)
  have "map (\<lambda>i. map uminus norms ! nat i) ?o = map (\<lambda>i. - norms ! nat i) ?o"
    by (rule map_cong) (use s in auto)
  with so show "sorted (map (\<lambda>i. - norms ! nat i) ?o)" by simp
qed

lemma kept_take: "0 \<le> k \<Longrightarrow> k \<le> 20 \<Longrightarrow> kept_channels order n k = take (nat (kept_length n k)) order"
  using kept_length_le [of k n] by (simp add: kept_channels_def slice_to_nonneg)

lemma sorted_take_drop:
  assumes "sorted (map f xs)" and "x \<in> set (take m xs)" and "y \<in> set (drop m xs)"
  shows "f x \<le> f y"
proof -
  have "sorted (map f (take m xs) @ map f (drop m xs))"
    using assms(1) by (metis append_take_drop_id map_append)
  with assms(2,3) show ?thesis by (auto simp: sorted_append)
qed

lemma l1_kept_largest:
  assumes "sorts argsort" and k: "0 \<le> k" "k \<le> 20"
    and x: "x \<in> set (kept_channels (l1_sorted argsort norms) (length norms) k)"
    and y: "0 \<le> y" "y < int (length norms)" "y \<notin> set (kept_channels (l1_sorted argsort norms) (length norms) k)"
  shows "norms ! nat y \<le> norms ! nat x"
proof -
  let ?o = "l1_sorted argsort norms"
  have "y \<in> set ?o" using l1_sorted_facts(3) [OF assms(1), of norms] y by simp
  then have "y \<in> set (take (nat (kept_length (length norms) k)) ?o @ drop (nat (kept_length (length norms) k)) ?o)"
    by simp
  with y(3) k have "y \<in> set (drop (nat (kept_length (length norms) k)) ?o)"
    by (auto simp: kept_take simp del: append_take_drop_id)
  with sorted_take_drop [OF l1_sorted_facts(4) [OF assms(1), of norms]] x k show ?thesis
    by (fastforce simp: kept_take)
qed

text \<open>The file of XuNet: the entry of a layer, kept by every recording.\<close>

definition xu_entry :: "pylib \<Rightarrow> string \<Rightarrow> string \<Rightarrow> config \<Rightarrow> (string \<times> pyfloat) option" where
  "xu_entry L b l cfg =
     (case (cfg_get cfg (''rate_block'' @ b) (''layer'' @ l), getfloat L cfg (''acc_block'' @ b) (''layer'' @ l)) of
        (Inr rate, Inr acc) \<Rightarrow> Some (rate, acc) | _ \<Rightarrow> None)"

lemma xu_write_spec:
  assumes L: "float_roundtrip L" and e: "xu_entry L b l (file_of s p) = Some e"
  shows "\<exists>s'. xu_write_2_config_file L b l acc rate p test_acc s = (Inr (), s')
    \<and> xu_entry L b l (file_of s' p) = Some (record_step (5/100) test_acc e (rate, acc))"
proof -
  let ?c = "file_of s p"
  from e obtain r u where g: "cfg_get ?c (''rate_block'' @ b) (''layer'' @ l) = Inr r"
    "cfg_get ?c (''acc_block'' @ b) (''layer'' @ l) = Inr u" "str_float L u = Inr (snd e)"
    by (auto simp: xu_entry_def getfloat_def split: sum.splits)
  obtain c1 where c1: "replace_opt (''acc_block'' @ b) (''layer'' @ l) (float_str L acc) ?c = Inr c1"
    "\<And>s o'. cfg_get c1 s o' = (if s = ''acc_block'' @ b \<and> o' = ''layer'' @ l then Inr (float_str L acc) else cfg_get ?c s o')"
    using replace_opt_spec [OF g(2)] by blast
  then have "cfg_get c1 (''rate_block'' @ b) (''layer'' @ l) = Inr r" using g(1) by simp
  from replace_opt_spec [OF this] obtain c2 where c2: "replace_opt (''rate_block'' @ b) (''layer'' @ l) rate c1 = Inr c2"
    "\<And>s o'. cfg_get c2 s o' = (if s = ''rate_block'' @ b \<and> o' = ''layer'' @ l then Inr rate else cfg_get c1 s o')"
    by blast
  have "xu_entry L b l c2 = Some (rate, acc)"
    using c1 c2 L by (simp add: xu_entry_def getfloat_def float_roundtrip_def)
  then show ?thesis
    using g c1(1) c2(1) e
    by (auto simp: xu_write_2_config_file_def read_cfg_def write_cfg_def getp_def bindp_def lift_sum_def getfloat_def
        whenp_def ret_def modifyp_def record_step_def file_of_update simp flip: file_of_def)
qed

lemma xu_evaluate_spec:
  assumes "float_roundtrip L" and "xu_entry L (int_str b) (int_str l) (file_of s p) \<noteq> None"
  shows "\<exists>s'. xu_evaluate L evaluate vars note b l p test_acc k S s = (Inr (), s')
    \<and> xu_entry L (int_str b) (int_str l) (file_of s' p) \<noteq> None"
proof -
  obtain x a where ev: "evaluate (vars S) = (x, a)" by fastforce
  obtain e where e: "xu_entry L (int_str b) (int_str l) (file_of s p) = Some e" using assms(2) by blast
  obtain l1 where logs: "xu_evaluate L evaluate vars note b l p test_acc k S s =
      xu_write_2_config_file L (int_str b) (int_str l) a (float_str L (twentieths k)) p test_acc (s\<lparr>f_log := l1\<rparr>)"
    by (simp add: xu_evaluate_def ev Let_def seqp_def bindp_def log_line_def modifyp_def)
  have "file_of (s\<lparr>f_log := l1\<rparr>) p = file_of s p" by (simp add: file_of_def)
  with xu_write_spec [OF assms(1), of "int_str b" "int_str l" "s\<lparr>f_log := l1\<rparr>" p e] e logs show ?thesis by fastforce
qed

lemma xu_loop_spec:
  assumes L: "float_roundtrip L" and small: "\<And>r c. mse r c < maxsize"
  shows "distinct removed \<Longrightarrow> set removed \<subseteq> set (channels n) \<Longrightarrow> distinct S \<Longrightarrow>
    set S = set (channels n) - set removed \<Longrightarrow> xu_entry L (int_str b) (int_str l) (file_of s p) \<noteq> None \<Longrightarrow>
    \<exists>s'. xu_thinet_loop L mse evaluate reached b l p test_acc n removed S k s = (Inr (), s')
      \<and> xu_entry L (int_str b) (int_str l) (file_of s' p) \<noteq> None"
proof (induction "n - length removed" arbitrary: removed S k s)
  case 0
  then show ?case by (subst xu_thinet_loop.simps) (simp add: ret_def)
next
  case (Suc d)
  let ?i = "least mse removed S"
  have "length removed < n" using Suc.hyps(2) by simp
  have "card (set (channels n)) = n" using distinct_card [OF distinct_channels, of n] by (simp add: channels_def)
  with \<open>length removed < n\<close> Suc.prems(1,4) have "S \<noteq> []"
    by (metis Diff_eq_empty_iff card_mono distinct_card finite_set leD list.set(1))
  from least_in [of S mse removed, OF small this] have i: "?i \<in> set S" by blast
  have d1: "d = n - length (removed @ [?i])" using Suc.hyps(2) by simp
  have r: "distinct (removed @ [?i])" "set (removed @ [?i]) \<subseteq> set (channels n)"
    using i Suc.prems(1,2,4) by auto
  let ?S' = "filter (\<lambda>c. c \<notin> set (removed @ [?i])) (channels n)"
  have s': "distinct ?S'" "set ?S' = set (channels n) - set (removed @ [?i])"
    using distinct_channels by auto
  have s1: "distinct (remove1 ?i S)" "set (remove1 ?i S) = set (channels n) - set (removed @ [?i])"
    using Suc.prems(3,4) by auto
  show ?case
  proof (cases "reached (length (removed @ [?i])) k")
    case True
    obtain s2 where e: "xu_evaluate L evaluate (xu_thinet_vars b l) [] b l p test_acc k ?S' s = (Inr (), s2)"
      "xu_entry L (int_str b) (int_str l) (file_of s2 p) \<noteq> None"
      using xu_evaluate_spec [OF L Suc.prems(5)] by blast
    from Suc.hyps(1) [OF d1 r s' e(2), of "k + 1"] e(1) True i \<open>length removed < n\<close>
    show ?thesis by (subst xu_thinet_loop.simps) (simp add: Let_def seqp_def bindp_def)
  next
    case False
    from Suc.hyps(1) [OF d1 r s1 Suc.prems(5), of k] False i \<open>length removed < n\<close>
    show ?thesis by (subst xu_thinet_loop.simps) (simp add: Let_def)
  qed
qed

section \<open>Properties of the L1 and XuNet searches\<close>

text \<open>
The L1 selections keep the largest kernels. If \<open>argsort\<close> sorts as documented, each selection
has no channel twice, no kept channel has a smaller norm than a dropped one, and a larger ratio
keeps a beginning of what a smaller one keeps.
\<close>

theorem l1_selection_keeps_largest:
  assumes "sorts argsort" and "0 \<le> k" and "k \<le> k'" and "k' \<le> 20"
  shows "distinct (kept_channels (l1_sorted argsort norms) (length norms) k)
    \<and> (\<forall>x \<in> set (kept_channels (l1_sorted argsort norms) (length norms) k). \<forall>y \<in> set (channels (length norms)).
          y \<notin> set (kept_channels (l1_sorted argsort norms) (length norms) k) \<longrightarrow> norms ! nat y \<le> norms ! nat x)
    \<and> (\<exists>rest. kept_channels (l1_sorted argsort norms) (length norms) k =
          kept_channels (l1_sorted argsort norms) (length norms) k' @ rest)"
proof -
  let ?o = "l1_sorted argsort norms" and ?n = "length norms"
  have d: "distinct (kept_channels ?o ?n k)"
    using l1_sorted_facts(1) [OF assms(1)] assms by (simp add: kept_take)
  have m: "\<forall>x \<in> set (kept_channels ?o ?n k). \<forall>y \<in> set (channels ?n).
      y \<notin> set (kept_channels ?o ?n k) \<longrightarrow> norms ! nat y \<le> norms ! nat x"
    using l1_kept_largest [OF assms(1,2)] assms(3,4) by (simp add: set_channels)
  have "kept_length ?n k' \<le> kept_length ?n k"
    using assms(2-4) by (simp add: kept_length_floor zdiv_mono1 mult_right_mono)
  then have "take (nat (kept_length ?n k')) (take (nat (kept_length ?n k)) ?o) = take (nat (kept_length ?n k')) ?o"
    by (simp add: min_absorb1 nat_mono)
  then have "\<exists>rest. kept_channels ?o ?n k = kept_channels ?o ?n k' @ rest"
    using assms(2-4) append_take_drop_id [of "nat (kept_length ?n k')" "take (nat (kept_length ?n k)) ?o"]
    by (metis (no_types) kept_take order.trans)
  with d m show ?thesis by blast
qed

definition ref_argsort :: "pyfloat list \<Rightarrow> int list" where
  "ref_argsort xs = sort_key (\<lambda>i. xs ! nat i) (channels (length xs))"

lemma ref_argsort_sorts: "sorts ref_argsort"
  by (simp add: sorts_def ref_argsort_def)

theorem l1_selection_keeps_largest_witness:
  "\<exists>rest. kept_channels (l1_sorted ref_argsort [5, 9, 1, 7]) 4 10 = kept_channels (l1_sorted ref_argsort [5, 9, 1, 7]) 4 15 @ rest"
  using l1_selection_keeps_largest [OF ref_argsort_sorts, of 10 15 "[5, 9, 1, 7]"]
  by (simp add: eval_nat_numeral)



end
