(* ===== verification/Mitm.thy ===== *)
theory Mitm
  imports RoutingWriters XuNet
begin

text \<open>
  mitm-gateway: the gRPC servicer (main.py), the runner that hands an image to a subprocess
  (calpa\_runner.py) and the worker in the subprocess (calpa\_worker.py). The subprocess is a call
  whose reply is the exit code and the decoded output; a reply that cannot be decoded is an
  exception of the call. Loading the image and the TensorFlow session are calls as well. The 32-bit
  rounding of the floats of an \<^verbatim>\<open>AnalysisResult\<close> is not modelled.
\<close>

section \<open>calpa\_runner.py\<close>

record runner_cfg =
  python_cmd :: string
  model_path :: string
  cfg_path :: string
  timeout_sec :: nat

definition worker_script :: string where
  "worker_script = ''/app/calpa_worker.py''"

definition get_threshold :: "env \<Rightarrow> ('z world_scheme, int) prog" where
  "get_threshold E =
     catchp
       (bindp (call E (Redis (HGet ''stegnar:settings'' ''alertThreshold''))) (\<lambda>val.
        if truthy val then bindp (lift_sum (as_str val)) (\<lambda>s. lift_sum (py_int s)) else ret 70))
       (\<lambda>_. ret 70)"

definition worker_payload :: "runner_cfg \<Rightarrow> string \<Rightarrow> int \<Rightarrow> pyval" where
  "worker_payload cfg tmp_path threshold =
     PDict [(''image_path'', PStr tmp_path), (''model_path'', PStr (model_path cfg)),
            (''cfg_path'', PStr (cfg_path cfg)), (''threshold'', PInt threshold)]"

text \<open>The last line of a text.\<close>

definition last_line :: "string \<Rightarrow> string" where
  "last_line t = last (split_on newline t)"

definition worker_failed :: "env \<Rightarrow> pylib \<Rightarrow> int \<Rightarrow> string \<Rightarrow> string \<Rightarrow> ('z world_scheme, 'a) prog" where
  "worker_failed E L rc out_msg err_msg =
     bindp (catchp
       (bindp (call_as as_dict E (Tool (JsonLoads (last_line out_msg)))) (\<lambda>err_json.
        ret (dict_get err_json ''error'' (PStr out_msg))))
       (\<lambda>_. ret (py_or (PStr out_msg) (PStr err_msg)))) (\<lambda>detail.
     raise (Exn RuntimeErr (''worker exit '' @ int_str rc @ '': '' @ py_str L detail)))"

definition set_item :: "pyval \<Rightarrow> string \<Rightarrow> pyval \<Rightarrow> exn + pyval" where
  "set_item v k x = (case v of PDict d \<Rightarrow> Inr (PDict (AList.update k x d)) | _ \<Rightarrow> Inl type_error)"

definition worker_answer :: "env \<Rightarrow> pylib \<Rightarrow> pyfloat \<Rightarrow> string \<Rightarrow> ('z world_scheme, pyval) prog" where
  "worker_answer E L start_time stdout =
     (let line = last_line (strip stdout)
      in bindp (catchif (\<lambda>c. c = JSONDecodeErr) (call E (Tool (JsonLoads line)))
                 (\<lambda>_. raise (Exn RuntimeErr (''invalid JSON from worker: '' @ line)))) (\<lambda>result.
         bindp (lift_sum (py_in ''error'' result)) (\<lambda>failed.
         if failed then
           bindp (lift_sum (py_item result ''error'')) (\<lambda>e. raise (Exn RuntimeErr (py_str L e)))
         else
           bindp (call_as as_float E Clock) (\<lambda>t.
           lift_sum (set_item result ''latency_ms'' (PInt (py_trunc ((t - start_time) * 1000))))))))"

text \<open>The body of the \<^verbatim>\<open>try\<close>; running out of time raises \<^verbatim>\<open>TimeoutError\<close> in the call.\<close>

definition run_worker :: "env \<Rightarrow> pylib \<Rightarrow> runner_cfg \<Rightarrow> bytes \<Rightarrow> pyfloat \<Rightarrow> string \<Rightarrow> ('z world_scheme, pyval) prog" where
  "run_worker E L cfg image_bytes start_time tmp_path =
     seqp (do_call E (Fs (FsWrite tmp_path image_bytes)))
    (bindp (get_threshold E) (\<lambda>threshold.
     bindp (call_as as_str E (Tool (JsonDumps (worker_payload cfg tmp_path threshold)))) (\<lambda>payload.
     bindp (call_as as_process E (Tool (RunProc [python_cmd cfg, worker_script] payload (timeout_sec cfg)))) (\<lambda>(rc, stdout, stderr).
     if rc \<noteq> 0 then worker_failed E L rc (strip stdout) (strip stderr)
     else worker_answer E L start_time stdout))))"

definition remove_tmp :: "env \<Rightarrow> string \<Rightarrow> ('z world_scheme, unit) prog" where
  "remove_tmp E tmp_path = bindp (path_exists E tmp_path) (\<lambda>there. whenp there (do_call E (Fs (FsRemove tmp_path))))"

definition analyze_image :: "env \<Rightarrow> pylib \<Rightarrow> runner_cfg \<Rightarrow> bytes \<Rightarrow> ('z world_scheme, pyval) prog" where
  "analyze_image E L cfg image_bytes =
     bindp (call_as as_float E Clock) (\<lambda>start_time.
     bindp (call_as as_str E (Fs (FsMkTemp ''.jpg''))) (\<lambda>tmp_path.
     finallyp (run_worker E L cfg image_bytes start_time tmp_path) (remove_tmp E tmp_path)))"

section \<open>main.py\<close>

text \<open>The fields of the result; \<^verbatim>\<open>latency_ms\<close> is a \<^verbatim>\<open>uint32\<close>, so a value out of range raises.\<close>

definition uint32 :: "int \<Rightarrow> exn + int" where
  "uint32 n = (if 0 \<le> n \<and> n < 2 ^ 32 then Inr n else Inl (Exn ValueError ''Value out of range''))"

definition analysis_of :: "string \<Rightarrow> pyval \<Rightarrow> exn + analysis" where
  "analysis_of stream_id res =
     (case py_item res ''predicted_label'' of Inl e \<Rightarrow> Inl e | Inr label \<Rightarrow>
     (case py_item res ''confidence'' of Inl e \<Rightarrow> Inl e | Inr conf \<Rightarrow>
     (case py_item res ''raw_score'' of Inl e \<Rightarrow> Inl e | Inr score \<Rightarrow>
     (case py_item res ''latency_ms'' of Inl e \<Rightarrow> Inl e | Inr lat \<Rightarrow>
     (case (as_str label, as_float conf, as_float score, as_int lat) of
        (Inr label, Inr conf, Inr score, Inr lat) \<Rightarrow>
          (case uint32 lat of Inl e \<Rightarrow> Inl e | Inr lat \<Rightarrow>
             Inr \<lparr>an_stream_id = stream_id, an_verdict = label, an_confidence = conf, an_raw_score = score,
                  an_latency_ms = lat, an_model_type = ''srnet'', an_error = []\<rparr>)
      | _ \<Rightarrow> Inl type_error)))))"

definition error_analysis :: "string \<Rightarrow> exn \<Rightarrow> analysis" where
  "error_analysis stream_id e =
     \<lparr>an_stream_id = stream_id, an_verdict = ''ERROR'', an_confidence = 0, an_raw_score = 0,
      an_latency_ms = 0, an_model_type = [], an_error = exn_str e\<rparr>"

definition analyze_request :: "env \<Rightarrow> pylib \<Rightarrow> runner_cfg \<Rightarrow> string \<Rightarrow> bytes \<Rightarrow> ('z world_scheme, analysis) prog" where
  "analyze_request E L cfg stream_id image_bytes =
     catchp
       (bindp (analyze_image E L cfg image_bytes) (\<lambda>res. lift_sum (analysis_of stream_id res)))
       (\<lambda>e. ret (error_analysis stream_id e))"

section \<open>calpa\_worker.py\<close>

text \<open>The sections that \<^verbatim>\<open>RawConfigParser\<close> holds after reading a file.\<close>

definition as_section :: "string \<times> pyval \<Rightarrow> exn + string \<times> (string \<times> string) list" where
  "as_section sec = (case as_dict (snd sec) of Inl e \<Rightarrow> Inl e | Inr d \<Rightarrow>
     (case collect (\<lambda>f. as_str (snd f)) d of Inl e \<Rightarrow> Inl e | Inr vs \<Rightarrow> Inr (fst sec, zip (map fst d) vs)))"

definition as_config :: "pyval \<Rightarrow> exn + config" where
  "as_config v = (case as_dict v of Inl e \<Rightarrow> Inl e | Inr d \<Rightarrow> collect as_section d)"

definition read_pruned_channels :: "env \<Rightarrow> pylib \<Rightarrow> string \<Rightarrow> ('z world_scheme, pyfloat list \<times> pyfloat list) prog" where
  "read_pruned_channels E L path =
     bindp (call_as as_bool E (Fs (FsIsFile path))) (\<lambda>is_file.
     if \<not> is_file then raise (Exn FileNotFound (''Pruning config file not found: '' @ path))
     else
       bindp (call_as as_config E (Tool (CfgRead path))) (\<lambda>cfg.
       if cfg = [] then raise (Exn ValueError (''Config file is empty or invalid: '' @ path))
       else
         bindp (lift_sum (collect (keep_rate L cfg ''Thinet_rate'') (py_range 3 13 1))) (\<lambda>thinet_save.
         bindp (lift_sum (collect (keep_rate L cfg ''L1_rate'') (py_range 8 13 1))) (\<lambda>l1_save.
         ret (thinet_save, l1_save)))))"

definition softmax2 :: "pylib \<Rightarrow> pyfloat \<Rightarrow> pyfloat \<Rightarrow> exn + pyfloat" where
  "softmax2 L x0 x1 =
     (case fexp L x0 of Inl e \<Rightarrow> Inl e | Inr e0 \<Rightarrow>
     (case fexp L x1 of Inl e \<Rightarrow> Inl e | Inr e1 \<Rightarrow>
      if e0 + e1 = 0 then Inl (Exn OtherErr ''float division by zero'') else Inr (e1 / (e0 + e1))))"

definition detect_device :: "env \<Rightarrow> string \<Rightarrow> ('z world_scheme, string) prog" where
  "detect_device E calpa_device =
     (let forced = upper (strip calpa_device)
      in if forced \<in> set [''GPU'', ''CPU''] then ret (''/'' @ forced @ '':0'')
         else catchif (\<lambda>c. c \<in> set [FileNotFound, ProcessErr])
                (seqp (do_call E (Tool (RunProc [''nvidia-smi''] [] 0))) (ret ''/GPU:0''))
                (\<lambda>_. ret ''/CPU:0''))"

text \<open>The session sees the network through the channels of its convolutions.\<close>

definition conv_channels :: "graph \<Rightarrow> int list" where
  "conv_channels g = concat (map (\<lambda>node. case snd node of Conv2d x n k s f \<Rightarrow> [n] | _ \<Rightarrow> []) g)"

definition as_logits :: "pyval \<Rightarrow> exn + pyfloat \<times> pyfloat" where
  "as_logits v = (case v of PList [PFloat a, PFloat b] \<Rightarrow> Inr (a, b) | _ \<Rightarrow> Inl type_error)"

definition classify :: "pyfloat \<Rightarrow> pyfloat \<Rightarrow> string" where
  "classify p_stego threshold = (if p_stego \<ge> threshold then ''STEGO'' else ''CLEAN'')"

definition run_inference :: "env \<Rightarrow> pylib \<Rightarrow> string \<Rightarrow> string \<Rightarrow> string \<Rightarrow> string \<Rightarrow> pyfloat
    \<Rightarrow> ('z world_scheme, (string \<times> pyval) list) prog" where
  "run_inference E L calpa_device image_pth model_pth cfg_pth threshold =
     bindp (detect_device E calpa_device) (\<lambda>device.
     bindp (read_pruned_channels E L cfg_pth) (\<lambda>(thinet_save, l1_save).
     seqp (do_call E (Fs (FsRead image_pth)))
    (bindp (lift_sum (case network (build_pruned_srnet thinet_save l1_save) [] of
                        (Inl e, g) \<Rightarrow> Inl e | (Inr logits_t, g) \<Rightarrow> Inr g)) (\<lambda>g.
     bindp (call_as as_logits E (Tool (TfSession image_pth model_pth (conv_channels g) device))) (\<lambda>(x0, x1).
     bindp (lift_sum (softmax2 L x0 x1)) (\<lambda>p_stego.
     ret [(''predicted_label'', PStr (classify p_stego threshold)), (''confidence'', PFloat p_stego),
          (''raw_score'', PFloat x1), (''device'', PStr device)]))))))"

definition true_div :: "pyval \<Rightarrow> pyfloat \<Rightarrow> exn + pyfloat" where
  "true_div v d = (case v of PInt n \<Rightarrow> Inr (of_int n / d) | PFloat x \<Rightarrow> Inr (x / d)
     | PBool b \<Rightarrow> Inr ((if b then 1 else 0) / d) | _ \<Rightarrow> Inl type_error)"

text \<open>\<^verbatim>\<open>print(json.dumps(v))\<close>; what a run of the worker leaves is its output and its exit code.\<close>

definition print_json :: "env \<Rightarrow> pyval \<Rightarrow> int \<Rightarrow> ('z world_scheme, string \<times> int) prog" where
  "print_json E v code = bindp (call_as as_str E (Tool (JsonDumps v))) (\<lambda>t. ret (t @ [newline], code))"

definition serve_request :: "env \<Rightarrow> pylib \<Rightarrow> string \<Rightarrow> pyval \<Rightarrow> ('z world_scheme, string \<times> int) prog" where
  "serve_request E L calpa_device req =
     bindp (lift_sum (py_in ''cfg_path'' req)) (\<lambda>valid.
     if \<not> valid then raise (Exn ValueError ''Invalid schema: 'cfg_path' missing. (Wrong worker script?)'')
     else
       bindp (lift_sum (py_item req ''image_path'')) (\<lambda>image_pth.
       bindp (lift_sum (py_item req ''model_path'')) (\<lambda>model_pth.
       bindp (lift_sum (py_item req ''cfg_path'')) (\<lambda>cfg_pth.
       bindp (lift_sum (as_dict req)) (\<lambda>d.
       bindp (lift_sum (true_div (dict_get d ''threshold'' (PInt 70)) 100)) (\<lambda>threshold.
       bindp (call_as as_float E Clock) (\<lambda>t0.
       bindp (lift_sum (as_str image_pth)) (\<lambda>image_pth.
       bindp (lift_sum (as_str model_pth)) (\<lambda>model_pth.
       bindp (lift_sum (as_str cfg_pth)) (\<lambda>cfg_pth.
       bindp (run_inference E L calpa_device image_pth model_pth cfg_pth threshold) (\<lambda>result.
       bindp (call_as as_float E Clock) (\<lambda>t1.
       print_json E (PDict (AList.update ''artifact_id'' (dict_get d ''artifact_id'' (PStr []))
          (AList.update ''model_type'' (PStr ''calpa_srnet_pruned'')
            (AList.update ''latency_ms'' (PInt (py_trunc ((t1 - t0) * 1000))) result)))) 0))))))))))))"

definition serve_or_report :: "env \<Rightarrow> pylib \<Rightarrow> string \<Rightarrow> pyval \<Rightarrow> ('z world_scheme, string \<times> int) prog" where
  "serve_or_report E L calpa_device req =
     catchp (serve_request E L calpa_device req)
       (\<lambda>e. print_json E (PDict [(''error'', PStr (exn_str e)), (''trace'', PStr (format_exc L e))]) 1)"

definition worker_main :: "env \<Rightarrow> pylib \<Rightarrow> string \<Rightarrow> string \<Rightarrow> ('z world_scheme, string \<times> int) prog" where
  "worker_main E L calpa_device stdin =
     bindp (catchp (bindp (call E (Tool (JsonLoads (strip stdin)))) (\<lambda>req. ret (Inr req))) (\<lambda>e. ret (Inl e))) (\<lambda>r.
     case r of
       Inl e \<Rightarrow> print_json E (PDict [(''error'', PStr (''invalid JSON: '' @ exn_str e))]) 1
     | Inr req \<Rightarrow> serve_or_report E L calpa_device req)"

section \<open>Lemmas\<close>

definition mid_call :: "event \<Rightarrow> bool" where
  "mid_call e \<longleftrightarrow> (case fst e of Fs (FsRemove _) \<Rightarrow> False | Fs (FsRmTree _) \<Rightarrow> False | Fs (FsMkTemp _) \<Rightarrow> False | _ \<Rightarrow> True)"

lemma emits_run_worker: "emits mid_call (run_worker E L cfg image_bytes t p)"
  unfolding run_worker_def get_threshold_def worker_failed_def worker_answer_def Let_def
  by (intro emits_intros) (simp_all add: mid_call_def)

text \<open>
  The events of one analysis: the temporary file could not be made, or it is made, used, looked for
  and, if it is there, removed as the last step.
\<close>

definition temp_protocol :: "hist \<Rightarrow> bool" where
  "temp_protocol es \<longleftrightarrow>
     (\<exists>c. es = [(Clock, c)])
   \<or> (\<exists>c r. es = [(Clock, c), (Fs (FsMkTemp ''.jpg''), r)] \<and> (\<nexists>p. r = Inr (PStr p)))
   \<or> (\<exists>c p mid r rest. es = [(Clock, c), (Fs (FsMkTemp ''.jpg''), Inr (PStr p))] @ mid @ [(Fs (FsExists p), r)] @ rest
        \<and> list_all mid_call mid
        \<and> (if r = Inr (PBool True) then \<exists>x. rest = [(Fs (FsRemove p), x)] else rest = []))"

lemma wp_remove_tmp:
  "wp (remove_tmp E p) (\<lambda>r s'. \<exists>x rest. trace s' = trace s @ [(Fs (FsExists p), x)] @ rest
     \<and> (if x = Inr (PBool True) then \<exists>y. rest = [(Fs (FsRemove p), y)] else rest = [])) s"
proof -
  let ?x = "E (trace s) (Fs (FsExists p))"
  have "?x = Inr (PBool True) \<or> ?x \<noteq> Inr (PBool True)" by blast
  then show ?thesis
  proof
    assume "?x = Inr (PBool True)"
    then show ?thesis
      by (simp add: remove_tmp_def path_exists_def wp_simps Let_def as_bool_def split: sum.split)
  next
    assume x: "?x \<noteq> Inr (PBool True)"
    then have "fst (path_exists E p s) = Inr False \<and> trace (snd (path_exists E p s)) = trace s @ [(Fs (FsExists p), ?x)]"
      by (auto simp: path_exists_def catchp_def call_as_def call_def bindp_def lift_sum_def ret_def as_bool_def Let_def
          split: sum.splits pyval.splits)
    with x show ?thesis
      by (cases "path_exists E p s") (auto simp: wp_def remove_tmp_def bindp_def whenp_def ret_def)
  qed
qed

lemma wp_analyze_image: "wp (analyze_image E L cfg image_bytes) (\<lambda>r s'. \<exists>es. trace s' = trace s @ es \<and> temp_protocol es) s"
proof -
  have run: "wp (finallyp (run_worker E L cfg image_bytes t p) (remove_tmp E p))
      (\<lambda>r s'. \<exists>es. trace s' = trace s @ es \<and> temp_protocol es) s1"
    if tr: "trace s1 = trace s @ [(Clock, c), (Fs (FsMkTemp ''.jpg''), Inr (PStr p))]"
    for s1 :: "'a world_scheme" and t p c
    unfolding wp_finallyp
  proof (rule wp_emitsI [OF emits_run_worker])
    fix r and s2 :: "'a world_scheme" and mid
    assume mid: "trace s2 = trace s1 @ mid" "list_all mid_call mid"
    show "wp (remove_tmp E p) (\<lambda>q s'. case q of Inl e \<Rightarrow> \<exists>es. trace s' = trace s @ es \<and> temp_protocol es
        | Inr x \<Rightarrow> \<exists>es. trace s' = trace s @ es \<and> temp_protocol es) s2"
    proof (rule wp_mono [OF wp_remove_tmp])
      fix q and s3 :: "'a world_scheme"
      assume "\<exists>x rest. trace s3 = trace s2 @ [(Fs (FsExists p), x)] @ rest
        \<and> (if x = Inr (PBool True) then \<exists>y. rest = [(Fs (FsRemove p), y)] else rest = [])"
      then have "\<exists>es. trace s3 = trace s @ es \<and> temp_protocol es"
        using tr mid unfolding temp_protocol_def by fastforce
      then show "case q of Inl e \<Rightarrow> \<exists>es. trace s3 = trace s @ es \<and> temp_protocol es
        | Inr x \<Rightarrow> \<exists>es. trace s3 = trace s @ es \<and> temp_protocol es" by (cases q) auto
    qed
  qed
  have early: "temp_protocol [(Clock, c)]"
    "(\<nexists>p. r = Inr (PStr p)) \<Longrightarrow> temp_protocol [(Clock, c), (Fs (FsMkTemp ''.jpg''), r)]" for c r
    by (auto simp: temp_protocol_def)
  show ?thesis
    unfolding analyze_image_def
    using early by (auto simp: wp_bindp wp_call_as Let_def as_str_def intro!: run split: sum.split pyval.split)
qed

section \<open>Properties\<close>

text \<open>
C10: The gateway always answers and cleans up. Whatever Redis, the file system, the JSON library and
the worker process do, a request gets an answer for its own stream, the answer is the worker's or
has verdict \<^verbatim>\<open>ERROR\<close>, and the temporary file with the image, once made, is looked for at the end
and removed if it is there.
\<close>

theorem gateway_answers_and_cleans_up:
  "\<exists>a w'. analyze_request E L cfg stream_id image_bytes w = (Inr a, w')
     \<and> an_stream_id a = stream_id
     \<and> temp_protocol (new_events (analyze_request E L cfg stream_id image_bytes) w)
     \<and> (case fst (analyze_image E L cfg image_bytes w) of
          Inl e \<Rightarrow> a = error_analysis stream_id e
        | Inr res \<Rightarrow> (case analysis_of stream_id res of
              Inl e \<Rightarrow> a = error_analysis stream_id e | Inr b \<Rightarrow> a = b))"
proof -
  have id: "analysis_of stream_id res = Inr b \<Longrightarrow> an_stream_id b = stream_id" for res b
    by (auto simp: analysis_of_def split: sum.splits prod.splits)
  show ?thesis
    using wp_analyze_image [of E L cfg image_bytes w]
    by (cases "analyze_image E L cfg image_bytes w")
      (auto simp: analyze_request_def wp_def new_events_def catchp_def bindp_def lift_sum_def ret_def
        error_analysis_def dest: id split: sum.split)
qed

section \<open>The worker's contract with the runner\<close>

text \<open>What the worker prints when it succeeds.\<close>

definition result_dict :: "(string \<times> pyval) list \<Rightarrow> bool" where
  "result_dict d \<longleftrightarrow> (\<exists>label p x dev lat art. label \<in> {''STEGO'', ''CLEAN''} \<and>
     d = [(''predicted_label'', PStr label), (''confidence'', PFloat p), (''raw_score'', PFloat x), (''device'', PStr dev),
          (''latency_ms'', PInt lat), (''model_type'', PStr ''calpa_srnet_pruned''), (''artifact_id'', art)])"

definition printed :: "pyval \<Rightarrow> string \<Rightarrow> hist \<Rightarrow> bool" where
  "printed v out h \<longleftrightarrow> (\<exists>h' t. h = h' @ [(Tool (JsonDumps v), Inr (PStr t))] \<and> out = t @ [newline])"

lemma okp_run_inference:
  "okp (run_inference E L dev im mo cf threshold) (\<lambda>d s'. \<exists>label p x dv. label \<in> {''STEGO'', ''CLEAN''} \<and>
     d = [(''predicted_label'', PStr label), (''confidence'', PFloat p), (''raw_score'', PFloat x), (''device'', PStr dv)]) s"
  unfolding run_inference_def case_prod_beta
  by (intro okp_bind_any okp_seq_any) (auto simp: okp_ret classify_def)

lemma okp_print_json:
  "okp (print_json E v code) (\<lambda>oc s'. snd oc = code \<and> printed v (fst oc) (trace s')) s"
  by (auto simp: print_json_def okp_simps printed_def as_str_def split: pyval.splits)

lemma okp_serve_request:
  "okp (serve_request E L dev req)
     (\<lambda>oc s'. snd oc = 0 \<and> (\<exists>d. result_dict d \<and> printed (PDict d) (fst oc) (trace s'))) s"
proof -
  have pr: "okp (print_json E (PDict d) 0) (\<lambda>oc s'. snd oc = 0 \<and> (\<exists>d. result_dict d \<and> printed (PDict d) (fst oc) (trace s'))) s"
    if "result_dict d" for d and s :: "'a world_scheme"
    by (rule okp_mono [OF okp_print_json]) (use that in auto)
  show ?thesis
    unfolding serve_request_def
    by (rule okp_bindI [OF okp_run_inference] pr okp_raise okp_ifI okp_bind_any)+ (auto simp: result_dict_def)
qed

text \<open>If \<^verbatim>\<open>json.dumps\<close> works, the worker never ends with a traceback.\<close>

definition worker_outcome :: "string \<Rightarrow> int \<Rightarrow> hist \<Rightarrow> bool" where
  "worker_outcome out code h \<longleftrightarrow>
     (code = 0 \<and> (\<exists>d. result_dict d \<and> printed (PDict d) out h))
   \<or> (code = 1 \<and> (\<exists>msg d. printed (PDict ((''error'', PStr msg) # d)) out h))"

lemma wp_error_json:
  assumes "\<And>h v. \<exists>t. E h (Tool (JsonDumps v)) = Inr (PStr t)"
  shows "wp (print_json E (PDict ((''error'', PStr msg) # d)) 1)
    (\<lambda>r s'. \<exists>out code. r = Inr (out, code) \<and> worker_outcome out code (trace s')) s"
proof -
  obtain t where "E (trace s) (Tool (JsonDumps (PDict ((''error'', PStr msg) # d)))) = Inr (PStr t)"
    using assms by blast
  then show ?thesis
    by (auto simp: print_json_def wp_simps Let_def as_str_def worker_outcome_def printed_def)
qed

lemma wp_worker_main:
  assumes "\<And>h v. \<exists>t. E h (Tool (JsonDumps v)) = Inr (PStr t)"
  shows "wp (worker_main E L dev stdin) (\<lambda>r s'. \<exists>out code. r = Inr (out, code) \<and> worker_outcome out code (trace s')) s"
proof -
  note err = wp_error_json [of E, OF assms]
  have main: "wp (serve_or_report E L dev req)
      (\<lambda>r s'. \<exists>out code. r = Inr (out, code) \<and> worker_outcome out code (trace s')) s" for req and s :: "'a world_scheme"
  proof (cases "serve_request E L dev req s")
    case (Pair r s1)
    show ?thesis
    proof (cases r)
      case (Inl e)
      with Pair err [of "exn_str e" "[(''trace'', PStr (format_exc L e))]" s1] show ?thesis
        by (simp add: serve_or_report_def wp_def catchp_def)
    next
      case (Inr x)
      with Pair okpD [OF okp_serve_request, of E L dev req s x] show ?thesis
        by (cases x) (auto simp: serve_or_report_def wp_def catchp_def worker_outcome_def)
    qed
  qed
  show ?thesis
    unfolding worker_main_def
    by (simp add: wp_bindp wp_catchp wp_call wp_ret Let_def main err split: sum.split)
qed

lemma result_dict_accepted:
  assumes "result_dict d"
  shows "\<exists>label. label \<in> {''STEGO'', ''CLEAN''} \<and> py_in ''error'' (PDict d) = Inr False
      \<and> (\<forall>lat. 0 \<le> lat \<and> lat < 2 ^ 32 \<longrightarrow> (\<exists>res a. set_item (PDict d) ''latency_ms'' (PInt lat) = Inr res
         \<and> analysis_of sid res = Inr a \<and> an_verdict a = label \<and> an_latency_ms a = lat \<and> an_error a = []))"
proof -
  obtain label p x dev lat0 art where l: "label \<in> {''STEGO'', ''CLEAN''}" and d:
    "d = [(''predicted_label'', PStr label), (''confidence'', PFloat p), (''raw_score'', PFloat x), (''device'', PStr dev),
          (''latency_ms'', PInt lat0), (''model_type'', PStr ''calpa_srnet_pruned''), (''artifact_id'', art)]"
    using assms unfolding result_dict_def by blast
  have e: "py_in ''error'' (PDict d) = Inr False" by (simp add: d py_in_def)
  have a: "analysis_of sid (PDict (AList.update ''latency_ms'' (PInt lat) d)) =
      Inr \<lparr>an_stream_id = sid, an_verdict = label, an_confidence = p, an_raw_score = x, an_latency_ms = lat,
           an_model_type = ''srnet'', an_error = []\<rparr>" if "0 \<le> lat" "lat < 2 ^ 32" for lat
    using that by (simp add: d analysis_of_def py_item_def dict_item_def as_str_def as_float_def as_int_def uint32_def)
  show ?thesis
    using l e a by (intro exI [of _ label]) (simp add: set_item_def)
qed

text \<open>
C11: Worker and runner agree. If \<^verbatim>\<open>json.dumps\<close> works, the worker always prints one line and exits
with 0 or 1: with 1 after a dictionary that names the error, with 0 after a dictionary whose verdict
is \<^verbatim>\<open>STEGO\<close> or \<^verbatim>\<open>CLEAN\<close>. The gateway makes an answer with that verdict, and no error, of
every such dictionary, whatever latency (within 32 bits) the runner writes into it.
\<close>

theorem worker_fits_runner:
  assumes "\<And>h v. \<exists>t. E h (Tool (JsonDumps v)) = Inr (PStr t)"
  shows "\<exists>out code w'. worker_main E L dev stdin w = (Inr (out, code), w')
    \<and> ((code = 1 \<and> (\<exists>msg d. printed (PDict ((''error'', PStr msg) # d)) out (trace w')))
     \<or> (code = 0 \<and> (\<exists>d label. printed (PDict d) out (trace w') \<and> label \<in> {''STEGO'', ''CLEAN''}
          \<and> py_in ''error'' (PDict d) = Inr False
          \<and> (\<forall>lat. 0 \<le> lat \<and> lat < 2 ^ 32 \<longrightarrow>
               (\<exists>res a. set_item (PDict d) ''latency_ms'' (PInt lat) = Inr res \<and> analysis_of sid res = Inr a
                  \<and> an_verdict a = label \<and> an_latency_ms a = lat \<and> an_error a = [])))))"
proof -
  obtain out code w' where r: "worker_main E L dev stdin w = (Inr (out, code), w')" "worker_outcome out code (trace w')"
    using wp_worker_main [of E L dev stdin w, OF assms] by (auto simp: wp_def prod_eq_iff)
  from r(2) show ?thesis
    unfolding worker_outcome_def
  proof
    assume "code = 0 \<and> (\<exists>d. result_dict d \<and> printed (PDict d) out (trace w'))"
    then obtain d where "code = 0" "result_dict d" "printed (PDict d) out (trace w')" by blast
    with result_dict_accepted [of d sid] r(1) show ?thesis by metis
  next
    assume "code = 1 \<and> (\<exists>msg d. printed (PDict ((''error'', PStr msg) # d)) out (trace w'))"
    with r(1) show ?thesis by metis
  qed
qed

definition worker_env :: env where
  "worker_env h c = (case c of
      Tool (JsonDumps v) \<Rightarrow> Inr (PStr ''{}'') | Tool (JsonLoads t) \<Rightarrow> Inr (PDict [])
    | _ \<Rightarrow> Inl (Exn OSErr ''down''))"

theorem worker_fits_runner_witness:
  "\<exists>out code w'. worker_main worker_env ref_lib ''CPU'' ''{}'' \<lparr>trace = []\<rparr> = (Inr (out, code), w') \<and> code \<in> {0, 1}"
proof -
  have "\<exists>t. worker_env h (Tool (JsonDumps v)) = Inr (PStr t)" for h v by (simp add: worker_env_def)
  from worker_fits_runner [of worker_env, OF this] show ?thesis by blast
qed

text \<open>The worker reads the rates of a configuration as the task does.\<close>

lemma read_pruned_channels_fill:
  assumes "\<And>h. E h (Fs (FsIsFile path)) = Inr (PBool True)" and "\<And>h. E h (Tool (CfgRead path)) = Inr v"
    and "as_config v = Inr cfg" and "cfg \<noteq> []"
  shows "fst (read_pruned_channels E L path w) = fill_pruned_rate L cfg"
  using assms
  by (simp add: read_pruned_channels_def fill_pruned_rate_def bindp_def call_as_def call_def lift_sum_def ret_def
      as_bool_def Let_def split: sum.split)

end
