(* ===== verification/Endpoint.thy ===== *)
theory Endpoint
  imports Effects Messages
begin

text \<open>
  endpoint-agent: the packet filter of the sniffer, the watcher of the TLS key log, the generator of
  the chunks that a cycle streams to the router, the heartbeat, and the receiver of the demo. A
  packet is what Scapy shows of its layers; what an iteration of a loop finds at its \<^verbatim>\<open>await\<close>s is an
  argument.
\<close>

section \<open>sniffer.py\<close>

record packet =
  has_ip :: bool
  has_tcp :: bool
  has_udp :: bool
  ip_bytes :: bytes
  ip_src :: string
  ip_dst :: string
  tcp_ports :: "16 word \<times> 16 word"
  udp_ports :: "16 word \<times> 16 word"
  raw_load :: "bytes option"

record captured =
  cp_raw_bytes :: bytes
  cp_sha256 :: string
  cp_src_ip :: string
  cp_dst_ip :: string
  cp_src_port :: "16 word"
  cp_dst_port :: "16 word"
  cp_captured_at :: int

definition handle_pkt :: "env \<Rightarrow> pylib \<Rightarrow> packet \<Rightarrow> ('z world_scheme, captured option) prog" where
  "handle_pkt E L pkt =
     (if \<not> (has_ip pkt \<and> (has_tcp pkt \<or> has_udp pkt)) then ret None
      else
        let ports = (if has_tcp pkt then tcp_ports pkt else udp_ports pkt)
        in if raw_load pkt = None \<or> raw_load pkt = Some [] then ret None
           else
             bindp (now_ms E) (\<lambda>now.
             ret (Some \<lparr>cp_raw_bytes = ip_bytes pkt, cp_sha256 = sha256_hex L (ip_bytes pkt),
                        cp_src_ip = ip_src pkt, cp_dst_ip = ip_dst pkt,
                        cp_src_port = fst ports, cp_dst_port = snd ports, cp_captured_at = now\<rparr>)))"

text \<open>\<^verbatim>\<open>queue.put_nowait\<close> on the bounded queue: where it is full the packet is lost.\<close>

definition queue_size :: nat where
  "queue_size = 1000"

definition put_nowait :: "'a list \<Rightarrow> 'a \<Rightarrow> exn + 'a list" where
  "put_nowait q x = (if length q < queue_size then Inr (q @ [x]) else Inl (Exn QueueFull []))"

section \<open>key\_extractor.py\<close>

text \<open>The lines of a text file: \<^verbatim>\<open>\n\<close>, \<^verbatim>\<open>\r\<close> and the two together end a line; the last may be open.\<close>

fun file_lines :: "string \<Rightarrow> string \<Rightarrow> string list" where
  "file_lines cur [] = (if cur = [] then [] else [rev cur])"
| "file_lines cur (c # cs) =
     (if c = CHR 0x0D \<and> cs \<noteq> [] \<and> hd cs = newline then rev cur # file_lines [] (tl cs)
      else if c = newline \<or> c = CHR 0x0D then rev cur # file_lines [] cs
      else file_lines (c # cur) cs)"

definition key_line :: "string \<Rightarrow> bool" where
  "key_line l \<longleftrightarrow> l \<noteq> [] \<and> \<not> startswith l ''#''"

text \<open>One poll: what is there of the file (nothing if it is missing), and the position read up to.\<close>

definition keylog_poll :: "nat \<Rightarrow> string option \<Rightarrow> string list \<times> nat" where
  "keylog_poll position content =
     (case content of None \<Rightarrow> ([], position)
      | Some text \<Rightarrow>
          if length text > position then (filter key_line (file_lines [] (drop position text)), length text)
          else ([], position))"

fun watch_keylog :: "nat \<Rightarrow> string option list \<Rightarrow> string list" where
  "watch_keylog position [] = []"
| "watch_keylog position (content # polls) =
     (case keylog_poll position content of (lines, position') \<Rightarrow> lines @ watch_keylog position' polls)"

section \<open>grpc\_client.py\<close>

fun str_less :: "string \<Rightarrow> string \<Rightarrow> bool" where
  "str_less s [] = False"
| "str_less [] (d # t) = True"
| "str_less (c # s) (d # t) =
     ((of_char c :: nat) < of_char d \<or> c = d \<and> str_less s t)"

definition addr :: "string \<Rightarrow> 16 word \<Rightarrow> string" where
  "addr ip port = ip @ CHR '':'' # int_str (uint port)"

definition endpoint_stream_id :: "captured \<Rightarrow> string" where
  "endpoint_stream_id pkt =
     (let ep_a = addr (cp_src_ip pkt) (cp_src_port pkt);
          ep_b = addr (cp_dst_ip pkt) (cp_dst_port pkt)
      in if cp_dst_port pkt \<in> set [80, 443] \<or> str_less ep_b ep_a then ep_a @ ''-'' @ ep_b else ep_b @ ''-'' @ ep_a)"

definition packet_chunk :: "string \<Rightarrow> captured \<Rightarrow> string list \<Rightarrow> payload_chunk" where
  "packet_chunk endpoint_id pkt ssl_lines =
     \<lparr>ck_endpoint_id = endpoint_id, ck_stream_id = endpoint_stream_id pkt, ck_raw_bytes = cp_raw_bytes pkt,
      ck_sha256 = cp_sha256 pkt, ck_ssl_keylog = join [newline] ssl_lines, ck_src_ip = cp_src_ip pkt,
      ck_dst_ip = cp_dst_ip pkt, ck_src_port = ucast (cp_src_port pkt), ck_dst_port = ucast (cp_dst_port pkt),
      ck_captured_at = cp_captured_at pkt\<rparr>"

text \<open>
  What an iteration of the generator finds: the stop event, the monotonic clock, the packet (none
  after a second without one) and the key lines that were waiting.
\<close>

record iteration =
  it_stop :: bool
  it_clock :: pyfloat
  it_packet :: "captured option"
  it_keys :: "string list"

fun chunk_generator :: "string \<Rightarrow> pyfloat \<Rightarrow> iteration list \<Rightarrow> payload_chunk list" where
  "chunk_generator endpoint_id deadline [] = []"
| "chunk_generator endpoint_id deadline (i # is) =
     (if it_stop i then []
      else if it_clock i \<ge> deadline then []
      else (case it_packet i of
          None \<Rightarrow> chunk_generator endpoint_id deadline is
        | Some pkt \<Rightarrow> packet_chunk endpoint_id pkt (it_keys i) # chunk_generator endpoint_id deadline is))"

definition cycle_duration :: pyfloat where
  "cycle_duration = 20"

definition stream_cycle :: "env \<Rightarrow> string \<Rightarrow> iteration list \<Rightarrow> ('z world_scheme, nat) prog" where
  "stream_cycle E endpoint_id iterations =
     bindp (call_as as_float E Monotonic) (\<lambda>t.
     let chunks = chunk_generator endpoint_id (t + cycle_duration) iterations
     in seqp (forp chunks (\<lambda>c. do_call E (Grpc (GrpcSendChunk (ck_endpoint_id c) (ck_stream_id c) (ck_raw_bytes c)
                (ck_sha256 c) (ck_ssl_keylog c) (ck_src_ip c) (ck_dst_ip c) (unat (ck_src_port c))
                (unat (ck_dst_port c)) (ck_captured_at c)))))
       (seqp (do_call E (Grpc GrpcStreamAck)) (ret (length chunks))))"

text \<open>The cycles: any error of one is logged, three seconds later the next begins.\<close>

definition stream_to_router :: "env \<Rightarrow> string \<Rightarrow> iteration list list \<Rightarrow> ('z world_scheme, unit) prog" where
  "stream_to_router E endpoint_id cycles =
     forp cycles (\<lambda>iterations.
       seqp (catchp (bindp (stream_cycle E endpoint_id iterations) (\<lambda>_. ret ())) (\<lambda>_. ret ()))
            (catchp (do_call E (Sleep 3)) (\<lambda>_. ret ())))"

section \<open>main.py: heartbeat\<close>

definition heartbeat :: "env \<Rightarrow> string \<Rightarrow> string \<Rightarrow> string \<Rightarrow> ('z world_scheme, unit) prog" where
  "heartbeat E soc_api_url endpoint_id my_ip =
     catchp
       (bindp (call_as as_str E (Tool (JsonDumps (PDict [(''endpoint_id'', PStr endpoint_id), (''ip'', PStr my_ip)])))) (\<lambda>body.
        bindp (call_as as_str E (Http (HttpPost (soc_api_url @ ''/api/agents/heartbeat'') body))) (\<lambda>reply.
        bindp (call_as as_dict E (Tool (JsonLoads reply))) (\<lambda>result. ret ()))))
       (\<lambda>_. ret ())"

definition heartbeat_loop :: "env \<Rightarrow> string \<Rightarrow> string \<Rightarrow> exn + string \<Rightarrow> nat \<Rightarrow> ('z world_scheme, unit) prog" where
  "heartbeat_loop E soc_api_url endpoint_id host_ip beats =
     (let my_ip = (case host_ip of Inl e \<Rightarrow> ''unknown'' | Inr ip \<Rightarrow> ip)
      in forp [0..<beats] (\<lambda>_. heartbeat E soc_api_url endpoint_id my_ip))"

section \<open>receiver.py\<close>

record http_answer =
  status :: int
  headers :: "(string \<times> string) list"
  answer_body :: string

definition send_error :: "int \<Rightarrow> string \<Rightarrow> http_answer" where
  "send_error code msg = \<lparr>status = code, headers = [], answer_body = msg\<rparr>"

definition text_answer :: "string \<Rightarrow> http_answer" where
  "text_answer t = \<lparr>status = 200, headers = [(''Content-Type'', ''text/plain'')], answer_body = t\<rparr>"

definition save_dir :: string where
  "save_dir = ''/received_images''"

text \<open>\<open>rest\<close> is what the client sends after the headers; a negative length reads all of it.\<close>

definition receiver_post :: "env \<Rightarrow> string \<Rightarrow> string option \<Rightarrow> bytes \<Rightarrow> ('z world_scheme, http_answer) prog" where
  "receiver_post E path content_length rest =
     (if path = ''/upload'' then
        bindp (lift_sum (case content_length of None \<Rightarrow> Inr 0 | Some s \<Rightarrow> py_int s)) (\<lambda>n.
        if n = 0 then ret (send_error 400 ''Missing Content-Length'')
        else
          bindp (call_as as_str E UuidHex) (\<lambda>uuid.
          let save_path = save_dir @ ''/received_'' @ take 8 uuid @ ''.jpg''
          in seqp (do_call E (Fs (FsMakeDirs save_dir)))
            (seqp (do_call E (Fs (FsWrite save_path (if n < 0 then rest else take (nat n) rest))))
              (ret (text_answer ''Upload successful'')))))
      else ret (send_error 404 ''Not Found''))"

definition receiver_get :: http_answer where
  "receiver_get = text_answer ''Receiver is active''"

section \<open>Lemmas\<close>

lemma file_lines_append:
  "x \<noteq> [] \<Longrightarrow> last x = newline \<Longrightarrow> file_lines cur (x @ y) = file_lines cur x @ file_lines [] y"
proof (induction cur x rule: file_lines.induct)
  case (1 cur)
  then show ?case by simp
next
  case (2 cur c cs)
  show ?case
  proof (cases "cs = []")
    case True
    with 2 show ?thesis by simp
  next
    case False
    then have l: "last cs = newline" using 2(5) by simp
    show ?thesis
    proof (cases "c = CHR 0x0D \<and> hd cs = newline")
      case True
      show ?thesis
      proof (cases "tl cs = []")
        case True
        with \<open>cs \<noteq> []\<close> \<open>c = CHR 0x0D \<and> hd cs = newline\<close> show ?thesis
          by (cases cs) auto
      next
        case tl: False
        then have "last (tl cs) = newline" using l by (simp add: last_tl)
        with 2(1) True False tl show ?thesis by auto
      qed
    next
      case not_crlf: False
      with False l 2(2,3) show ?thesis by auto
    qed
  qed
qed

text \<open>A file that grows by whole lines between the polls (or is missing at some), and its last content.\<close>

fun appended :: "string \<Rightarrow> string option list \<Rightarrow> bool" where
  "appended prev [] = True"
| "appended prev (None # polls) = appended prev polls"
| "appended prev (Some t # polls) =
     (take (length prev) t = prev
      \<and> (drop (length prev) t = [] \<or> last (drop (length prev) t) = newline) \<and> appended t polls)"

fun final_content :: "string \<Rightarrow> string option list \<Rightarrow> string" where
  "final_content prev [] = prev"
| "final_content prev (None # polls) = final_content prev polls"
| "final_content prev (Some t # polls) = final_content t polls"

lemma watch_keylog_lines:
  "appended prev polls \<Longrightarrow> prev = [] \<or> last prev = newline \<Longrightarrow>
     filter key_line (file_lines [] prev) @ watch_keylog (length prev) polls
       = filter key_line (file_lines [] (final_content prev polls))"
proof (induction prev polls rule: appended.induct)
  case (3 prev t polls)
  let ?u = "drop (length prev) t"
  have t: "t = prev @ ?u" using 3(2) by (metis append_take_drop_id appended.simps(3))
  have lines: "file_lines [] t = file_lines [] prev @ file_lines [] ?u"
    using file_lines_append [of prev "[]" ?u] t 3(3) by (cases "prev = []") auto
  have "t = [] \<or> last t = newline"
    using 3(2,3) t by (cases "?u = []") (metis append_Nil2, metis appended.simps(3) last_appendR)
  from 3(1) [OF _ this] 3(2) have ih: "filter key_line (file_lines [] t) @ watch_keylog (length t) polls
      = filter key_line (file_lines [] (final_content t polls))" by simp
  show ?case
  proof (cases "length t > length prev")
    case True
    with ih lines show ?thesis by (simp add: keylog_poll_def)
  next
    case False
    then have "?u = []" by simp
    with t have "t = prev" by simp
    with ih show ?thesis by (simp add: keylog_poll_def)
  qed
qed (simp_all add: keylog_poll_def)

lemma str_less_irrefl: "\<not> str_less s s"
  by (induction s) auto

lemma str_less_asym: "str_less s t \<Longrightarrow> \<not> str_less t s"
  by (induction s t rule: str_less.induct) auto

lemma str_less_total: "s \<noteq> t \<Longrightarrow> str_less s t \<or> str_less t s"
proof (induction s t rule: str_less.induct)
  case (3 c s d t)
  have "c \<noteq> d \<Longrightarrow> (of_char c :: nat) < of_char d \<or> (of_char d :: nat) < of_char c"
    using linorder_neqE_nat [of "of_char c" "of_char d"] by auto
  with 3 show ?case by (cases "c = d") auto
qed (auto simp: neq_Nil_conv)

lemma join_dash_inj:
  assumes "CHR ''-'' \<notin> set a" and "CHR ''-'' \<notin> set b" and "a @ ''-'' @ b = b @ ''-'' @ a"
  shows "a = b"
proof -
  have "takeWhile (\<lambda>c. c \<noteq> CHR ''-'') (a @ ''-'' @ b) = a" using assms(1) by (induction a) auto
  moreover have "takeWhile (\<lambda>c. c \<noteq> CHR ''-'') (b @ ''-'' @ a) = b" using assms(2) by (induction b) auto
  ultimately show ?thesis using assms(3) by simp
qed

text \<open>The packet that goes the other way.\<close>

definition reverse_packet :: "captured \<Rightarrow> captured" where
  "reverse_packet p = p\<lparr>cp_src_ip := cp_dst_ip p, cp_dst_ip := cp_src_ip p,
     cp_src_port := cp_dst_port p, cp_dst_port := cp_src_port p\<rparr>"

lemma digits_no_dash: "CHR ''-'' \<notin> set (int_str (uint (w :: 16 word)))"
proof -
  have "\<not> is_digit CHR ''-''" by code_simp
  then show ?thesis using nat_str_digits [of "CHR ''-''"] by (auto simp: int_str_def)
qed

section \<open>Properties\<close>

text \<open>A poll that sees the beginning of a line queues it, and the rest as another line.\<close>

lemma split_line_lost:
  "watch_keylog 0 [Some ''CLIENT_RA'', Some (''CLIENT_RANDOM 1'' @ [newline])] = [''CLIENT_RA'', ''NDOM 1'']"
  by (simp add: keylog_poll_def key_line_def)

text \<open>
When both directions of a connection share a stream. For addresses without a dash, a packet
and the one that goes the other way get the same stream name exactly if both ends are the same, or
if no end that is a web port (80 or 443) is the destination of the end that sorts first, and not
both ends are web ports. So a client that sorts below its web server has two streams, although the
name is meant to be independent of the direction.
\<close>

theorem stream_id_of_both_directions:
  assumes "CHR ''-'' \<notin> set (cp_src_ip p)" and "CHR ''-'' \<notin> set (cp_dst_ip p)"
    and "a = addr (cp_src_ip p) (cp_src_port p)" and "b = addr (cp_dst_ip p) (cp_dst_port p)"
  shows "endpoint_stream_id (reverse_packet p) = endpoint_stream_id p \<longleftrightarrow>
    a = b \<or> \<not> (cp_dst_port p \<in> {80, 443} \<and> (cp_src_port p \<in> {80, 443} \<or> str_less a b))
          \<and> \<not> (cp_src_port p \<in> {80, 443} \<and> str_less b a)"
proof (cases "a = b")
  case True
  with assms(3,4) show ?thesis by (auto simp: endpoint_stream_id_def reverse_packet_def Let_def)
next
  case False
  have nd: "CHR ''-'' \<notin> set a" "CHR ''-'' \<notin> set b"
    using assms digits_no_dash by (auto simp: addr_def)
  have ne: "a @ ''-'' @ b \<noteq> b @ ''-'' @ a" using join_dash_inj [OF nd] False by blast
  from False str_less_total [of a b] str_less_asym [of a b] ne show ?thesis
    by (auto simp: endpoint_stream_id_def reverse_packet_def Let_def simp flip: assms(3,4))
qed

theorem stream_id_of_both_directions_witness:
  "\<exists>p. cp_dst_port p = 443 \<and> endpoint_stream_id (reverse_packet p) \<noteq> endpoint_stream_id p"
proof -
  let ?p = "\<lparr>cp_raw_bytes = [], cp_sha256 = [], cp_src_ip = ''10.0.0.5'', cp_dst_ip = ''10.0.0.9'',
     cp_src_port = 50000, cp_dst_port = 443, cp_captured_at = 0\<rparr>"
  have "endpoint_stream_id (reverse_packet ?p) \<noteq> endpoint_stream_id ?p"
    by (subst stream_id_of_both_directions [OF _ _ refl refl]) (simp_all add: addr_def print_defs)
  then show ?thesis by (intro exI [of _ ?p]) simp
qed

end
