(* ===== verification/Gateways.thy ===== *)
theory Gateways
  imports Endpoint Images
begin

text \<open>
  The HTTP side of the system: stegnar-proxy/addon.py, the hooks of the intercepting proxy, and
  install-server/serve.py. What mitmproxy shows of a flow, and the parts the email parser finds in a
  message, are arguments.
\<close>

section \<open>addon.py\<close>

text \<open>The content and the \<^verbatim>\<open>Content-Type\<close> header of a request or response.\<close>

record http_message =
  content :: "bytes option"
  content_type :: "string option"

text \<open>The connections of a flow: the peer's address where there is one.\<close>

record http_flow =
  client_peer :: "(string \<times> int) option"
  server_peer :: "(string \<times> int) option"

definition has_content :: "http_message option \<Rightarrow> bool" where
  "has_content m = (case m of None \<Rightarrow> False | Some h \<Rightarrow> (case content h of None \<Rightarrow> False | Some c \<Rightarrow> c \<noteq> []))"

definition body_of :: "http_message option \<Rightarrow> bytes" where
  "body_of m = (case m of None \<Rightarrow> [] | Some h \<Rightarrow> (case content h of None \<Rightarrow> [] | Some c \<Rightarrow> c))"

definition type_of :: "http_message option \<Rightarrow> string" where
  "type_of m = (case m of None \<Rightarrow> [] | Some h \<Rightarrow> (case content_type h of None \<Rightarrow> [] | Some t \<Rightarrow> t))"

definition peer_or :: "(string \<times> int) option \<Rightarrow> int \<Rightarrow> string \<times> int" where
  "peer_or peer port = (case peer of None \<Rightarrow> (''0.0.0.0'', port) | Some p \<Rightarrow> p)"

record proxy = world +
  proxy_queue :: "payload_chunk list"

definition proxy_chunk :: "pylib \<Rightarrow> http_flow \<Rightarrow> bytes \<Rightarrow> int \<Rightarrow> payload_chunk" where
  "proxy_chunk L fl img_bytes now =
     (let (client_ip, client_port) = peer_or (client_peer fl) 0;
          (server_ip, server_port) = peer_or (server_peer fl) 443
      in \<lparr>ck_endpoint_id = ''proxy-'' @ client_ip,
          ck_stream_id = client_ip @ '':'' @ int_str client_port @ ''-'' @ server_ip @ '':'' @ int_str server_port,
          ck_raw_bytes = img_bytes, ck_sha256 = sha256_hex L img_bytes, ck_ssl_keylog = [],
          ck_src_ip = client_ip, ck_dst_ip = server_ip,
          ck_src_port = word_of_int client_port, ck_dst_port = word_of_int server_port, ck_captured_at = now\<rparr>)"

definition process_image :: "env \<Rightarrow> pylib \<Rightarrow> http_flow \<Rightarrow> bytes \<Rightarrow> ('z proxy_scheme, unit) prog" where
  "process_image E L fl img_bytes =
     whenp (length img_bytes > 1000)
       (bindp (now_ms E) (\<lambda>now.
        modifyp (\<lambda>s. s\<lparr>proxy_queue := proxy_queue s @ [proxy_chunk L fl img_bytes now]\<rparr>)))"

definition looks_like_image :: "http_message option \<Rightarrow> bool" where
  "looks_like_image m \<longleftrightarrow> contains (lower (type_of m)) ''image/'' \<or> addon_sniff_image (body_of m)"

text \<open>
  The parts of a MIME message in the order of \<^verbatim>\<open>walk\<close>: the main type and the content, either of
  which may raise. \<^verbatim>\<open>message_from_bytes\<close> itself may raise as well.
\<close>

definition mime_part :: "env \<Rightarrow> pylib \<Rightarrow> http_flow \<Rightarrow> exn + string \<times> (exn + bytes) \<Rightarrow> ('z proxy_scheme, unit) prog" where
  "mime_part E L fl part =
     bindp (lift_sum part) (\<lambda>(maintype, body).
     whenp (maintype = ''image'')
       (bindp (lift_sum body) (\<lambda>img_bytes.
        whenp (img_bytes \<noteq> []) (process_image E L fl img_bytes))))"

definition proxy_request :: "env \<Rightarrow> pylib \<Rightarrow> http_flow \<Rightarrow> http_message option \<Rightarrow> (exn + (exn + string \<times> (exn + bytes)) list)
    \<Rightarrow> ('z proxy_scheme, unit) prog" where
  "proxy_request E L fl req mime =
     (if has_content req then
        (if looks_like_image req then process_image E L fl (body_of req)
         else if contains (lower (type_of req)) ''message/rfc822'' then
           catchp (bindp (lift_sum mime) (\<lambda>parts. forp parts (mime_part E L fl))) (\<lambda>_. ret ())
         else ret ())
      else ret ())"

definition proxy_response :: "env \<Rightarrow> pylib \<Rightarrow> http_flow \<Rightarrow> http_message option \<Rightarrow> ('z proxy_scheme, unit) prog" where
  "proxy_response E L fl resp =
     (if has_content resp \<and> looks_like_image resp then process_image E L fl (body_of resp) else ret ())"

section \<open>serve.py\<close>

definition placeholder :: string where
  "placeholder = ''__SERVER_IP_PLACEHOLDER__''"

definition script_name :: "string \<Rightarrow> string" where
  "script_name path = (if path = ''/install.sh'' then ''install.sh'' else ''install.ps1'')"

definition script_type :: "string \<Rightarrow> string" where
  "script_type file_name = (if endswith file_name ''.sh'' then ''text/x-shellscript'' else ''text/plain'')"

text \<open>\<open>utf8_len\<close> is the length of a text in UTF-8.\<close>

definition utf8_len :: "string \<Rightarrow> nat" where
  "utf8_len s = sum_list (map (\<lambda>c. if (of_char c :: nat) < 128 then 1 else 2) s)"

definition serve_script :: "env \<Rightarrow> string \<Rightarrow> string option \<Rightarrow> ('z world_scheme, http_answer) prog" where
  "serve_script E path host =
     (let host_header = (case host of None \<Rightarrow> ''localhost'' | Some h \<Rightarrow> h);
          server_ip = hd (split_on CHR '':'' host_header);
          file_name = script_name path;
          file_path = ''/app/'' @ file_name
      in bindp (path_exists E file_path) (\<lambda>there.
         if \<not> there then ret (send_error 404 (''Script Template Not Found: '' @ file_name))
         else
           bindp (call_as as_str E (Fs (FsRead file_path))) (\<lambda>script.
           let configured = replace_str placeholder server_ip script
           in ret \<lparr>status = 200,
                   headers = [(''Content-Type'', script_type file_name @ ''; charset=utf-8''),
                              (''Content-Length'', int_str (int (utf8_len configured)))],
                   answer_body = configured\<rparr>)))"

definition cert_path :: string where
  "cert_path = ''/app/certs/mitmproxy-ca-cert.pem''"

definition serve_cert :: "env \<Rightarrow> ('z world_scheme, http_answer) prog" where
  "serve_cert E =
     bindp (path_exists E cert_path) (\<lambda>there.
     if \<not> there then ret (send_error 404 ''CA Certificate Not Found'')
     else
       bindp (call_as as_int E (Fs (FsSize cert_path))) (\<lambda>n.
       bindp (call_as as_str E (Fs (FsRead cert_path))) (\<lambda>pem.
       ret \<lparr>status = 200, headers = [(''Content-Type'', ''application/x-x509-ca-cert''), (''Content-Length'', int_str n)],
            answer_body = pem\<rparr>)))"

text \<open>\<open>static\<close> is the handler of the library for every other path.\<close>

definition do_get :: "env \<Rightarrow> (string \<Rightarrow> ('z world_scheme, http_answer) prog) \<Rightarrow> string \<Rightarrow> string option
    \<Rightarrow> ('z world_scheme, http_answer) prog" where
  "do_get E static path host =
     (if path \<in> set [''/install.sh'', ''/install.ps1''] then serve_script E path host
      else if path = ''/mitmproxy-ca-cert.pem'' then serve_cert E
      else static path)"

section \<open>Lemmas\<close>

text \<open>The images of a request: its body, or the image parts of a mail up to the first that fails.\<close>

fun part_images :: "(exn + string \<times> (exn + bytes)) list \<Rightarrow> bytes list" where
  "part_images [] = []"
| "part_images (Inl e # parts) = []"
| "part_images (Inr (maintype, body) # parts) =
     (if maintype \<noteq> ''image'' then part_images parts
      else (case body of Inl e \<Rightarrow> [] | Inr b \<Rightarrow> (if b = [] then part_images parts else b # part_images parts)))"

definition request_images :: "http_message option \<Rightarrow> (exn + (exn + string \<times> (exn + bytes)) list) \<Rightarrow> bytes list" where
  "request_images req mime =
     (if \<not> has_content req then []
      else if looks_like_image req then [body_of req]
      else if contains (lower (type_of req)) ''message/rfc822''
        then (case mime of Inl e \<Rightarrow> [] | Inr parts \<Rightarrow> part_images parts)
      else [])"

definition queued :: "'z proxy_scheme \<Rightarrow> bytes list" where
  "queued w = map ck_raw_bytes (proxy_queue w)"

definition big :: "bytes list \<Rightarrow> bytes list" where
  "big = filter (\<lambda>b. length b > 1000)"

lemma big_simps [simp]:
  "big [] = []" "big (b # bs) = (if length b > 1000 then b # big bs else big bs)"
  by (simp_all add: big_def)

text \<open>A hook adds images to the queue and changes nothing else of the addon.\<close>

definition queues :: "bytes list \<Rightarrow> 'z proxy_scheme \<Rightarrow> 'z proxy_scheme \<Rightarrow> bool" where
  "queues bs w w' \<longleftrightarrow> queued w' = queued w @ big bs \<and> proxy.more w' = proxy.more w"

lemma queues_Nil [simp]: "queues [] w w"
  by (simp add: queues_def)

lemma queues_Cons: "queues [b] w w' \<Longrightarrow> queues bs w' w'' \<Longrightarrow> queues (b # bs) w w''"
  by (auto simp: queues_def)

lemma process_image_queues:
  assumes "\<And>h. \<exists>t. E h Clock = Inr (PFloat t)"
  shows "\<exists>w'. process_image E L fl b w = (Inr (), w') \<and> queues [b] w w'"
proof -
  obtain t where "E (trace w) Clock = Inr (PFloat t)" using assms by blast
  then show ?thesis
    by (simp add: process_image_def whenp_def now_ms_def call_as_def call_def bindp_def lift_sum_def as_float_def
        ret_def modifyp_def queues_def queued_def proxy_chunk_def Let_def case_prod_beta)
qed

lemma mime_parts_queue:
  assumes clock: "\<And>h. \<exists>t. E h Clock = Inr (PFloat t)"
  shows "\<exists>r w'. forp parts (mime_part E L fl) w = (r, w') \<and> queues (part_images parts) w w'"
proof (induction parts arbitrary: w rule: part_images.induct)
  case 1
  then show ?case by (simp add: ret_def)
next
  case (2 e parts)
  then show ?case by (simp add: mime_part_def seqp_def bindp_def lift_sum_def)
next
  case (3 maintype body parts)
  show ?case
  proof (cases "maintype = ''image''")
    case False
    with 3(1) [of w] show ?thesis by (simp add: mime_part_def seqp_def bindp_def lift_sum_def whenp_def ret_def)
  next
    case img: True
    show ?thesis
    proof (cases body)
      case (Inl e)
      with img show ?thesis by (simp add: mime_part_def seqp_def bindp_def lift_sum_def whenp_def)
    next
      case (Inr b)
      show ?thesis
      proof (cases "b = []")
        case True
        with img Inr 3(2) [of b w] show ?thesis
          by (simp add: mime_part_def seqp_def bindp_def lift_sum_def whenp_def ret_def)
      next
        case False
        obtain w1 where w1: "process_image E L fl b w = (Inr (), w1)" "queues [b] w w1"
          using process_image_queues [of E, OF clock] by blast
        with img Inr False 3(3) [of b w1] show ?thesis
          by (auto simp: mime_part_def seqp_def bindp_def lift_sum_def whenp_def intro: queues_Cons)
      qed
    qed
  qed
qed

lemma request_queues:
  assumes clock: "\<And>h. \<exists>t. E h Clock = Inr (PFloat t)"
  shows "\<exists>w'. proxy_request E L fl req mime w = (Inr (), w') \<and> queues (request_images req mime) w w'"
proof (cases "has_content req \<and> \<not> looks_like_image req \<and> contains (lower (type_of req)) ''message/rfc822''")
  case True
  show ?thesis
  proof (cases mime)
    case (Inl e)
    with True show ?thesis
      by (simp add: proxy_request_def request_images_def catchp_def bindp_def lift_sum_def ret_def)
  next
    case (Inr parts)
    obtain r w' where "forp parts (mime_part E L fl) w = (r, w')" "queues (part_images parts) w w'"
      using mime_parts_queue [of E, OF clock] by blast
    with True Inr show ?thesis
      by (cases r) (simp_all add: proxy_request_def request_images_def catchp_def bindp_def lift_sum_def ret_def)
  qed
next
  case False
  with process_image_queues [of E L fl "body_of req" w, OF clock] show ?thesis
    by (auto simp: proxy_request_def request_images_def ret_def)
qed

definition response_images :: "http_message option \<Rightarrow> bytes list" where
  "response_images resp = (if has_content resp \<and> looks_like_image resp then [body_of resp] else [])"

lemma response_queues:
  assumes clock: "\<And>h. \<exists>t. E h Clock = Inr (PFloat t)"
  shows "\<exists>w'. proxy_response E L fl resp w = (Inr (), w') \<and> queues (response_images resp) w w'"
  using process_image_queues [of E L fl "body_of resp" w, OF clock]
  by (simp add: proxy_response_def response_images_def ret_def)

end
