(* ===== verification/SocCore.thy ===== *)
theory SocCore
  imports Images Tables Effects
begin

text \<open>
  soc-api/server.py, the parts every handler and every job uses: configuration, settings, log files,
  Docker through the SDK or the command line, the two caches, the job table, the event stream, the
  audit log and image files. Values of \<^verbatim>\<open>None\<close> or of a JSON document are \<open>pyval\<close>; texts that a
  service delivers as bytes are calls that reply with the decoded text. Log lines are not modelled.
\<close>

section \<open>Configuration and state\<close>

record soc_cfg =
  docker_sdk :: bool
  pg_at :: "string \<times> int"
  redis_at :: "string \<times> int"
  minio_endpoint :: string
  soc_temp_dir :: string
  soc_api_log_file :: string
  proxy_log_file :: string
  ingest_ephemeral :: bool
  ingest_mitm_container :: string
  ingest_mitm_image :: string
  ingest_network :: string
  calpa_model_path :: string
  calpa_cfg_path :: string
  calpa_libs_path :: string
  pcap_plain_max_images :: int
  mitm_grpc_at :: "string \<times> int"
  routing_grpc_at :: "string \<times> int"
  redis_stream_name :: string

text \<open>The job table and the settings are the module's global variables.\<close>

record soc = world +
  ingest_jobs :: "(string \<times> (string \<times> pyval) list) list"
  settings_state :: "(string \<times> pyval) list"

definition default_settings :: "(string \<times> pyval) list" where
  "default_settings =
     [(''alertThreshold'', PInt 70), (''autoRefresh'', PBool True), (''retentionDays'', PInt 90),
      (''maxConcurrentScans'', PInt 10), (''enableNotifications'', PBool True),
      (''enableEmailAlerts'', PBool False), (''enableAuditLog'', PBool True)]"

text \<open>\<^verbatim>\<open>v.get(k, d)\<close>, \<^verbatim>\<open>float(v)\<close> and \<^verbatim>\<open>x or None\<close>.\<close>

definition py_get :: "pyval \<Rightarrow> string \<Rightarrow> pyval \<Rightarrow> exn + pyval" where
  "py_get v k d = (case v of PDict m \<Rightarrow> Inr (dict_get m k d) | _ \<Rightarrow> Inl type_error)"

definition to_float :: "pylib \<Rightarrow> pyval \<Rightarrow> exn + pyfloat" where
  "to_float L v = (case v of
       PFloat x \<Rightarrow> Inr x | PInt n \<Rightarrow> Inr (of_int n) | PBool b \<Rightarrow> Inr (if b then 1 else 0)
     | PStr s \<Rightarrow> str_float L s | _ \<Rightarrow> Inl type_error)"

definition or_none :: "string \<Rightarrow> pyval" where
  "or_none s = py_or (PStr s) PNone"

definition as_strs :: "pyval \<Rightarrow> exn + string list" where
  "as_strs v = (case as_list v of Inl e \<Rightarrow> Inl e | Inr l \<Rightarrow> collect as_str l)"

section \<open>Log files\<close>

text \<open>The lines of a file read in text mode, without their line ends.\<close>

definition text_lines :: "string \<Rightarrow> string list" where
  "text_lines t = (let ls = split_on newline t in if last ls = [] then butlast ls else ls)"

definition tail_file :: "env \<Rightarrow> string \<Rightarrow> int \<Rightarrow> ('z world_scheme, string list) prog" where
  "tail_file E path limit =
     catchp (bindp (call_as as_str E (Fs (FsRead path))) (\<lambda>t. ret (slice_from (text_lines t) (- limit))))
       (\<lambda>_. ret [])"

section \<open>Docker\<close>

text \<open>
  \<^verbatim>\<open>if docker_sdk is not None: try: ... except Exception: log\<close>, which goes on where the SDK is
  missing or fails.
\<close>

definition try_sdk :: "soc_cfg \<Rightarrow> ('s, 'a) prog \<Rightarrow> ('s, 'a option) prog" where
  "try_sdk cfg m =
     (if docker_sdk cfg then catchp (bindp m (\<lambda>x. ret (Some x))) (\<lambda>_. ret None) else ret None)"

definition docker_available :: "env \<Rightarrow> soc_cfg \<Rightarrow> ('z world_scheme, bool) prog" where
  "docker_available E cfg =
     bindp (try_sdk cfg (seqp (do_call E (Docker DkFromEnv)) (do_call E (Docker DkPing)))) (\<lambda>r.
     case r of
       Some u \<Rightarrow> ret True
     | None \<Rightarrow> bindp (call E (Tool (Which ''docker''))) (\<lambda>v. ret (v \<noteq> PNone)))"

definition run_docker_command :: "env \<Rightarrow> soc_cfg \<Rightarrow> string list \<Rightarrow> nat \<Rightarrow> ('z world_scheme, int \<times> string \<times> string) prog" where
  "run_docker_command E cfg args timeout =
     bindp (docker_available E cfg) (\<lambda>available.
     if \<not> available then raise (Exn FileNotFound ''docker binary not available in container'')
     else call_as as_process E (Tool (RunProc (''docker'' # args) [] timeout)))"

definition sdk_container :: "env \<Rightarrow> string \<Rightarrow> ('z world_scheme, string) prog" where
  "sdk_container E name =
     seqp (do_call E (Docker DkFromEnv)) (call_as as_str E (Docker (DkGet name)))"

definition docker_inspect_json :: "env \<Rightarrow> soc_cfg \<Rightarrow> string \<Rightarrow> ('z world_scheme, pyval) prog" where
  "docker_inspect_json E cfg name =
     bindp (try_sdk cfg (bindp (sdk_container E name) (\<lambda>c. call E (Docker (DkAttrs c))))) (\<lambda>r.
     case r of
       Some attrs \<Rightarrow> ret attrs
     | None \<Rightarrow>
         bindp (run_docker_command E cfg [''inspect'', name] 8) (\<lambda>(rc, out, err).
         if rc \<noteq> 0 then raise (Exn RuntimeErr (strip (or_str (or_str err out) (''docker inspect failed for '' @ name))))
         else
           bindp (call E (Tool (JsonLoads (or_str out ''[]'')))) (\<lambda>payload.
           if truthy payload then bindp (lift_sum (as_list payload)) (\<lambda>l. lift_sum (py_nth l 0)) else ret (PDict []))))"

definition docker_version_info :: "env \<Rightarrow> soc_cfg \<Rightarrow> ('z world_scheme, (string \<times> pyval) list) prog" where
  "docker_version_info E cfg =
     bindp (docker_available E cfg) (\<lambda>available.
     if \<not> available then ret [(''available'', PBool False), (''version'', PNone), (''error'', PStr ''docker not available'')]
     else
       bindp (try_sdk cfg
         (seqp (do_call E (Docker DkFromEnv))
         (bindp (call E (Docker DkVersion)) (\<lambda>info.
          bindp (lift_sum (py_get info ''Version'' PNone)) (\<lambda>version.
          ret [(''available'', PBool True), (''version'', version), (''raw'', info)]))))) (\<lambda>r.
       case r of
         Some d \<Rightarrow> ret d
       | None \<Rightarrow>
           bindp (run_docker_command E cfg [''--version''] 5) (\<lambda>(rc, out, err).
           ret [(''available'', PBool (rc = 0)), (''version'', or_none (strip (or_str out err))), (''returncode'', PInt rc)])))"

definition nonblank_lines :: "string \<Rightarrow> string list" where
  "nonblank_lines raw = filter (\<lambda>line. strip line \<noteq> []) (splitlines raw)"

definition docker_networks :: "env \<Rightarrow> soc_cfg \<Rightarrow> ('z world_scheme, string list) prog" where
  "docker_networks E cfg =
     bindp (docker_available E cfg) (\<lambda>available.
     if \<not> available then ret []
     else
       bindp (try_sdk cfg (seqp (do_call E (Docker DkFromEnv)) (call_as as_strs E (Docker DkNetworks)))) (\<lambda>r.
       case r of
         Some names \<Rightarrow> ret names
       | None \<Rightarrow>
           bindp (run_docker_command E cfg [''network'', ''ls'', ''--format'', ''{{.Name}}''] 5) (\<lambda>(rc, out, err).
           if rc \<noteq> 0 then ret [] else ret (map strip (nonblank_lines out)))))"

definition resolve_ingest_network :: "env \<Rightarrow> soc_cfg \<Rightarrow> ('z world_scheme, string) prog" where
  "resolve_ingest_network E cfg =
     (if ingest_network cfg \<noteq> [] then ret (ingest_network cfg)
      else
        bindp (catchp
          (bindp (docker_inspect_json E cfg (ingest_mitm_container cfg)) (\<lambda>inspect.
           bindp (lift_sum (py_get inspect ''NetworkSettings'' PNone)) (\<lambda>ns.
           bindp (lift_sum (py_get (py_or ns (PDict [])) ''Networks'' PNone)) (\<lambda>nets.
           bindp (lift_sum (as_dict (py_or nets (PDict [])))) (\<lambda>d. ret (map fst d))))))
          (\<lambda>_. ret [])) (\<lambda>networks.
        ret (if networks \<noteq> [] then hd networks else ''stegnar-net'')))"

definition docker_logs_cli :: "env \<Rightarrow> soc_cfg \<Rightarrow> string \<Rightarrow> int \<Rightarrow> nat \<Rightarrow> ('z world_scheme, string list) prog" where
  "docker_logs_cli E cfg name limit timeout =
     bindp (run_docker_command E cfg [''logs'', ''--tail'', int_str limit, name] timeout) (\<lambda>(rc, out, err).
     ret (nonblank_lines (out @ err)))"

definition tail_logs_from_container_or_file :: "env \<Rightarrow> soc_cfg \<Rightarrow> string \<Rightarrow> string \<Rightarrow> int
    \<Rightarrow> ('z world_scheme, string \<times> string list) prog" where
  "tail_logs_from_container_or_file E cfg container_name log_file limit =
     bindp (tail_file E log_file limit) (\<lambda>file_ls.
     if file_ls \<noteq> [] then ret (''file'', file_ls)
     else
       bindp (docker_available E cfg) (\<lambda>available.
       if \<not> available then ret (''unavailable'', [])
       else
         bindp (try_sdk cfg (bindp (sdk_container E container_name) (\<lambda>c.
            bindp (call_as as_str E (Docker (DkLogs c limit))) (\<lambda>raw. ret (nonblank_lines raw))))) (\<lambda>r.
         let ls = (case r of Some ls \<Rightarrow> ls | None \<Rightarrow> [])
         in if ls \<noteq> [] then ret (''docker'', slice_from ls (- limit))
            else
              bindp (catchp (docker_logs_cli E cfg container_name limit 8) (\<lambda>_. ret [])) (\<lambda>ls.
              ret (if ls \<noteq> [] then (''docker'', slice_from ls (- limit)) else (''unavailable'', []))))))"

definition docker_get_container :: "env \<Rightarrow> soc_cfg \<Rightarrow> string \<Rightarrow> ('z world_scheme, string option) prog" where
  "docker_get_container E cfg name = try_sdk cfg (sdk_container E name)"

definition resolve_mitm_image :: "env \<Rightarrow> soc_cfg \<Rightarrow> ('z world_scheme, string) prog" where
  "resolve_mitm_image E cfg =
     (if ingest_mitm_image cfg \<noteq> [] then ret (ingest_mitm_image cfg)
      else
        bindp (catchp
          (bindp (try_sdk cfg (bindp (sdk_container E (ingest_mitm_container cfg)) (\<lambda>c.
             bindp (call E (Docker (DkAttrs c))) (\<lambda>attrs.
             bindp (lift_sum (py_get attrs ''Config'' PNone)) (\<lambda>config.
             bindp (lift_sum (py_get (py_or config (PDict [])) ''Image'' PNone)) (\<lambda>im.
             lift_sum (if truthy im then as_str im else Inr []))))))) (\<lambda>r.
           let im = (case r of Some im \<Rightarrow> im | None \<Rightarrow> [])
           in if im \<noteq> [] then ret im
              else
                bindp (call_as as_process E (Tool (RunProc
                  [''docker'', ''inspect'', ''-f'', ''{{.Config.Image}}'', ingest_mitm_container cfg] [] 5))) (\<lambda>(rc, out, err).
                ret (if rc = 0 then strip out else []))))
          (\<lambda>_. ret [])) (\<lambda>im.
        ret (if im \<noteq> [] then im else ''stegnar/mitm-gateway:latest'')))"

text \<open>The archive with the one file is built in memory; its time stamp is taken from the clock.\<close>

definition put_archive_bytes :: "env \<Rightarrow> string \<Rightarrow> string \<Rightarrow> string \<Rightarrow> bytes \<Rightarrow> ('z world_scheme, unit) prog" where
  "put_archive_bytes E container_id target_dir file_name data =
     bindp (call_as as_float E Clock) (\<lambda>mtime.
     bindp (call E (Docker (DkPutArchive container_id target_dir file_name data))) (\<lambda>ok.
     if truthy ok then ret () else raise (Exn RuntimeErr ''docker put_archive failed'')))"

section \<open>Services\<close>

definition is_port_open :: "env \<Rightarrow> string \<times> int \<Rightarrow> ('z world_scheme, bool) prog" where
  "is_port_open E addr =
     catchp (seqp (do_call E (Tool (PortProbe (fst addr) (snd addr)))) (ret True)) (\<lambda>_. ret False)"

definition sql_soc_hash_cache :: string where
  "sql_soc_hash_cache =
     ''INSERT INTO hash_cache (sha256, verdict, steg_score, model_type, analyzed_at, hit_count) VALUES (%s, %s, %s, %s, NOW(), 0) ON CONFLICT (sha256) DO UPDATE SET verdict = EXCLUDED.verdict, steg_score = EXCLUDED.steg_score, model_type = EXCLUDED.model_type, analyzed_at = NOW()''"

definition write_hash_cache :: "env \<Rightarrow> string \<Rightarrow> string \<Rightarrow> pyfloat \<Rightarrow> pyval \<Rightarrow> ('z world_scheme, unit) prog" where
  "write_hash_cache E sha256 verdict steg_score model_type =
     whenp (sha256 \<noteq> [])
       (catchp
         (seqp (do_call E (Pg PgConnect))
         (seqp (do_call E (Pg (PgExecute sql_soc_hash_cache [PStr sha256, PStr verdict, PFloat steg_score, model_type])))
         (seqp (do_call E (Pg PgCommit)) (do_call E (Pg PgClose)))))
         (\<lambda>_. ret ()))"

definition write_redis_cache :: "env \<Rightarrow> pylib \<Rightarrow> string \<Rightarrow> string \<Rightarrow> pyfloat \<Rightarrow> ('z world_scheme, unit) prog" where
  "write_redis_cache E L sha256 verdict steg_score =
     whenp (sha256 \<noteq> [])
       (catchp
         (seqp (do_call E (Redis (HSet (''stegnar:cache:'' @ sha256)
                  [(''verdict'', verdict), (''steg_score'', float_str L steg_score), (''hit_count'', ''0'')])))
               (do_call E (Redis (Expire (''stegnar:cache:'' @ sha256) (7 * 24 * 3600)))))
         (\<lambda>_. ret ()))"

section \<open>Jobs\<close>

text \<open>\<^verbatim>\<open>d.update(fields)\<close>.\<close>

definition dict_update :: "('k \<times> 'v) list \<Rightarrow> ('k \<times> 'v) list \<Rightarrow> ('k \<times> 'v) list" where
  "dict_update d upd = foldl (\<lambda>d f. AList.update (fst f) (snd f) d) d upd"

definition new_job :: "string \<Rightarrow> int \<Rightarrow> (string \<times> pyval) list" where
  "new_job job_id now = [(''job_id'', PStr job_id), (''created_at'', PInt now)]"

definition job_set :: "env \<Rightarrow> string \<Rightarrow> (string \<times> pyval) list \<Rightarrow> ('z soc_scheme, unit) prog" where
  "job_set E job_id upd =
     bindp (getp (\<lambda>s. map_of (ingest_jobs s) job_id)) (\<lambda>found.
     bindp (case found of Some job \<Rightarrow> ret job | None \<Rightarrow> bindp (now_ms E) (\<lambda>now. ret (new_job job_id now))) (\<lambda>job.
     modifyp (\<lambda>s. s\<lparr>ingest_jobs := AList.update job_id (dict_update job upd) (ingest_jobs s)\<rparr>)))"

definition ingest_entry :: "pylib \<Rightarrow> string \<Rightarrow> string \<Rightarrow> pyfloat \<Rightarrow> string \<Rightarrow> string \<Rightarrow> int \<Rightarrow> int \<Rightarrow> (string \<times> string) list" where
  "ingest_entry L job_id verdict steg_score sha256 file_name latency_ms now =
     [(''stream_id'', job_id), (''endpoint_id'', ''soc-ingest''), (''sha256'', or_str sha256 []),
      (''verdict'', verdict), (''steg_score'', float_str L steg_score), (''src_ip'', ''soc-api''),
      (''dst_ip'', ''soc-ingest''), (''bytes_total'', ''0''), (''latency_ms'', int_str latency_ms),
      (''model_type'', ''calpa_srnet_pruned''), (''pcap_uri'', []), (''image_uri'', or_str file_name []),
      (''ts_epoch_ms'', int_str now)]"

text \<open>No caller passes a model type, so every entry has the default; the kind is not used.\<close>

definition push_event_to_redis_stream :: "env \<Rightarrow> pylib \<Rightarrow> soc_cfg \<Rightarrow> string \<Rightarrow> string \<Rightarrow> pyfloat \<Rightarrow> string \<Rightarrow> string \<Rightarrow> int
    \<Rightarrow> ('z world_scheme, unit) prog" where
  "push_event_to_redis_stream E L cfg job_id verdict steg_score sha256 file_name latency_ms =
     bindp (now_ms E) (\<lambda>now.
     catchp (do_call E (Redis (XAdd (redis_stream_name cfg)
               (ingest_entry L job_id verdict steg_score sha256 file_name latency_ms now) 10000)))
       (\<lambda>_. ret ()))"

definition sql_audit_log :: string where
  "sql_audit_log =
     ''INSERT INTO system_audit_log (ts, actor, event_type, job_id, endpoint_id, sha256, verdict, steg_score, details) VALUES (NOW(), %s, %s, %s, %s, %s, %s, %s, %s)''"

text \<open>The actor is always \<^verbatim>\<open>soc-ingest\<close>, and so is the endpoint.\<close>

definition write_audit_log :: "env \<Rightarrow> string \<Rightarrow> string \<Rightarrow> string \<Rightarrow> string \<Rightarrow> pyfloat \<Rightarrow> (string \<times> pyval) list
    \<Rightarrow> ('z world_scheme, unit) prog" where
  "write_audit_log E event_type job_id sha256 verdict steg_score details =
     catchp
       (seqp (do_call E (Pg PgConnect))
       (bindp (if details \<noteq> [] then call E (Tool (JsonDumps (PDict details))) else ret PNone) (\<lambda>details_json.
        seqp (do_call E (Pg (PgExecute sql_audit_log
           [PStr ''soc-ingest'', PStr event_type, or_none job_id, or_none ''soc-ingest'', or_none sha256, or_none verdict,
            (if steg_score \<noteq> 0 then PFloat steg_score else PNone), details_json])))
       (seqp (do_call E (Pg PgCommit)) (do_call E (Pg PgClose))))))
       (\<lambda>_. ret ())"

section \<open>Image files\<close>

definition is_image_file :: "env \<Rightarrow> string \<Rightarrow> ('z world_scheme, bool) prog" where
  "is_image_file E path =
     catchp (bindp (call_as as_bytes E (Fs (FsReadHead path 16))) (\<lambda>head. ret (is_image_bytes head)))
       (\<lambda>_. ret False)"

text \<open>\<^verbatim>\<open>pathlib.Path(p).name\<close> and \<^verbatim>\<open>pathlib.Path(p).suffix\<close>.\<close>

definition path_name :: "string \<Rightarrow> string" where
  "path_name p = (let cs = filter (\<lambda>c. c \<noteq> [] \<and> c \<noteq> ''.'') (split_on CHR ''/'' p) in if cs = [] then [] else last cs)"

definition path_suffix :: "string \<Rightarrow> string" where
  "path_suffix p =
     (let name = path_name p; i = py_rfind name ''.''
      in if 0 < i \<and> i < int (length name) - 1 then drop (nat i) name else [])"

end
