(* ===== verification/SocQueries.thy ===== *)
theory SocQueries
  imports SocCore
begin

text \<open>
  soc-api/server.py, the request handlers that only read: health, diagnostics, tables, Redis, images,
  logs, ledger, audit log, storage, container logs and metrics. An answer is the value that is
  written as JSON, with its status; an exception of a handler is the server's answer 500. Flask's
  request is a record; a row of a query is a dictionary (or, for a plain cursor, a list).
\<close>

section \<open>Requests and answers\<close>

record upload =
  upload_filename :: "string option"
  upload_data :: bytes

text \<open>\<open>json_body\<close> is \<^verbatim>\<open>None\<close> where the body is not JSON.\<close>

record http_request =
  args :: "(string \<times> string) list"
  json_body :: pyval
  files :: "(string \<times> upload) list"

type_synonym answer = "pyval \<times> int"

definition ok :: "pyval \<Rightarrow> answer" where
  "ok v = (v, 200)"

definition arg :: "http_request \<Rightarrow> string \<Rightarrow> string \<Rightarrow> string" where
  "arg rq k d = dict_get (args rq) k d"

text \<open>\<^verbatim>\<open>min(int(request.args.get(k, d)), m)\<close>.\<close>

definition limit_arg :: "http_request \<Rightarrow> string \<Rightarrow> int \<Rightarrow> int \<Rightarrow> exn + int" where
  "limit_arg rq k d m =
     (case map_of (args rq) k of None \<Rightarrow> Inr (min d m)
      | Some s \<Rightarrow> (case py_int s of Inl e \<Rightarrow> Inl e | Inr n \<Rightarrow> Inr (min n m)))"

section \<open>Queries\<close>

definition fetch_rows :: "env \<Rightarrow> string \<Rightarrow> pyval list \<Rightarrow> ('z world_scheme, pyval list) prog" where
  "fetch_rows E sql params =
     seqp (do_call E (Pg (PgExecute sql params))) (call_as as_list E (Pg PgFetchAll))"

definition fetch_one :: "env \<Rightarrow> string \<Rightarrow> ('z world_scheme, pyval) prog" where
  "fetch_one E sql = seqp (do_call E (Pg (PgExecute sql []))) (call E (Pg PgFetchOne))"

text \<open>\<^verbatim>\<open>try: ... conn.close() ... except Exception: rows = d\<close>.\<close>

definition rows_or :: "env \<Rightarrow> 'a \<Rightarrow> ('z world_scheme, 'a) prog \<Rightarrow> ('z world_scheme, 'a) prog" where
  "rows_or E d m = catchp (seqp (do_call E (Pg PgConnect)) (bindp m (\<lambda>x. seqp (do_call E (Pg PgClose)) (ret x)))) (\<lambda>_. ret d)"

definition quiet_close :: "env \<Rightarrow> ('z world_scheme, unit) prog" where
  "quiet_close E = catchp (do_call E (Pg PgClose)) (\<lambda>_. ret ())"

text \<open>
  \<^verbatim>\<open>try: conn = pg(); ... except Exception: try: conn.close() ...\<close>; where the connection failed
  there is nothing to close.
\<close>

definition pg_guard :: "env \<Rightarrow> ('z world_scheme, 'a) prog \<Rightarrow> ('z world_scheme, exn + 'a) prog" where
  "pg_guard E m =
     catchp
       (seqp (do_call E (Pg PgConnect))
             (catchp (bindp m (\<lambda>x. ret (Inr x))) (\<lambda>e. seqp (quiet_close E) (ret (Inl e)))))
       (\<lambda>e. ret (Inl e))"

text \<open>\<^verbatim>\<open>for k, v in row.items()\<close>: times as text, by \<^verbatim>\<open>str\<close> or by \<^verbatim>\<open>isoformat\<close>.\<close>

definition str_row :: "pylib \<Rightarrow> (string \<times> pyval) list \<Rightarrow> (string \<times> pyval) list" where
  "str_row L row = map (\<lambda>f. (fst f, case snd f of PTime t \<Rightarrow> PStr (py_str L (PTime t)) | v \<Rightarrow> v)) row"

definition iso_row :: "(string \<times> pyval) list \<Rightarrow> (string \<times> pyval) list" where
  "iso_row row = map (\<lambda>f. (fst f, case snd f of PTime t \<Rightarrow> PStr t | v \<Rightarrow> v)) row"

section \<open>health, diagnostics\<close>

definition minio_at :: "soc_cfg \<Rightarrow> string \<times> string" where
  "minio_at cfg = (case split_first CHR '':'' (minio_endpoint cfg) @ [''9000''] of h # p # rest \<Rightarrow> (h, p) | _ \<Rightarrow> ([], []))"

definition service_status :: "string \<Rightarrow> bool \<Rightarrow> int \<Rightarrow> pyval" where
  "service_status name up port =
     PDict [(''name'', PStr name), (''status'', PStr (if up then ''online'' else ''offline'')), (''port'', PInt port)]"

definition health :: "env \<Rightarrow> soc_cfg \<Rightarrow> ('z world_scheme, answer) prog" where
  "health E cfg =
     (let (minio_host, minio_port) = minio_at cfg
      in bindp (is_port_open E (pg_at cfg)) (\<lambda>pg_ok.
         bindp (is_port_open E (redis_at cfg)) (\<lambda>redis_ok.
         bindp (lift_sum (py_int minio_port)) (\<lambda>port.
         bindp (is_port_open E (minio_host, port)) (\<lambda>minio_ok.
         bindp (is_port_open E (mitm_grpc_at cfg)) (\<lambda>mitm_ok.
         bindp (is_port_open E (routing_grpc_at cfg)) (\<lambda>routing_ok.
         ret (ok (PDict [(''services'', PList
           [service_status ''PostgreSQL'' pg_ok (snd (pg_at cfg)), service_status ''Redis'' redis_ok (snd (redis_at cfg)),
            service_status ''MinIO'' minio_ok port, service_status ''MITM Gateway'' mitm_ok (snd (mitm_grpc_at cfg)),
            service_status ''Routing System'' routing_ok (snd (routing_grpc_at cfg)), service_status ''CALPA Model'' mitm_ok 0])])))))))))"

definition strs :: "string list \<Rightarrow> pyval" where
  "strs ls = PList (map PStr ls)"

definition admin_diagnostics :: "env \<Rightarrow> soc_cfg \<Rightarrow> ('z world_scheme, answer) prog" where
  "admin_diagnostics E cfg =
     bindp (docker_version_info E cfg) (\<lambda>docker_info.
     bindp (tail_logs_from_container_or_file E cfg ''stegnar-soc-api'' (soc_api_log_file cfg) 200) (\<lambda>(soc_source, soc_logs).
     bindp (tail_logs_from_container_or_file E cfg ''stegnar-proxy'' (proxy_log_file cfg) 200) (\<lambda>(proxy_source, proxy_ls).
     bindp (resolve_ingest_network E cfg) (\<lambda>network.
     bindp (docker_networks E cfg) (\<lambda>networks.
     ret (ok (PDict
       [(''docker_available'', dict_get docker_info ''available'' (PBool False)),
        (''docker_version'', dict_get docker_info ''version'' PNone), (''docker_info'', PDict docker_info),
        (''ingest_network'', PStr network), (''ingest_mitm_container'', PStr (ingest_mitm_container cfg)),
        (''docker_networks'', strs networks), (''soc_api_logs'', strs soc_logs), (''soc_api_log_source'', PStr soc_source),
        (''proxy_logs'', strs proxy_ls), (''proxy_log_source'', PStr proxy_source)])))))))"

section \<open>Tables\<close>

text \<open>
  White space of the statements is written as one blank; a blank is added where a statement ends
  with a quote.
\<close>

definition sql_tables :: string where
  "sql_tables = ''SELECT tablename AS name FROM pg_tables WHERE schemaname='public' ''"

definition sql_count :: "string \<Rightarrow> string" where
  "sql_count name = ''SELECT COUNT(*) AS row_cnt FROM '' @ name"

definition max_col :: "string \<Rightarrow> string option" where
  "max_col name = map_of [(''network_events'', ''ts''), (''hash_cache'', ''analyzed_at''),
     (''endpoint_registry'', ''last_activity''), (''system_audit_log'', ''ts'')] name"

definition sql_max :: "string \<Rightarrow> string \<Rightarrow> string" where
  "sql_max col name = ''SELECT MAX('' @ col @ '') AS max_val FROM '' @ name"

definition table_info :: "env \<Rightarrow> pylib \<Rightarrow> string \<Rightarrow> ('z world_scheme, string \<times> int \<times> string) prog" where
  "table_info E L name =
     bindp (catchp (bindp (fetch_one E (sql_count name)) (\<lambda>r. lift_sum (case py_item r ''row_cnt'' of Inl e \<Rightarrow> Inl e | Inr v \<Rightarrow> as_int v)))
              (\<lambda>_. ret 0)) (\<lambda>cnt.
     bindp (case max_col name of
         None \<Rightarrow> ret ''2000-01-01 00:00:00''
       | Some col \<Rightarrow> catchp (bindp (fetch_one E (sql_max col name)) (\<lambda>r.
             bindp (lift_sum (py_item r ''max_val'')) (\<lambda>res.
             ret (if truthy res then py_str L res else ''2000-01-01 00:00:00''))))
           (\<lambda>_. ret ''2000-01-01 00:00:00'')) (\<lambda>last_write.
     ret (name, cnt, last_write)))"

definition unavailable :: answer where
  "unavailable = (PDict [(''error'', PStr ''database unavailable'')], 500)"

text \<open>\<^verbatim>\<open>sort(key=..., reverse=True)\<close> keeps the order of equal keys.\<close>

definition sort_desc :: "('a \<Rightarrow> int) \<Rightarrow> 'a list \<Rightarrow> 'a list" where
  "sort_desc key xs = sort_key (\<lambda>x. - key x) xs"

definition db_tables :: "env \<Rightarrow> pylib \<Rightarrow> ('z world_scheme, answer) prog" where
  "db_tables E L =
     rows_or E unavailable
       (bindp (fetch_rows E sql_tables []) (\<lambda>rows.
        bindp (lift_sum (collect (\<lambda>r. case py_item r ''name'' of Inl e \<Rightarrow> Inl e | Inr v \<Rightarrow> as_str v) rows)) (\<lambda>names.
        bindp (mapp (table_info E L) names) (\<lambda>infos.
        ret (ok (PList (map (\<lambda>(name, cnt, last_write).
              PDict [(''name'', PStr name), (''row_count'', PInt cnt), (''last_write'', PStr last_write)])
            (sort_desc (\<lambda>i. fst (snd i)) infos))))))))"

definition row_tables :: "(string \<times> string) list" where
  "row_tables = [(''network_events'', ''ts''), (''hash_cache'', ''analyzed_at''), (''endpoint_registry'', ''last_seen''),
     (''system_audit_log'', ''ts'')]"

definition sql_table_rows :: "string \<Rightarrow> string \<Rightarrow> string" where
  "sql_table_rows table_name order_col = ''SELECT * FROM '' @ table_name @ '' ORDER BY '' @ order_col @ '' DESC LIMIT %s''"

definition db_rows :: "env \<Rightarrow> pylib \<Rightarrow> http_request \<Rightarrow> string \<Rightarrow> ('z world_scheme, answer) prog" where
  "db_rows E L rq table_name =
     (case map_of row_tables table_name of
        None \<Rightarrow> ret (PDict [(''error'', PStr ''not allowed'')], 403)
      | Some order_col \<Rightarrow>
          bindp (lift_sum (limit_arg rq ''limit'' 100 500)) (\<lambda>limit.
          bindp (pg_guard E (fetch_rows E (sql_table_rows table_name order_col) [PInt limit])) (\<lambda>r.
          case r of
            Inl e \<Rightarrow> ret unavailable
          | Inr rows \<Rightarrow>
              seqp (do_call E (Pg PgClose))
                (bindp (lift_sum (collect as_dict rows)) (\<lambda>ds.
                 ret (ok (PList (map (\<lambda>d. PDict (str_row L d)) ds))))))))"

section \<open>Redis\<close>

definition no_stats :: answer where
  "no_stats = ok (PDict [(''total_keys'', PInt 0), (''memory_used'', PInt 0), (''memory_max'', PInt 536870912), (''connections'', PInt 0)])"

definition redis_stats :: "env \<Rightarrow> soc_cfg \<Rightarrow> ('z world_scheme, answer) prog" where
  "redis_stats E cfg =
     bindp (is_port_open E (redis_at cfg)) (\<lambda>up.
     if \<not> up then ret no_stats
     else
       catchp
         (bindp (call E (Redis (RInfo ''memory''))) (\<lambda>mem.
          bindp (call E (Redis (RInfo ''clients''))) (\<lambda>clients.
          bindp (call E (Redis RDbSize)) (\<lambda>n.
          bindp (lift_sum (py_get mem ''used_memory'' (PInt 0))) (\<lambda>used.
          bindp (lift_sum (py_get mem ''maxmemory'' (PInt 536870912))) (\<lambda>most.
          bindp (lift_sum (py_get clients ''connected_clients'' (PInt 0))) (\<lambda>conns.
          ret (ok (PDict [(''total_keys'', n), (''memory_used'', used), (''memory_max'', most), (''connections'', conns)])))))))))
         (\<lambda>_. ret no_stats))"

definition key_group :: "string \<Rightarrow> string" where
  "key_group key =
     (if startswith key ''img_cache'' \<or> startswith key ''stegnar:cache'' then ''IMAGE CACHE''
      else if startswith key ''rate_limit'' then ''RATE LIMIT''
      else if startswith key ''stegnar:'' then ''STREAMS'' else ''OTHER'')"

definition stream_item :: "pyval \<Rightarrow> exn + pyval" where
  "stream_item m =
     (case as_list m of Inl e \<Rightarrow> Inl e | Inr l \<Rightarrow>
     (case py_nth l 0 of Inl e \<Rightarrow> Inl e | Inr i \<Rightarrow>
     (case py_nth l 1 of Inl e \<Rightarrow> Inl e | Inr f \<Rightarrow> Inr (PDict [(''id'', i), (''fields'', f)]))))"

definition key_info :: "env \<Rightarrow> string \<Rightarrow> ('z world_scheme, pyval) prog" where
  "key_info E key =
     bindp (call E (Redis (RType key))) (\<lambda>ktype.
     bindp (call E (Redis (RTtl key))) (\<lambda>ttl.
     bindp (if ktype = PStr ''hash'' then call E (Redis (HGetAll key))
            else if ktype = PStr ''string'' then call E (Redis (RGet key))
            else if ktype = PStr ''stream'' then
              bindp (call_as as_list E (Redis (XRange key 5))) (\<lambda>msgs.
              bindp (lift_sum (collect stream_item msgs)) (\<lambda>items. ret (PList items)))
            else ret PNone) (\<lambda>val.
     ret (PDict [(''name'', PStr key), (''type'', ktype), (''ttl'', if ttl = PInt (-1) then PNone else ttl),
                 (''group'', PStr (key_group key)), (''value'', val)]))))"

definition redis_keys :: "env \<Rightarrow> soc_cfg \<Rightarrow> ('z world_scheme, answer) prog" where
  "redis_keys E cfg =
     bindp (is_port_open E (redis_at cfg)) (\<lambda>up.
     if \<not> up then ret (ok (PList []))
     else
       catchp
         (bindp (call E (Redis (RKeys ''*''))) (\<lambda>keys.
          bindp (lift_sum (as_strs (py_or keys (PList [])))) (\<lambda>ks.
          bindp (mapp (key_info E) (take 50 ks)) (\<lambda>infos. ret (ok (PList infos))))))
         (\<lambda>_. ret (ok (PList []))))"

section \<open>Images and logs\<close>

definition sql_images :: string where
  "sql_images = ''SELECT event_id AS id, ts AS first_seen_ts, endpoint_id, src_ip, dst_ip, sha256 AS sha256_hash, steg_score AS calpa_score, verdict AS classification, latency_ms, model_type, image_uri AS minio_img_uri, pcap_uri AS minio_pcap_uri, stream_id FROM network_events WHERE image_uri IS NOT NULL''"

definition shown_verdict :: "string \<Rightarrow> string" where
  "shown_verdict v = dict_get
     [(''STEGO'', ''malicious''), (''MALICIOUS'', ''malicious''), (''CLEAN'', ''benign''), (''BENIGN'', ''benign''),
      (''AMBIGUOUS'', ''suspicious''), (''SUSPICIOUS'', ''suspicious'')] v ''benign''"

definition wanted_verdict :: "string \<Rightarrow> string" where
  "wanted_verdict v = dict_get [(''malicious'', ''STEGO''), (''benign'', ''CLEAN''), (''suspicious'', ''AMBIGUOUS'')] v (upper v)"

text \<open>A row as the browser gets it.\<close>

definition image_row :: "pylib \<Rightarrow> (string \<times> pyval) list \<Rightarrow> (string \<times> pyval) list" where
  "image_row L row =
     (let row = iso_row row
      in AList.update ''classification'' (PStr (shown_verdict (upper (py_str L (dict_get row ''classification'' (PStr [])))))) row)"

definition images_query :: "string \<Rightarrow> string \<Rightarrow> string \<times> pyval list" where
  "images_query verdict hash_search =
     (let (q, ps) = (if verdict \<noteq> [] \<and> verdict \<notin> set [''all'', []]
            then (sql_images @ '' AND verdict = %s'', [PStr (wanted_verdict verdict)]) else (sql_images, []));
          (q, ps) = (if hash_search \<noteq> [] then (q @ '' AND sha256 ILIKE %s'', ps @ [PStr (''%'' @ hash_search @ ''%'')]) else (q, ps))
      in (q @ '' ORDER BY ts DESC LIMIT 100'', ps))"

definition dict_rows :: "((string \<times> pyval) list \<Rightarrow> (string \<times> pyval) list) \<Rightarrow> pyval list \<Rightarrow> ('s, answer) prog" where
  "dict_rows f rows = bindp (lift_sum (collect as_dict rows)) (\<lambda>ds. ret (ok (PList (map (\<lambda>d. PDict (f d)) ds))))"

definition images :: "env \<Rightarrow> pylib \<Rightarrow> http_request \<Rightarrow> ('z world_scheme, answer) prog" where
  "images E L rq =
     (let (query, params) = images_query (arg rq ''classification'' []) (arg rq ''hash'' [])
      in bindp (rows_or E [] (fetch_rows E query params)) (dict_rows (image_row L)))"

definition sql_logs :: string where
  "sql_logs = ''SELECT event_id AS log_id, ts AS timestamp, endpoint_id AS component, verdict AS action, json_build_object('sha256',sha256,'src_ip',src_ip,'dst_ip',dst_ip, 'steg_score',steg_score,'latency_ms',latency_ms,'stream_id',stream_id) AS details FROM network_events WHERE 1=1''"

definition logs_query :: "string \<Rightarrow> string \<Rightarrow> string \<times> pyval list" where
  "logs_query endpoint search =
     (let (q, ps) = (if endpoint \<noteq> [] \<and> endpoint \<notin> set [''all'', []]
            then (sql_logs @ '' AND endpoint_id = %s'', [PStr endpoint]) else (sql_logs, []));
          (q, ps) = (if search \<noteq> []
            then (q @ '' AND (verdict ILIKE %s OR sha256 ILIKE %s)'',
                  ps @ [PStr (''%'' @ search @ ''%''), PStr (''%'' @ search @ ''%'')]) else (q, ps))
      in (q @ '' ORDER BY ts DESC LIMIT 200'', ps))"

definition logs :: "env \<Rightarrow> http_request \<Rightarrow> ('z world_scheme, answer) prog" where
  "logs E rq =
     (let (query, params) = logs_query (arg rq ''component'' []) (arg rq ''search'' [])
      in bindp (rows_or E [] (fetch_rows E query params)) (dict_rows iso_row))"

section \<open>Endpoints, ledger and audit log\<close>

definition sql_endpoints :: string where
  "sql_endpoints = ''SELECT r.endpoint_id, r.ip_address AS ip, 'active' AS trust_state, r.total_chunks AS images_intercepted, r.last_seen::text AS last_activity, COUNT(CASE WHEN COALESCE(h.verdict, n.verdict)='STEGO' THEN 1 END) AS stego_count FROM endpoint_registry r LEFT JOIN network_events n ON r.endpoint_id=n.endpoint_id LEFT JOIN hash_cache h ON n.sha256=h.sha256 WHERE r.last_seen > NOW() - INTERVAL '30 seconds' GROUP BY r.endpoint_id,r.ip_address,r.total_chunks,r.last_seen ORDER BY stego_count DESC''"

definition sql_endpoints_fallback :: string where
  "sql_endpoints_fallback = ''SELECT n.endpoint_id, n.endpoint_id AS ip, 'active' AS trust_state, COUNT(*) AS images_intercepted, MAX(n.ts)::text AS last_activity, COUNT(CASE WHEN COALESCE(h.verdict, n.verdict)='STEGO' THEN 1 END) AS stego_count FROM network_events n LEFT JOIN hash_cache h ON n.sha256=h.sha256 WHERE n.ts > NOW() - INTERVAL '30 seconds' GROUP BY n.endpoint_id''"

text \<open>Without a connection there is no cursor for the second query and nothing to close.\<close>

definition endpoints :: "env \<Rightarrow> ('z world_scheme, answer) prog" where
  "endpoints E =
     bindp (catchp (seqp (do_call E (Pg PgConnect)) (ret True)) (\<lambda>_. ret False)) (\<lambda>connected.
     if \<not> connected then ret (ok (PList []))
     else
       bindp (catchp (fetch_rows E sql_endpoints [])
                (\<lambda>_. catchp (fetch_rows E sql_endpoints_fallback []) (\<lambda>_. ret []))) (\<lambda>rows.
       seqp (quiet_close E) (dict_rows (\<lambda>d. d) rows)))"

text \<open>The dash of the payload text is written as a hyphen.\<close>

definition sql_ledger :: string where
  "sql_ledger = ''SELECT ROW_NUMBER() OVER (ORDER BY ts DESC) AS chain_index, event_id, 'InferenceEvent' AS type, endpoint_id AS producer, ts::text AS time, verdict || ' - score: ' || ROUND(COALESCE(steg_score,0)::numeric,3)::text AS payload, true AS integrity FROM network_events ORDER BY ts DESC LIMIT 100''"

definition ledger_events :: "env \<Rightarrow> ('z world_scheme, answer) prog" where
  "ledger_events E =
     catchp (seqp (do_call E (Pg PgConnect))
            (bindp (fetch_rows E sql_ledger []) (\<lambda>rows. seqp (do_call E (Pg PgClose)) (dict_rows (\<lambda>d. d) rows))))
       (\<lambda>_. ret (ok (PList [])))"

definition sql_audit_events :: string where
  "sql_audit_events = ''SELECT audit_id::text, ts::text AS timestamp, actor, event_type, job_id, endpoint_id, sha256, verdict, steg_score, details FROM system_audit_log ORDER BY ts DESC LIMIT %s''"

definition audit_row :: "env \<Rightarrow> pyval \<Rightarrow> ('z world_scheme, pyval) prog" where
  "audit_row E r =
     bindp (lift_sum (as_dict r)) (\<lambda>row.
     case map_of row ''details'' of
       Some (PStr t) \<Rightarrow> bindp (catchp (call E (Tool (JsonLoads t))) (\<lambda>_. ret (PStr t))) (\<lambda>d.
                        ret (PDict (AList.update ''details'' d row)))
     | _ \<Rightarrow> ret (PDict row))"

definition audit_events :: "env \<Rightarrow> http_request \<Rightarrow> ('z world_scheme, answer) prog" where
  "audit_events E rq =
     bindp (lift_sum (limit_arg rq ''limit'' 200 500)) (\<lambda>limit.
     catchp (seqp (do_call E (Pg PgConnect))
            (bindp (fetch_rows E sql_audit_events [PInt limit]) (\<lambda>rows.
             seqp (do_call E (Pg PgClose)) (bindp (mapp (audit_row E) rows) (\<lambda>result. ret (ok (PList result)))))))
       (\<lambda>_. ret (ok (PList []))))"

definition sql_count_events :: string where
  "sql_count_events = ''SELECT COUNT(*) FROM network_events''"

text \<open>\<^verbatim>\<open>cur.fetchone()[i]\<close> of a plain cursor.\<close>

definition column :: "pyval \<Rightarrow> int \<Rightarrow> exn + pyval" where
  "column row i = (case as_list row of Inl e \<Rightarrow> Inl e | Inr l \<Rightarrow> py_nth l i)"

definition integrity :: "bool \<Rightarrow> pyval \<Rightarrow> string \<Rightarrow> answer" where
  "integrity verified n checked =
     ok (PDict [(''verified'', PBool verified), (''max_chain_index'', n), (''last_checked'', PStr checked)])"

definition ledger_integrity :: "env \<Rightarrow> ('z world_scheme, answer) prog" where
  "ledger_integrity E =
     rows_or E (integrity False (PInt 0) ''dependency unavailable'')
       (bindp (fetch_one E sql_count_events) (\<lambda>r.
        bindp (lift_sum (column r 0)) (\<lambda>count. ret (integrity True count ''just now''))))"

section \<open>Storage\<close>

definition no_bucket :: "string \<Rightarrow> pyval" where
  "no_bucket name = PDict [(''name'', PStr name), (''file_count'', PInt 0), (''files'', PList [])]"

definition bucket_names :: "string list" where
  "bucket_names = [''stegnar-artifacts'', ''stegnar-pcaps'']"

text \<open>An object of a listing is a dictionary of its attributes.\<close>

definition stored_object :: "pylib \<Rightarrow> pyval \<Rightarrow> exn + pyval" where
  "stored_object L v =
     (case py_item v ''object_name'' of Inl e \<Rightarrow> Inl e | Inr name \<Rightarrow>
     (case py_item v ''size'' of Inl e \<Rightarrow> Inl e | Inr n \<Rightarrow>
     (case py_item v ''last_modified'' of Inl e \<Rightarrow> Inl e | Inr t \<Rightarrow>
     (case py_item v ''is_dir'' of Inl e \<Rightarrow> Inl e | Inr is_dir \<Rightarrow>
      Inr (PDict [(''name'', name), (''size'', n), (''last_modified'', PStr (py_str L t)),
                  (''is_dir'', py_or is_dir (PBool False)), (''type'', PStr ''file'')])))))"

definition bucket_info :: "env \<Rightarrow> pylib \<Rightarrow> string \<Rightarrow> ('z world_scheme, pyval) prog" where
  "bucket_info E L bname =
     catchp
       (bindp (call_as as_list E (S3 (S3ListObjects bname))) (\<lambda>objects.
        bindp (lift_sum (collect (stored_object L) (take 20 objects))) (\<lambda>fs.
        ret (PDict [(''name'', PStr bname), (''file_count'', PInt (int (length objects))), (''files'', PList fs)]))))
       (\<lambda>_. ret (no_bucket bname))"

text \<open>Making the client of MinIO does nothing that can be seen from outside.\<close>

definition storage_buckets :: "env \<Rightarrow> pylib \<Rightarrow> soc_cfg \<Rightarrow> ('z world_scheme, answer) prog" where
  "storage_buckets E L cfg =
     (let (minio_host, minio_port) = minio_at cfg
      in bindp (lift_sum (py_int minio_port)) (\<lambda>port.
         bindp (is_port_open E (minio_host, port)) (\<lambda>up.
         if \<not> up then ret (ok (PList (map no_bucket bucket_names)))
         else bindp (mapp (bucket_info E L) bucket_names) (\<lambda>result. ret (ok (PList result))))))"

section \<open>Container logs\<close>

definition sdk_logs :: "env \<Rightarrow> string \<Rightarrow> int \<Rightarrow> ('z world_scheme, string list) prog" where
  "sdk_logs E container n =
     bindp (call_as as_str E (Docker (DkLogs container n))) (\<lambda>raw. ret (nonblank_lines raw))"

definition recent_logs :: "env \<Rightarrow> soc_cfg \<Rightarrow> string \<Rightarrow> ('z world_scheme, answer) prog" where
  "recent_logs E cfg name =
     bindp (docker_get_container E cfg name) (\<lambda>container.
     case container of
       None \<Rightarrow> ret (ok (PList []))
     | Some c \<Rightarrow>
         catchp (bindp (sdk_logs E c 200) (\<lambda>ls. ret (ok (strs (slice_from ls (- 200)))))) (\<lambda>_. ret (ok (PList []))))"

definition proxy_logs :: "env \<Rightarrow> soc_cfg \<Rightarrow> ('z world_scheme, answer) prog" where
  "proxy_logs E cfg = recent_logs E cfg ''stegnar-proxy''"

definition mitm_logs :: "env \<Rightarrow> soc_cfg \<Rightarrow> ('z world_scheme, answer) prog" where
  "mitm_logs E cfg = recent_logs E cfg ''stegnar-mitm''"

definition container_map :: "(string \<times> string) list" where
  "container_map = [(''mitm'', ''stegnar-mitm''), (''proxy'', ''stegnar-proxy''), (''routing'', ''stegnar-routing''),
     (''data-layer'', ''stegnar-data-layer''), (''soc-api'', ''stegnar-soc-api'')]"

definition container_log_services :: "('s, answer) prog" where
  "container_log_services = ret (ok (strs (map fst container_map)))"

definition unknown_service :: "pylib \<Rightarrow> string \<Rightarrow> answer" where
  "unknown_service L service =
     (PDict [(''error'', PStr (''Unknown service '' @ [CHR 0x27] @ service @ [CHR 0x27] @ ''. Valid: ''
        @ py_str L (strs (map fst container_map))))], 400)"

definition container_logs :: "env \<Rightarrow> pylib \<Rightarrow> soc_cfg \<Rightarrow> http_request \<Rightarrow> ('z world_scheme, answer) prog" where
  "container_logs E L cfg rq =
     (let service = lower (strip (arg rq ''service'' ''mitm''))
      in bindp (lift_sum (limit_arg rq ''tail'' 300 1000)) (\<lambda>n.
         case map_of container_map service of
           None \<Rightarrow> ret (unknown_service L service)
         | Some container_name \<Rightarrow>
             bindp (docker_get_container E cfg container_name) (\<lambda>container.
             case container of
               None \<Rightarrow>
                 catchp (bindp (docker_logs_cli E cfg container_name n 10) (\<lambda>ls. ret (ok (strs (slice_from ls (- n))))))
                   (\<lambda>_. ret (ok (PList [])))
             | Some c \<Rightarrow>
                 catchp
                   (seqp (do_call E (Docker (DkReload c)))
                   (bindp (sdk_logs E c n) (\<lambda>ls.
                    bindp (call E (Docker (DkStatus c))) (\<lambda>status.
                    ret (ok (PDict [(''service'', PStr service), (''container'', PStr container_name), (''status'', status),
                                    (''line_count'', PInt (int (length ls))), (''lines'', strs (slice_from ls (- n)))]))))))
                   (\<lambda>_. ret (ok (PList []))))))"

section \<open>Metrics\<close>

text \<open>Whether a container runs, and its last 500 lines; each part is left out where it fails.\<close>

definition container_state :: "env \<Rightarrow> soc_cfg \<Rightarrow> string \<Rightarrow> ('z world_scheme, bool \<times> string list) prog" where
  "container_state E cfg name =
     bindp (docker_get_container E cfg name) (\<lambda>container.
     case container of
       None \<Rightarrow> ret (False, [])
     | Some c \<Rightarrow>
         bindp (catchp (seqp (do_call E (Docker (DkReload c)))
                       (bindp (call E (Docker (DkStatus c))) (\<lambda>status. ret (status = PStr ''running''))))
                  (\<lambda>_. ret False)) (\<lambda>is_running.
         bindp (catchp (sdk_logs E c 500) (\<lambda>_. ret [])) (\<lambda>ls. ret (is_running, ls))))"

definition is_interception :: "string \<Rightarrow> bool" where
  "is_interception line =
     (let lowered = lower line
      in contains lowered ''clientconnect'' \<or> contains lowered ''serverconnect'' \<or> contains lowered ''intercepted image'')"

definition proxy_metrics :: "env \<Rightarrow> soc_cfg \<Rightarrow> ('z world_scheme, answer) prog" where
  "proxy_metrics E cfg =
     bindp (container_state E cfg ''stegnar-proxy'') (\<lambda>(is_running, ls).
     ret (ok (PDict
       [(''status'', PStr (if is_running then ''active'' else ''offline'')),
        (''intercepted_connections'', PInt (int (length (filter is_interception ls)))),
        (''total_log_lines'', PInt (int (length ls))),
        (''uptime_status'', PStr (if is_running then ''Running'' else ''Offline''))])))"

definition sql_mitm_metrics :: string where
  "sql_mitm_metrics = ''SELECT COUNT(*) AS total, COUNT(*) FILTER (WHERE verdict = 'STEGO') AS stego, COUNT(*) FILTER (WHERE verdict = 'CLEAN') AS clean, COUNT(*) FILTER (WHERE verdict = 'AMBIGUOUS') AS ambiguous, COALESCE(AVG(latency_ms) FILTER ( WHERE latency_ms IS NOT NULL AND latency_ms > 0 ), 0) AS avg_lat FROM network_events WHERE ts >= NOW() - INTERVAL '1 hour' ''"

text \<open>\<^verbatim>\<open>int(v)\<close>.\<close>

definition to_int :: "pyval \<Rightarrow> exn + int" where
  "to_int v = (case v of
       PInt n \<Rightarrow> Inr n | PFloat x \<Rightarrow> Inr (py_trunc x) | PBool b \<Rightarrow> Inr (if b then 1 else 0)
     | PStr s \<Rightarrow> py_int s | _ \<Rightarrow> Inl type_error)"

text \<open>
  The numbers of the row are assigned one after the other: the ones before the first that cannot be
  read keep their values, the others stay 0.
\<close>

fun read_cells :: "(pyval \<Rightarrow> exn + 'a) list \<Rightarrow> pyval \<Rightarrow> int \<Rightarrow> 'a list" where
  "read_cells [] row i = []"
| "read_cells (f # fs) row i =
     (case column row i of Inl e \<Rightarrow> []
      | Inr v \<Rightarrow> (case f v of Inl e \<Rightarrow> [] | Inr x \<Rightarrow> x # read_cells fs row (i + 1)))"

definition cell :: "pyfloat list \<Rightarrow> nat \<Rightarrow> pyfloat" where
  "cell xs i = (if i < length xs then xs ! i else 0)"

definition int_cell :: "pyval \<Rightarrow> exn + pyfloat" where
  "int_cell v = (case to_int (py_or v (PInt 0)) of Inl e \<Rightarrow> Inl e | Inr n \<Rightarrow> Inr (of_int n))"

definition float_cell :: "pylib \<Rightarrow> pyval \<Rightarrow> exn + pyfloat" where
  "float_cell L v = to_float L (py_or v (PFloat 0))"

text \<open>\<^verbatim>\<open>round(x, 1)\<close>, to the even tenth half way.\<close>

definition round1 :: "pyfloat \<Rightarrow> pyfloat" where
  "round1 x =
     (let y = 10 * x; f = floor y; d = y - of_int f
      in of_int (if d < 1/2 then f else if d > 1/2 then f + 1 else if even f then f else f + 1) / 10)"

definition telemetry :: "env \<Rightarrow> pylib \<Rightarrow> ('z world_scheme, pyfloat list) prog" where
  "telemetry E L =
     bindp (catchp (seqp (do_call E (Pg PgConnect)) (bindp (fetch_one E sql_mitm_metrics) (\<lambda>row. ret (Some row))))
              (\<lambda>_. ret None)) (\<lambda>r.
     case r of
       None \<Rightarrow> ret []
     | Some row \<Rightarrow>
         let cells = (if truthy row then read_cells [int_cell, int_cell, int_cell, int_cell, float_cell L] row 0 else [])
         in seqp (whenp (truthy row \<longrightarrow> length cells = 5) (quiet_close E)) (ret cells))"

definition mitm_metrics :: "env \<Rightarrow> pylib \<Rightarrow> soc_cfg \<Rightarrow> ('z world_scheme, answer) prog" where
  "mitm_metrics E L cfg =
     bindp (container_state E cfg ''stegnar-mitm'') (\<lambda>(is_running, ls).
     bindp (telemetry E L) (\<lambda>cells.
     let images_intercepted = cell cells 0; stego_detected = cell cells 1;
         detection_rate = (if images_intercepted > 0 then round1 (stego_detected / images_intercepted * 100) else 0)
     in ret (ok (PDict
          [(''status'', PStr (if is_running then ''active'' else ''offline'')),
           (''container_status'', PStr (if is_running then ''Running'' else ''Offline'')),
           (''total_log_lines'', PInt (int (length ls))), (''images_intercepted'', PInt (floor images_intercepted)),
           (''stego_detected'', PInt (floor stego_detected)), (''clean_count'', PInt (floor (cell cells 2))),
           (''ambiguous_count'', PInt (floor (cell cells 3))), (''avg_latency_ms'', PFloat (round1 (cell cells 4))),
           (''detection_rate'', PFloat detection_rate)]))))"

definition sql_avg_latency :: string where
  "sql_avg_latency = ''SELECT COALESCE(AVG(latency_ms), 0) AS avg_latency_ms FROM network_events WHERE ts >= NOW() - INTERVAL '15 minutes' AND latency_ms IS NOT NULL''"

definition sql_minutes :: string where
  "sql_minutes = ''WITH minutes AS ( SELECT generate_series( date_trunc('minute', NOW() - INTERVAL '14 minutes'), date_trunc('minute', NOW()), INTERVAL '1 minute' ) AS bucket ), counts AS ( SELECT date_trunc('minute', ts) AS bucket, COUNT(*)::int AS value FROM network_events WHERE ts >= NOW() - INTERVAL '15 minutes' GROUP BY 1 ) SELECT to_char(minutes.bucket, 'HH24:MI') AS time, COALESCE(counts.value, 0)::int AS value FROM minutes LEFT JOIN counts ON counts.bucket = minutes.bucket ORDER BY minutes.bucket ASC''"

definition latency_answer :: "pyfloat \<Rightarrow> (string \<times> pyval) list list \<Rightarrow> answer" where
  "latency_answer avg rows = ok (PDict [(''avg_latency_ms'', PFloat avg), (''buckets'', PList (map PDict rows))])"

definition latency_metrics :: "env \<Rightarrow> pylib \<Rightarrow> ('z world_scheme, answer) prog" where
  "latency_metrics E L =
     bindp (pg_guard E
       (bindp (fetch_one E sql_avg_latency) (\<lambda>r.
        bindp (lift_sum (py_get (py_or r (PDict [])) ''avg_latency_ms'' PNone)) (\<lambda>avg.
        bindp (lift_sum (float_cell L avg)) (\<lambda>avg_latency.
        seqp (do_call E (Pg (PgExecute sql_minutes [])))
       (bindp (call E (Pg PgFetchAll)) (\<lambda>rows.
        seqp (do_call E (Pg PgClose))
       (bindp (lift_sum (as_list (py_or rows (PList [])))) (\<lambda>rs.
        bindp (lift_sum (collect as_dict rs)) (\<lambda>ds. ret (latency_answer avg_latency ds))))))))))) (\<lambda>r.
     ret (case r of Inl e \<Rightarrow> latency_answer 0 [] | Inr a \<Rightarrow> a))"

definition pipeline_stream :: string where
  "pipeline_stream = ''stegnar:db_queue''"

definition group_pending :: "pyval \<Rightarrow> exn + int" where
  "group_pending g = (case py_get g ''pending'' (PInt 0) of Inl e \<Rightarrow> Inl e | Inr v \<Rightarrow> to_int v)"

text \<open>Entries, groups and pending entries, each 0 where reading it or one before it fails.\<close>

definition stream_state :: "env \<Rightarrow> ('z world_scheme, int \<times> int \<times> int) prog" where
  "stream_state E =
     bindp (catchp (bindp (call E (Redis (XLen pipeline_stream))) (\<lambda>v. bindp (lift_sum (to_int v)) (\<lambda>n. ret (Some n))))
              (\<lambda>_. ret None)) (\<lambda>total.
     case total of
       None \<Rightarrow> ret (0, 0, 0)
     | Some n \<Rightarrow>
         bindp (catchp (call_as as_list E (Redis (XInfoGroups pipeline_stream))) (\<lambda>_. ret [])) (\<lambda>groups.
         ret (n, int (length groups), case collect group_pending groups of Inl e \<Rightarrow> 0 | Inr ps \<Rightarrow> sum_list ps)))"

definition db_event_count :: "env \<Rightarrow> ('z world_scheme, int) prog" where
  "db_event_count E =
     bindp (pg_guard E
       (bindp (fetch_one E sql_count_events) (\<lambda>r.
        lift_sum (case column r 0 of Inl e \<Rightarrow> Inl e | Inr v \<Rightarrow> to_int v)))) (\<lambda>r.
     case r of
       Inl e \<Rightarrow> ret 0
     | Inr n \<Rightarrow> seqp (catchp (do_call E (Pg PgClose)) (\<lambda>_. quiet_close E)) (ret n))"

definition pipeline_metrics :: "env \<Rightarrow> ('z world_scheme, answer) prog" where
  "pipeline_metrics E =
     bindp (stream_state E) (\<lambda>(total, group_count, pending).
     bindp (db_event_count E) (\<lambda>db_events.
     ret (ok (PDict [(''redis_stream'', PStr pipeline_stream), (''stream_entries'', PInt total),
       (''pending_entries'', PInt pending), (''consumer_groups'', PInt group_count), (''db_events'', PInt db_events)]))))"

end
