(* ===== verification/SocIngest.thy ===== *)
theory SocIngest
  imports SocCore TempFiles
begin

text \<open>
  soc-api/server.py, the ingest of uploaded images and captures: extraction of images from a capture
  with tshark, the analysis of an image by the CALPA worker in a container, and the three kinds of
  jobs, each the body of a thread. \<open>start_*_job\<close> is what the request does before the thread starts,
  \<open>run_*_job\<close> is the thread.
\<close>

section \<open>Extraction\<close>

definition image_suffixes :: "string list" where
  "image_suffixes = [''.jpg'', ''.jpeg'', ''.png'', ''.gif'', ''.bmp'', ''.webp'', ''.tif'', ''.tiff'']"

primrec pick_images :: "env \<Rightarrow> string list \<Rightarrow> ('z world_scheme, string list) prog" where
  "pick_images E [] = ret []"
| "pick_images E (path # paths) =
     bindp (if lower (path_suffix path) \<in> set image_suffixes then ret True else is_image_file E path) (\<lambda>keep.
     bindp (pick_images E paths) (\<lambda>rest.
     ret (if keep then path # rest else rest)))"

definition tshark_export :: "string \<Rightarrow> string \<Rightarrow> bool \<Rightarrow> string \<Rightarrow> string list" where
  "tshark_export pcap_path key_path use_key extract_dir =
     [''tshark'', ''-r'', pcap_path] @ (if use_key then [''-o'', ''tls.keylog_file:'' @ key_path] else [])
       @ [''--export-objects'', ''http,'' @ extract_dir]"

text \<open>\<^verbatim>\<open>os.walk\<close> is one call that replies with the paths of all files under the directory.\<close>

definition extract_images_from_pcap :: "env \<Rightarrow> soc_cfg \<Rightarrow> string \<Rightarrow> string \<Rightarrow> ('z world_scheme, string \<times> string list) prog" where
  "extract_images_from_pcap E cfg pcap_path key_path =
     bindp (call E (Tool (Which ''tshark''))) (\<lambda>tshark.
     if tshark = PNone then raise (Exn RuntimeErr ''tshark not available in soc-api container'')
     else
       bindp (call_as as_str E (Fs (FsMkDTemp (soc_temp_dir cfg)))) (\<lambda>extract_dir.
       bindp (if key_path \<noteq> [] then call_as as_bool E (Fs (FsIsFile key_path)) else ret False) (\<lambda>use_key.
       seqp (do_call E (Tool (RunProc (tshark_export pcap_path key_path use_key extract_dir) [] 90)))
      (bindp (call_as as_strs E (Fs (FsWalk extract_dir))) (\<lambda>candidates.
       bindp (pick_images E candidates) (\<lambda>images.
       ret (extract_dir, images)))))))"

section \<open>The worker\<close>

definition upload_name :: "string \<Rightarrow> string" where
  "upload_name suffix = ''ingest_upload'' @ suffix"

definition image_suffix :: "string \<Rightarrow> string" where
  "image_suffix local_path = or_str (lower (path_suffix local_path)) ''.jpg''"

definition calpa_payload :: "soc_cfg \<Rightarrow> string \<Rightarrow> string \<Rightarrow> pyval" where
  "calpa_payload cfg suffix artifact_id =
     PDict [(''image_path'', PStr (''/tmp/'' @ upload_name suffix)), (''model_path'', PStr (calpa_model_path cfg)),
            (''cfg_path'', PStr (calpa_cfg_path cfg)), (''libs_path'', PStr (calpa_libs_path cfg)),
            (''artifact_id'', PStr artifact_id)]"

definition worker_cmd :: "string list" where
  "worker_cmd = [''/bin/sh'', ''-lc'', ''/opt/tf1/bin/python3.7 /app/calpa_worker.py < /tmp/ingest_payload.json'']"

text \<open>The files are put into the container and the worker is run: its exit code and its decoded outputs.\<close>

definition exec_worker :: "env \<Rightarrow> string \<Rightarrow> string \<Rightarrow> string \<Rightarrow> string \<Rightarrow> ('z world_scheme, int \<times> string \<times> string) prog" where
  "exec_worker E container local_path suffix payload =
     bindp (call_as as_bytes E (Fs (FsRead local_path))) (\<lambda>img_data.
     seqp (put_archive_bytes E container ''/tmp'' (upload_name suffix) img_data)
    (seqp (put_archive_bytes E container ''/tmp'' ''ingest_payload.json'' (encode payload))
          (call_as as_process E (Docker (DkExec container worker_cmd)))))"

definition run_ephemeral :: "env \<Rightarrow> soc_cfg \<Rightarrow> string \<Rightarrow> string \<Rightarrow> string \<Rightarrow> ('z world_scheme, int \<times> string \<times> string) prog" where
  "run_ephemeral E cfg local_path suffix payload =
     bindp (call_as as_str E UuidHex) (\<lambda>hex.
     bindp (resolve_mitm_image E cfg) (\<lambda>image_name.
     bindp (resolve_ingest_network E cfg) (\<lambda>network_name.
     seqp (do_call E (Docker DkFromEnv))
    (bindp (call_as as_str E (Docker (DkCreate image_name (''stegnar-ingest-'' @ take 10 hex) network_name))) (\<lambda>container.
     finallyp
       (seqp (do_call E (Docker (DkStart container))) (exec_worker E container local_path suffix payload))
       (catchp (do_call E (Docker (DkRemove container))) (\<lambda>_. ret ())))))))"

definition run_exec :: "env \<Rightarrow> soc_cfg \<Rightarrow> string \<Rightarrow> string \<Rightarrow> string \<Rightarrow> ('z world_scheme, int \<times> string \<times> string) prog" where
  "run_exec E cfg local_path suffix payload =
     catchp
       (bindp (sdk_container E (ingest_mitm_container cfg)) (\<lambda>container.
        exec_worker E container local_path suffix payload))
       (\<lambda>_. raise (Exn RuntimeErr ''docker exec via SDK failed''))"

record calpa_result =
  cr_predicted :: pyval
  cr_confidence :: pyfloat
  cr_latency :: pyfloat
  cr_classification :: string
  cr_worker_mode :: string
  cr_model_type :: pyval

text \<open>The dictionary, as it is stored in the job.\<close>

definition result_fields :: "calpa_result \<Rightarrow> (string \<times> pyval) list" where
  "result_fields r =
     [(''predicted_label'', cr_predicted r), (''confidence'', PFloat (cr_confidence r)),
      (''latency_ms'', PFloat (cr_latency r)), (''classification'', PStr (cr_classification r)),
      (''message'', PStr ''CALPA analysis completed''), (''worker_mode'', PStr (cr_worker_mode r)),
      (''model_type'', cr_model_type r)]"

definition parsed_result :: "pylib \<Rightarrow> soc_cfg \<Rightarrow> pyval \<Rightarrow> exn + calpa_result" where
  "parsed_result L cfg parsed =
     (case py_get parsed ''predicted_label'' (PStr ''UNKNOWN'') of Inl e \<Rightarrow> Inl e | Inr predicted \<Rightarrow>
     (case py_get parsed ''confidence'' (PFloat 0) of Inl e \<Rightarrow> Inl e | Inr conf \<Rightarrow>
     (case to_float L conf of Inl e \<Rightarrow> Inl e | Inr confidence \<Rightarrow>
     (case py_get parsed ''latency_ms'' (PFloat 0) of Inl e \<Rightarrow> Inl e | Inr lat \<Rightarrow>
     (case to_float L lat of Inl e \<Rightarrow> Inl e | Inr latency \<Rightarrow>
     (case py_get parsed ''model_type'' (PStr ''calpa_srnet_pruned'') of Inl e \<Rightarrow> Inl e | Inr model_type \<Rightarrow>
      Inr \<lparr>cr_predicted = predicted, cr_confidence = confidence, cr_latency = latency,
           cr_classification = (if predicted = PStr ''STEGO'' then ''STEGO'' else ''CLEAN''),
           cr_worker_mode = (if ingest_ephemeral cfg then ''ephemeral'' else ''exec''),
           cr_model_type = model_type\<rparr>))))))"

definition run_calpa_for_image :: "env \<Rightarrow> pylib \<Rightarrow> soc_cfg \<Rightarrow> string \<Rightarrow> string
    \<Rightarrow> ('z world_scheme, calpa_result \<times> string \<times> string) prog" where
  "run_calpa_for_image E L cfg local_path artifact_id =
     (let suffix = image_suffix local_path
      in bindp (call_as as_str E (Tool (JsonDumps (calpa_payload cfg suffix artifact_id)))) (\<lambda>payload.
         if \<not> docker_sdk cfg then raise (Exn RuntimeErr ''docker SDK not available inside soc-api container'')
         else
           bindp (if ingest_ephemeral cfg then run_ephemeral E cfg local_path suffix payload
                  else run_exec E cfg local_path suffix payload) (\<lambda>(returncode, out, err).
           let stdout = strip out; stderr = strip err
           in if returncode \<noteq> 0
              then raise (Exn RuntimeErr (''worker_failed rc='' @ int_str returncode @ '' stderr='' @ take 240 stderr))
              else if stdout = [] then raise (Exn RuntimeErr ''worker_empty_stdout'')
              else
                bindp (call E (Tool (JsonLoads stdout))) (\<lambda>parsed.
                bindp (lift_sum (parsed_result L cfg parsed)) (\<lambda>result.
                ret (result, stdout, stderr))))))"

section \<open>Jobs\<close>

definition new_job_id :: "env \<Rightarrow> string \<Rightarrow> ('z world_scheme, string) prog" where
  "new_job_id E prefix =
     bindp (call_as as_float E Clock) (\<lambda>t.
     bindp (call_as as_str E UuidHex) (\<lambda>hex.
     ret (prefix @ int_str (py_trunc t) @ ''_'' @ take 8 hex)))"

text \<open>\<^verbatim>\<open>unlink(missing_ok=True)\<close> and \<^verbatim>\<open>rmtree(ignore_errors=True)\<close>.\<close>

definition unlink :: "env \<Rightarrow> string \<Rightarrow> ('z world_scheme, unit) prog" where
  "unlink E path = catchif (\<lambda>c. c = FileNotFound) (do_call E (Fs (FsRemove path))) (\<lambda>_. ret ())"

definition rmtree_quiet :: "env \<Rightarrow> string \<Rightarrow> ('z world_scheme, unit) prog" where
  "rmtree_quiet E path = catchp (do_call E (Fs (FsRmTree path))) (\<lambda>_. ret ())"

definition file_sha256 :: "env \<Rightarrow> pylib \<Rightarrow> string \<Rightarrow> ('z world_scheme, string) prog" where
  "file_sha256 E L path =
     catchp (bindp (call_as as_bytes E (Fs (FsRead path))) (\<lambda>b. ret (sha256_hex L b))) (\<lambda>_. ret [])"

definition job_running :: "env \<Rightarrow> string \<Rightarrow> ('z soc_scheme, unit) prog" where
  "job_running E job_id =
     bindp (now_ms E) (\<lambda>now. job_set E job_id [(''status'', PStr ''running''), (''started_at'', PInt now)])"

definition job_completed :: "env \<Rightarrow> string \<Rightarrow> (string \<times> pyval) list \<Rightarrow> ('z soc_scheme, unit) prog" where
  "job_completed E job_id upd =
     bindp (now_ms E) (\<lambda>now. job_set E job_id ([(''status'', PStr ''completed''), (''completed_at'', PInt now)] @ upd))"

definition job_failed :: "env \<Rightarrow> string \<Rightarrow> (string \<times> pyval) list \<Rightarrow> exn \<Rightarrow> ('z soc_scheme, unit) prog" where
  "job_failed E job_id details e =
     bindp (now_ms E) (\<lambda>now.
     seqp (job_set E job_id [(''status'', PStr ''failed''), (''completed_at'', PInt now), (''error'', PStr (exn_str e))])
          (write_audit_log E ''INGEST_FAILED'' job_id [] [] 0 (details @ [(''error'', PStr (exn_str e))])))"

subsection \<open>One image\<close>

definition start_image_job :: "env \<Rightarrow> string \<Rightarrow> ('z soc_scheme, string) prog" where
  "start_image_job E original_name =
     bindp (new_job_id E ''ingest_'') (\<lambda>job_id.
     seqp (job_set E job_id [(''status'', PStr ''queued''), (''kind'', PStr ''image''), (''filename'', PStr original_name)])
          (ret job_id))"

definition image_result :: "env \<Rightarrow> pylib \<Rightarrow> soc_cfg \<Rightarrow> string \<Rightarrow> string \<Rightarrow> string \<Rightarrow> calpa_result \<times> string \<times> string
    \<Rightarrow> ('z soc_scheme, unit) prog" where
  "image_result E L cfg job_id original_name sha256_val res =
     (let (result, w_stdout, w_stderr) = res
      in seqp (job_completed E job_id [(''result'', PDict (result_fields result)),
                 (''worker_stdout'', PStr w_stdout), (''worker_stderr'', PStr w_stderr)])
        (seqp (push_event_to_redis_stream E L cfg job_id (cr_classification result) (cr_confidence result)
                 sha256_val original_name (py_trunc (cr_latency result)))
        (seqp (write_hash_cache E sha256_val (cr_classification result) (cr_confidence result) (cr_model_type result))
        (seqp (write_redis_cache E L sha256_val (cr_classification result) (cr_confidence result))
              (write_audit_log E ''INGEST_COMPLETE'' job_id sha256_val (cr_classification result) (cr_confidence result)
                 [(''filename'', PStr original_name), (''kind'', PStr ''image''),
                  (''worker_mode'', PStr (cr_worker_mode result))])))))"

definition run_image_job :: "env \<Rightarrow> pylib \<Rightarrow> soc_cfg \<Rightarrow> string \<Rightarrow> string \<Rightarrow> string \<Rightarrow> ('z soc_scheme, unit) prog" where
  "run_image_job E L cfg job_id upload_path original_name =
     seqp (job_running E job_id)
       (finallyp
         (catchp
           (bindp (file_sha256 E L upload_path) (\<lambda>sha256_val.
            bindp (run_calpa_for_image E L cfg upload_path original_name) (\<lambda>res.
            image_result E L cfg job_id original_name sha256_val res)))
           (job_failed E job_id [(''filename'', PStr original_name), (''kind'', PStr ''image'')]))
         (unlink E upload_path))"

subsection \<open>A capture\<close>

text \<open>One extracted image: its name, digest and result.\<close>

record image_report =
  ir_image :: string
  ir_sha256 :: string
  ir_stdout :: string
  ir_stderr :: string
  ir_result :: calpa_result

definition report_dict :: "image_report \<Rightarrow> pyval" where
  "report_dict r =
     PDict ([(''image'', PStr (ir_image r)), (''sha256'', PStr (ir_sha256 r)), (''worker_stdout'', PStr (ir_stdout r)),
             (''worker_stderr'', PStr (ir_stderr r))] @ result_fields (ir_result r))"

definition analyze_extracted :: "env \<Rightarrow> pylib \<Rightarrow> soc_cfg \<Rightarrow> string \<Rightarrow> nat \<times> string \<Rightarrow> ('z world_scheme, image_report) prog" where
  "analyze_extracted E L cfg pcap_name im =
     (let (idx, img_path) = im
      in bindp (file_sha256 E L img_path) (\<lambda>img_sha256.
         bindp (run_calpa_for_image E L cfg img_path (pcap_name @ '':'' @ int_str (int idx))) (\<lambda>(analysis, w_stdout, w_stderr).
         seqp (whenp (img_sha256 \<noteq> [])
           (seqp (write_hash_cache E img_sha256 (cr_classification analysis) (cr_confidence analysis) (cr_model_type analysis))
                 (write_redis_cache E L img_sha256 (cr_classification analysis) (cr_confidence analysis))))
         (ret \<lparr>ir_image = path_name img_path, ir_sha256 = img_sha256, ir_stdout = w_stdout, ir_stderr = w_stderr,
               ir_result = analysis\<rparr>))))"

definition max_images :: "soc_cfg \<Rightarrow> int" where
  "max_images cfg = max 1 (pcap_plain_max_images cfg)"

definition first_images :: "soc_cfg \<Rightarrow> string list \<Rightarrow> (nat \<times> string) list" where
  "first_images cfg images = enumerate 0 (slice_to images (max_images cfg))"

text \<open>The summary of a capture.\<close>

definition stego_count :: "image_report list \<Rightarrow> nat" where
  "stego_count rs = length (filter (\<lambda>r. cr_classification (ir_result r) = ''STEGO'') rs)"

definition overall :: "image_report list \<Rightarrow> string" where
  "overall rs = (if stego_count rs > 0 then ''STEGO'' else ''CLEAN'')"

definition py_max :: "'a::linorder \<Rightarrow> 'a list \<Rightarrow> 'a" where
  "py_max d xs = (case xs of [] \<Rightarrow> d | y # ys \<Rightarrow> fold max ys y)"

definition max_conf :: "image_report list \<Rightarrow> pyfloat" where
  "max_conf rs = py_max 0 (map (\<lambda>r. cr_confidence (ir_result r)) rs)"

definition max_lat :: "image_report list \<Rightarrow> int" where
  "max_lat rs = py_max 0 (map (\<lambda>r. py_trunc (cr_latency (ir_result r))) rs)"

definition pcap_result :: "string \<Rightarrow> int \<Rightarrow> string list \<Rightarrow> image_report list \<Rightarrow> pyval" where
  "pcap_result message pcap_size images rs =
     PDict [(''classification'', PStr (overall rs)), (''confidence'', PFloat (max_conf rs)), (''latency_ms'', PInt (max_lat rs)),
            (''message'', PStr message), (''pcap_bytes'', PInt pcap_size), (''images_extracted'', PInt (int (length images))),
            (''images_analyzed'', PInt (int (length rs))), (''stego_count'', PInt (int (stego_count rs))),
            (''results'', PList (map report_dict rs))]"

definition report_pcap :: "env \<Rightarrow> pylib \<Rightarrow> soc_cfg \<Rightarrow> string \<Rightarrow> string \<Rightarrow> string \<Rightarrow> int \<Rightarrow> string list \<Rightarrow> (string \<times> pyval) list
    \<Rightarrow> image_report list \<Rightarrow> ('z soc_scheme, unit) prog" where
  "report_pcap E L cfg job_id pcap_name message pcap_size images details rs =
     seqp (job_completed E job_id [(''result'', pcap_result message pcap_size images rs)])
    (seqp (push_event_to_redis_stream E L cfg job_id (overall rs) (max_conf rs) [] pcap_name (max_lat rs))
          (write_audit_log E ''INGEST_COMPLETE'' job_id [] (overall rs) (max_conf rs)
             (details @ [(''images_extracted'', PInt (int (length images))), (''stego_count'', PInt (int (stego_count rs)))])))"

text \<open>The size of the capture, the directory of the exported files and the images in it.\<close>

definition extraction :: "env \<Rightarrow> soc_cfg \<Rightarrow> string \<Rightarrow> string \<Rightarrow> ('z world_scheme, int \<times> string \<times> string list) prog" where
  "extraction E cfg pcap_path key_path =
     bindp (call_as as_int E (Fs (FsSize pcap_path))) (\<lambda>pcap_size.
     bindp (extract_images_from_pcap E cfg pcap_path key_path) (\<lambda>(extract_dir, images).
     ret (pcap_size, extract_dir, images)))"

text \<open>
  The directory is remembered for the \<^verbatim>\<open>finally\<close> block only once the extraction has returned, so
  the body is split there: \<open>pcap_job\<close> is what the two kinds of jobs have in common.
\<close>

definition pcap_job :: "env \<Rightarrow> pylib \<Rightarrow> soc_cfg \<Rightarrow> string \<Rightarrow> string \<Rightarrow> string \<Rightarrow> string \<Rightarrow> string \<Rightarrow> string
    \<Rightarrow> (string \<times> pyval) list \<Rightarrow> (string \<times> pyval) list \<Rightarrow> ('z soc_scheme, unit) prog \<Rightarrow> ('z soc_scheme, unit) prog" where
  "pcap_job E L cfg job_id pcap_path key_path pcap_name no_images message fail_details details unlinks =
     seqp (job_running E job_id)
       (bindp (catchp (bindp (extraction E cfg pcap_path key_path) (\<lambda>x. ret (Inr x))) (\<lambda>e. ret (Inl e))) (\<lambda>r.
        case r of
          Inl e \<Rightarrow> finallyp (job_failed E job_id fail_details e) unlinks
        | Inr (pcap_size, extract_dir, images) \<Rightarrow>
            finallyp
              (catchp
                (if images = [] then raise (Exn RuntimeErr no_images)
                 else bindp (mapp (analyze_extracted E L cfg pcap_name) (first_images cfg images)) (\<lambda>rs.
                      report_pcap E L cfg job_id pcap_name message pcap_size images details rs))
                (job_failed E job_id fail_details))
              (seqp unlinks (whenp (extract_dir \<noteq> []) (rmtree_quiet E extract_dir)))))"

definition start_pcap_job :: "env \<Rightarrow> string \<Rightarrow> string \<Rightarrow> ('z soc_scheme, string) prog" where
  "start_pcap_job E pcap_name key_name =
     bindp (new_job_id E ''pcap_'') (\<lambda>job_id.
     seqp (job_set E job_id [(''status'', PStr ''queued''), (''kind'', PStr ''pcap''), (''pcap'', PStr pcap_name), (''keys'', PStr key_name)])
          (ret job_id))"

definition run_pcap_job :: "env \<Rightarrow> pylib \<Rightarrow> soc_cfg \<Rightarrow> string \<Rightarrow> string \<Rightarrow> string \<Rightarrow> string \<Rightarrow> string \<Rightarrow> ('z soc_scheme, unit) prog" where
  "run_pcap_job E L cfg job_id pcap_path key_path pcap_name key_name =
     pcap_job E L cfg job_id pcap_path key_path pcap_name
       (''no images found in PCAP after TLS decryption (pcap='' @ pcap_name @ '' keylog='' @ key_name
          @ ''); verify the key log matches this capture.'')
       ''PCAP decrypted and analyzed''
       [(''filename'', PStr pcap_name), (''kind'', PStr ''pcap'')]
       [(''filename'', PStr pcap_name), (''kind'', PStr ''pcap''), (''key_file'', PStr key_name)]
       (seqp (unlink E pcap_path) (unlink E key_path))"

definition start_pcap_plain_job :: "env \<Rightarrow> string \<Rightarrow> ('z soc_scheme, string) prog" where
  "start_pcap_plain_job E pcap_name =
     bindp (new_job_id E ''pcap_'') (\<lambda>job_id.
     seqp (job_set E job_id [(''status'', PStr ''queued''), (''kind'', PStr ''pcap_plain''), (''pcap'', PStr pcap_name)])
          (ret job_id))"

definition run_pcap_plain_job :: "env \<Rightarrow> pylib \<Rightarrow> soc_cfg \<Rightarrow> string \<Rightarrow> string \<Rightarrow> string \<Rightarrow> ('z soc_scheme, unit) prog" where
  "run_pcap_plain_job E L cfg job_id pcap_path pcap_name =
     pcap_job E L cfg job_id pcap_path [] pcap_name ''no images extracted from pcap'' ''PCAP extracted and analyzed''
       [(''filename'', PStr pcap_name), (''kind'', PStr ''pcap_plain'')]
       [(''filename'', PStr pcap_name), (''kind'', PStr ''pcap_plain'')]
       (unlink E pcap_path)"

end
