(* ===== verification/SocApi.thy ===== *)
theory SocApi
  imports SocQueries SocIngest
begin

text \<open>
  soc-api/server.py, the rest of the API: settings, heartbeats, the ingest requests, the job list, the
  live events, the retention worker, and the table of the routes. A request that starts a job
  answers with the job that its thread runs.
\<close>

section \<open>Settings\<close>

definition settings_get :: "('z soc_scheme, answer) prog" where
  "settings_get = getp (\<lambda>s. ok (PDict (settings_state s)))"

definition set_setting :: "pyval \<Rightarrow> string \<Rightarrow> ('z soc_scheme, unit) prog" where
  "set_setting payload key =
     bindp (lift_sum (py_in key payload)) (\<lambda>given.
     whenp given
       (bindp (lift_sum (py_item payload key)) (\<lambda>v.
        modifyp (\<lambda>s. s\<lparr>settings_state := AList.update key v (settings_state s)\<rparr>))))"

definition settings_key :: string where
  "settings_key = ''stegnar:settings''"

definition setting_texts :: "pylib \<Rightarrow> (string \<times> pyval) list \<Rightarrow> (string \<times> string) list" where
  "setting_texts L st = map (\<lambda>f. (fst f, py_str L (snd f))) st"

definition save_settings :: "env \<Rightarrow> pylib \<Rightarrow> ('z soc_scheme, unit) prog" where
  "save_settings E L =
     bindp (getp settings_state) (\<lambda>st. do_call E (Redis (HSet settings_key (setting_texts L st))))"

definition settings_post :: "env \<Rightarrow> pylib \<Rightarrow> http_request \<Rightarrow> ('z soc_scheme, answer) prog" where
  "settings_post E L rq =
     (let payload = py_or (json_body rq) (PDict [])
      in catchp
           (bindp (getp settings_state) (\<lambda>st0.
            seqp (forp (map fst st0) (set_setting payload))
           (seqp (catchp (save_settings E L) (\<lambda>_. ret ()))
                 (getp (\<lambda>s. ok (PDict ((''ok'', PBool True) # settings_state s)))))))
           (\<lambda>_. ret (PDict [(''ok'', PBool False), (''error'', PStr ''failed to update settings'')], 500)))"

text \<open>The type of the present value decides how the text is read.\<close>

definition read_setting :: "pyval \<Rightarrow> string \<Rightarrow> exn + pyval" where
  "read_setting old t =
     (case old of
        PBool b \<Rightarrow> Inr (PBool (lower t = ''true''))
      | PInt n \<Rightarrow> (case py_int t of Inl e \<Rightarrow> Inl e | Inr m \<Rightarrow> Inr (PInt m))
      | _ \<Rightarrow> Inr (PStr t))"

definition load_setting :: "string \<times> pyval \<Rightarrow> ('z soc_scheme, unit) prog" where
  "load_setting f =
     bindp (getp (\<lambda>s. map_of (settings_state s) (fst f))) (\<lambda>old.
     case old of
       None \<Rightarrow> ret ()
     | Some v0 \<Rightarrow>
         bindp (lift_sum (as_str (snd f))) (\<lambda>t.
         bindp (lift_sum (read_setting v0 t)) (\<lambda>v.
         modifyp (\<lambda>s. s\<lparr>settings_state := AList.update (fst f) v (settings_state s)\<rparr>))))"

definition init_settings :: "env \<Rightarrow> pylib \<Rightarrow> ('z soc_scheme, unit) prog" where
  "init_settings E L =
     catchp
       (bindp (call_as as_dict E (Redis (HGetAll settings_key))) (\<lambda>data.
        if data \<noteq> [] then forp data load_setting else save_settings E L))
       (\<lambda>_. ret ())"

section \<open>Retention\<close>

definition sql_retention :: string where
  "sql_retention = ''DELETE FROM network_events WHERE ts < NOW() - INTERVAL '%s days' ''"

text \<open>One pass of the worker.\<close>

definition retention_pass :: "env \<Rightarrow> ('z soc_scheme, unit) prog" where
  "retention_pass E =
     seqp (catchp
       (bindp (getp (\<lambda>s. dict_get (settings_state s) ''retentionDays'' (PInt 90))) (\<lambda>days.
        seqp (do_call E (Pg PgConnect))
       (seqp (do_call E (Pg (PgExecute sql_retention [days])))
       (seqp (do_call E (Pg PgRowCount))
       (seqp (do_call E (Pg PgCommit)) (do_call E (Pg PgClose)))))))
       (\<lambda>_. ret ()))
     (do_call E (Sleep 3600))"

section \<open>Heartbeats\<close>

definition sql_heartbeat :: string where
  "sql_heartbeat = ''INSERT INTO endpoint_registry (endpoint_id, ip_address, last_seen, total_chunks) VALUES (%s, %s, NOW(), 0) ON CONFLICT (endpoint_id) DO UPDATE SET ip_address = EXCLUDED.ip_address, last_seen = NOW()''"

text \<open>\<^verbatim>\<open>(payload.get(k) or d).strip()\<close>; a value without \<^verbatim>\<open>strip\<close> raises.\<close>

definition text_item :: "pyval \<Rightarrow> string \<Rightarrow> string \<Rightarrow> exn + string" where
  "text_item payload k d =
     (case py_get payload k PNone of Inl e \<Rightarrow> Inl e | Inr v \<Rightarrow>
     (case as_str (py_or v (PStr d)) of Inl e \<Rightarrow> Inl e | Inr t \<Rightarrow> Inr (strip t)))"

definition refused :: "string \<Rightarrow> int \<Rightarrow> answer" where
  "refused msg code = (PDict [(''ok'', PBool False), (''error'', PStr msg)], code)"

definition agent_heartbeat :: "env \<Rightarrow> http_request \<Rightarrow> ('z world_scheme, answer) prog" where
  "agent_heartbeat E rq =
     (let payload = py_or (json_body rq) (PDict [])
      in bindp (lift_sum (text_item payload ''endpoint_id'' [])) (\<lambda>endpoint_id.
         bindp (lift_sum (text_item payload ''ip'' ''unknown'')) (\<lambda>ip.
         if endpoint_id = [] then ret (refused ''endpoint_id required'' 400)
         else
           bindp (pg_guard E
             (seqp (do_call E (Pg (PgExecute sql_heartbeat [PStr endpoint_id, PStr (or_str ip ''unknown'')])))
             (seqp (do_call E (Pg PgCommit)) (do_call E (Pg PgClose))))) (\<lambda>r.
           ret (case r of Inl e \<Rightarrow> refused (exn_str e) 500 | Inr u \<Rightarrow> ok (PDict [(''ok'', PBool True)]))))))"

section \<open>Ingest\<close>

text \<open>The job a request starts, and what its thread runs.\<close>

datatype job =
    ImageJob string string string
  | PcapJob string string string string string
  | PcapPlainJob string string string

fun run_job :: "env \<Rightarrow> pylib \<Rightarrow> soc_cfg \<Rightarrow> job \<Rightarrow> ('z soc_scheme, unit) prog" where
  "run_job E L cfg (ImageJob job_id upload_path original_name) = run_image_job E L cfg job_id upload_path original_name"
| "run_job E L cfg (PcapJob job_id pcap_path key_path pcap_name key_name) =
     run_pcap_job E L cfg job_id pcap_path key_path pcap_name key_name"
| "run_job E L cfg (PcapPlainJob job_id pcap_path pcap_name) = run_pcap_plain_job E L cfg job_id pcap_path pcap_name"

definition or_name :: "string option \<Rightarrow> string \<Rightarrow> string" where
  "or_name name d = (case name of None \<Rightarrow> d | Some s \<Rightarrow> or_str s d)"

definition bad_request :: "string \<Rightarrow> answer \<times> job option" where
  "bad_request msg = ((PDict [(''error'', PStr msg)], 400), None)"

definition queued_answer :: "string \<Rightarrow> answer" where
  "queued_answer job_id = (PDict [(''job_id'', PStr job_id), (''status'', PStr ''queued'')], 202)"

definition save_upload :: "env \<Rightarrow> string \<Rightarrow> upload \<Rightarrow> ('z world_scheme, string) prog" where
  "save_upload E suffix up =
     bindp (call_as as_str E (Fs (FsMkTemp suffix))) (\<lambda>tmp_path.
     seqp (do_call E (Fs (FsWrite tmp_path (upload_data up)))) (ret tmp_path))"

definition ingest_image :: "env \<Rightarrow> soc_cfg \<Rightarrow> http_request \<Rightarrow> ('z soc_scheme, answer \<times> job option) prog" where
  "ingest_image E cfg rq =
     (case map_of (files rq) ''file'' of
        None \<Rightarrow> ret (bad_request ''no file field'')
      | Some up \<Rightarrow>
          let suffix = or_str (lower (path_suffix (or_name (upload_filename up) ''upload.jpg''))) ''.jpg''
          in if suffix \<notin> set [''.jpg'', ''.jpeg'', ''.png'', ''.bmp'', ''.tif'', ''.tiff'']
             then ret (bad_request ''unsupported image format'')
             else
               seqp (do_call E (Fs (FsMakeDirs (soc_temp_dir cfg))))
              (bindp (save_upload E suffix up) (\<lambda>tmp_path.
               let original_name = or_name (upload_filename up) ''upload''
               in bindp (start_image_job E original_name) (\<lambda>job_id.
                  ret (queued_answer job_id, Some (ImageJob job_id tmp_path original_name))))))"

definition ingest_pcap :: "env \<Rightarrow> soc_cfg \<Rightarrow> http_request \<Rightarrow> ('z soc_scheme, answer \<times> job option) prog" where
  "ingest_pcap E cfg rq =
     (case (map_of (files rq) ''pcap'', map_of (files rq) ''keys'') of
        (Some pcap_file, Some key_file) \<Rightarrow>
          seqp (do_call E (Fs (FsMakeDirs (soc_temp_dir cfg))))
         (bindp (save_upload E ''.pcap'' pcap_file) (\<lambda>pcap_path.
          bindp (save_upload E ''.log'' key_file) (\<lambda>key_path.
          let pcap_name = or_name (upload_filename pcap_file) ''capture.pcap'';
              key_name = or_name (upload_filename key_file) ''sslkeylog.log''
          in bindp (start_pcap_job E pcap_name key_name) (\<lambda>job_id.
             ret (queued_answer job_id, Some (PcapJob job_id pcap_path key_path pcap_name key_name))))))
      | _ \<Rightarrow> ret (bad_request ''pcap and keys files required''))"

definition ingest_pcap_plain :: "env \<Rightarrow> soc_cfg \<Rightarrow> http_request \<Rightarrow> ('z soc_scheme, answer \<times> job option) prog" where
  "ingest_pcap_plain E cfg rq =
     (case map_of (files rq) ''pcap'' of
        None \<Rightarrow> ret (bad_request ''pcap file required'')
      | Some pcap_file \<Rightarrow>
          seqp (do_call E (Fs (FsMakeDirs (soc_temp_dir cfg))))
            (let pcap_name = or_name (upload_filename pcap_file) ''capture.pcap'';
                 suffix = or_str (lower (path_suffix pcap_name)) ''.pcap''
             in if suffix \<notin> set [''.pcap'', ''.pcapng''] then ret (bad_request ''unsupported pcap format'')
                else
                  bindp (save_upload E suffix pcap_file) (\<lambda>pcap_path.
                  bindp (start_pcap_plain_job E pcap_name) (\<lambda>job_id.
                  ret (queued_answer job_id, Some (PcapPlainJob job_id pcap_path pcap_name))))))"

definition created_at :: "(string \<times> pyval) list \<Rightarrow> int" where
  "created_at j = (case dict_get j ''created_at'' (PInt 0) of PInt n \<Rightarrow> n | _ \<Rightarrow> 0)"

definition ingest_jobs_list :: "http_request \<Rightarrow> ('z soc_scheme, answer) prog" where
  "ingest_jobs_list rq =
     bindp (lift_sum (limit_arg rq ''limit'' 50 200)) (\<lambda>limit.
     bindp (getp (\<lambda>s. map snd (ingest_jobs s))) (\<lambda>jobs.
     ret (ok (PList (map PDict (slice_to (sort_desc created_at jobs) limit))))))"

definition ingest_job :: "string \<Rightarrow> ('z soc_scheme, answer) prog" where
  "ingest_job job_id =
     getp (\<lambda>s. case map_of (ingest_jobs s) job_id of
        Some (f # fs) \<Rightarrow> ok (PDict (f # fs)) | _ \<Rightarrow> (PDict [(''error'', PStr ''job not found'')], 404))"

section \<open>Live events\<close>

definition sql_last_ts :: string where
  "sql_last_ts = ''SELECT ts FROM network_events ORDER BY ts DESC LIMIT 1''"

definition sql_new_events :: string where
  "sql_new_events = ''SELECT sha256 AS sha256_hash, steg_score AS calpa_score, verdict AS classification, ts AS first_seen_ts, endpoint_id, src_ip, dst_ip, event_id::text FROM network_events WHERE ts > %s::timestamptz ORDER BY ts ASC LIMIT 10''"

text \<open>How the rows of a pass end: all sent, the client gone, or an exception.\<close>

datatype ws_end = AllSent | ClientGone | WsFailed exn

definition ws_send :: "env \<Rightarrow> (string \<times> pyval) list \<Rightarrow> ('z world_scheme, bool) prog" where
  "ws_send E row =
     catchp
       (bindp (call E (Tool (JsonDumps (PDict [(''type'', PStr ''new_image''), (''payload'', PDict row)])))) (\<lambda>t.
        seqp (do_call E (Http (WsSend t))) (ret True)))
       (\<lambda>_. ret False)"

text \<open>The cursor moves with every row, before the row is sent.\<close>

primrec ws_rows :: "env \<Rightarrow> pylib \<Rightarrow> pyval list \<Rightarrow> pyval \<Rightarrow> ('z world_scheme, ws_end \<times> pyval) prog" where
  "ws_rows E L [] last_ts = ret (AllSent, last_ts)"
| "ws_rows E L (r # rs) last_ts =
     (case as_dict r of
        Inl e \<Rightarrow> ret (WsFailed e, last_ts)
      | Inr d \<Rightarrow>
          (let row = image_row L d
           in case dict_item row ''first_seen_ts'' of
                Inl e \<Rightarrow> ret (WsFailed e, last_ts)
              | Inr ts \<Rightarrow>
                  bindp (ws_send E row) (\<lambda>sent.
                  if sent then ws_rows E L rs ts else ret (ClientGone, ts))))"

definition ws_query :: "env \<Rightarrow> pylib \<Rightarrow> pyval \<Rightarrow> ('z world_scheme, ws_end \<times> pyval) prog" where
  "ws_query E L last_ts =
     catchp
       (if last_ts = PNone then
          bindp (fetch_one E sql_last_ts) (\<lambda>row.
          if truthy row then bindp (lift_sum (py_item row ''ts'')) (\<lambda>t. ret (AllSent, PStr (py_str L t)))
          else ret (AllSent, PStr ''2000-01-01''))
        else
          bindp (fetch_rows E sql_new_events [last_ts]) (\<lambda>rows. ws_rows E L rows last_ts))
       (\<lambda>e. ret (WsFailed e, last_ts))"

definition ws_failed :: "env \<Rightarrow> bool \<Rightarrow> exn \<Rightarrow> ('z world_scheme, unit) prog" where
  "ws_failed E open_conn e =
     seqp (whenp open_conn (quiet_close E)) (whenp (exn_cls e = PgOperationalErr) (do_call E (Sleep 5)))"

text \<open>One pass of the loop: whether it goes on, and the cursor.\<close>

definition ws_pass :: "env \<Rightarrow> pylib \<Rightarrow> pyval \<Rightarrow> ('z world_scheme, bool \<times> pyval) prog" where
  "ws_pass E L last_ts =
     bindp (catchp (seqp (do_call E (Pg PgConnect)) (ret None)) (\<lambda>e. ret (Some e))) (\<lambda>failed.
     case failed of
       Some e \<Rightarrow> seqp (ws_failed E False e) (seqp (do_call E (Sleep 2)) (ret (True, last_ts)))
     | None \<Rightarrow>
         bindp (ws_query E L last_ts) (\<lambda>(outcome, cursor).
         case outcome of
           ClientGone \<Rightarrow> ret (False, cursor)
         | WsFailed e \<Rightarrow> seqp (ws_failed E True e) (seqp (do_call E (Sleep 2)) (ret (True, cursor)))
         | AllSent \<Rightarrow>
             seqp (catchp (do_call E (Pg PgClose)) (ws_failed E True))
                  (seqp (do_call E (Sleep 2)) (ret (True, cursor)))))"

text \<open>\<open>passes\<close> bounds the number of passes; the result says whether the client is still there.\<close>

primrec ws_loop :: "env \<Rightarrow> pylib \<Rightarrow> nat \<Rightarrow> pyval \<Rightarrow> ('z world_scheme, bool \<times> pyval) prog" where
  "ws_loop E L 0 last_ts = ret (True, last_ts)"
| "ws_loop E L (Suc passes) last_ts =
     bindp (ws_pass E L last_ts) (\<lambda>(go, cursor). if go then ws_loop E L passes cursor else ret (False, cursor))"

definition ws_events :: "env \<Rightarrow> pylib \<Rightarrow> nat \<Rightarrow> ('z world_scheme, bool \<times> pyval) prog" where
  "ws_events E L passes = ws_loop E L passes PNone"

section \<open>Routes\<close>

datatype route =
    Health | AdminDiagnostics | DbTables | DbRows string | RedisStats | RedisKeys | Images | Logs
  | SettingsGet | SettingsPost | Endpoints | LedgerEvents | AuditEvents | LedgerIntegrity | StorageBuckets
  | ProxyLogs | ProxyMetrics | MitmLogs | ContainerLogServices | ContainerLogs | MitmMetrics | LatencyMetrics
  | PipelineMetrics | AgentHeartbeat | IngestImage | IngestPcap | IngestPcapPlain | IngestJobs | IngestJob string
  | IngestUpload

definition answered :: "('s, answer) prog \<Rightarrow> ('s, answer \<times> job option) prog" where
  "answered m = bindp m (\<lambda>a. ret (a, None))"

fun handle :: "env \<Rightarrow> pylib \<Rightarrow> soc_cfg \<Rightarrow> route \<Rightarrow> http_request \<Rightarrow> ('z soc_scheme, answer \<times> job option) prog" where
  "handle E L cfg Health rq = answered (health E cfg)"
| "handle E L cfg AdminDiagnostics rq = answered (admin_diagnostics E cfg)"
| "handle E L cfg DbTables rq = answered (db_tables E L)"
| "handle E L cfg (DbRows table_name) rq = answered (db_rows E L rq table_name)"
| "handle E L cfg RedisStats rq = answered (redis_stats E cfg)"
| "handle E L cfg RedisKeys rq = answered (redis_keys E cfg)"
| "handle E L cfg Images rq = answered (images E L rq)"
| "handle E L cfg Logs rq = answered (logs E rq)"
| "handle E L cfg SettingsGet rq = answered settings_get"
| "handle E L cfg SettingsPost rq = answered (settings_post E L rq)"
| "handle E L cfg Endpoints rq = answered (endpoints E)"
| "handle E L cfg LedgerEvents rq = answered (ledger_events E)"
| "handle E L cfg AuditEvents rq = answered (audit_events E rq)"
| "handle E L cfg LedgerIntegrity rq = answered (ledger_integrity E)"
| "handle E L cfg StorageBuckets rq = answered (storage_buckets E L cfg)"
| "handle E L cfg ProxyLogs rq = answered (proxy_logs E cfg)"
| "handle E L cfg ProxyMetrics rq = answered (proxy_metrics E cfg)"
| "handle E L cfg MitmLogs rq = answered (mitm_logs E cfg)"
| "handle E L cfg ContainerLogServices rq = answered container_log_services"
| "handle E L cfg ContainerLogs rq = answered (container_logs E L cfg rq)"
| "handle E L cfg MitmMetrics rq = answered (mitm_metrics E L cfg)"
| "handle E L cfg LatencyMetrics rq = answered (latency_metrics E L)"
| "handle E L cfg PipelineMetrics rq = answered (pipeline_metrics E)"
| "handle E L cfg AgentHeartbeat rq = answered (agent_heartbeat E rq)"
| "handle E L cfg IngestImage rq = ingest_image E cfg rq"
| "handle E L cfg IngestPcap rq = ingest_pcap E cfg rq"
| "handle E L cfg IngestPcapPlain rq = ingest_pcap_plain E cfg rq"
| "handle E L cfg IngestJobs rq = answered (ingest_jobs_list rq)"
| "handle E L cfg (IngestJob job_id) rq = answered (ingest_job job_id)"
| "handle E L cfg IngestUpload rq = ingest_image E cfg rq"

end
