(* ===== verification/SocJobs.thy ===== *)
theory SocJobs
  imports SocIngest
begin

text \<open>
  What the ingest jobs of the SOC API do: the outcome of a job as a function of its analysis, what it
  queues, and what it leaves behind.
\<close>

section \<open>The services leave the jobs alone\<close>

lemmas soc_service_defs = tail_file_def try_sdk_def docker_available_def run_docker_command_def sdk_container_def
  docker_inspect_json_def resolve_ingest_network_def resolve_mitm_image_def put_archive_bytes_def
  is_image_file_def extract_images_from_pcap_def exec_worker_def run_ephemeral_def run_exec_def
  run_calpa_for_image_def file_sha256_def case_prod_beta Let_def

text \<open>The jobs' own steps beside \<open>job_set\<close> only add to the history.\<close>

lemma keeps_pick_images: "(\<And>w tr. f (w\<lparr>trace := tr\<rparr>) = f w) \<Longrightarrow> keeps f (pick_images E paths)"
  by (induction paths) (auto simp: is_image_file_def intro!: keeps_intros)

lemma keeps_resolve_ingest_network: "(\<And>w tr. f (w\<lparr>trace := tr\<rparr>) = f w) \<Longrightarrow> keeps f (resolve_ingest_network E cfg)"
  unfolding soc_service_defs by (intro keeps_intros) auto

lemma keeps_resolve_mitm_image: "(\<And>w tr. f (w\<lparr>trace := tr\<rparr>) = f w) \<Longrightarrow> keeps f (resolve_mitm_image E cfg)"
  unfolding soc_service_defs by (intro keeps_intros) auto

lemma keeps_exec_worker: "(\<And>w tr. f (w\<lparr>trace := tr\<rparr>) = f w) \<Longrightarrow> keeps f (exec_worker E c local_path suffix payload)"
  unfolding soc_service_defs by (intro keeps_intros) auto

lemma keeps_run_calpa: "(\<And>w tr. f (w\<lparr>trace := tr\<rparr>) = f w) \<Longrightarrow> keeps f (run_calpa_for_image E L cfg local_path artifact_id)"
  unfolding run_calpa_for_image_def run_ephemeral_def run_exec_def sdk_container_def case_prod_beta Let_def
  by (intro keeps_intros keeps_resolve_ingest_network keeps_resolve_mitm_image keeps_exec_worker) auto

lemma keeps_file_sha256: "(\<And>w tr. f (w\<lparr>trace := tr\<rparr>) = f w) \<Longrightarrow> keeps f (file_sha256 E L path)"
  unfolding file_sha256_def by (intro keeps_intros) auto

lemma keeps_extract: "(\<And>w tr. f (w\<lparr>trace := tr\<rparr>) = f w) \<Longrightarrow> keeps f (extract_images_from_pcap E cfg pcap_path key_path)"
  unfolding extract_images_from_pcap_def by (intro keeps_intros keeps_pick_images) auto

lemma keeps_extraction: "(\<And>w tr. f (w\<lparr>trace := tr\<rparr>) = f w) \<Longrightarrow> keeps f (extraction E cfg pcap_path key_path)"
  unfolding extraction_def case_prod_beta by (intro keeps_intros keeps_extract) auto

lemma keeps_writers:
  assumes "\<And>w tr. f (w\<lparr>trace := tr\<rparr>) = f w"
  shows "keeps f (write_hash_cache E sha verdict score mt)" and "keeps f (write_redis_cache E L sha verdict score)"
    and "keeps f (write_audit_log E event job_id sha verdict score details)"
    and "keeps f (push_event_to_redis_stream E L cfg job_id verdict score sha name lat)"
    and "keeps f (unlink E path)" and "keeps f (rmtree_quiet E path)"
  unfolding write_hash_cache_def write_redis_cache_def write_audit_log_def push_event_to_redis_stream_def unlink_def
    rmtree_quiet_def
  using assms by (intro keeps_intros; simp)+

lemma keeps_analyze_extracted:
  "(\<And>w tr. f (w\<lparr>trace := tr\<rparr>) = f w) \<Longrightarrow> keeps f (analyze_extracted E L cfg pcap_name im)"
  unfolding analyze_extracted_def case_prod_beta Let_def
  by (intro keeps_intros keeps_file_sha256 keeps_run_calpa keeps_writers) auto

section \<open>What is queued\<close>

fun is_xadd :: "event \<Rightarrow> bool" where
  "is_xadd (Redis (XAdd _ _ _), _) = True"
| "is_xadd _ = False"

definition pushes :: "hist \<Rightarrow> call list" where
  "pushes h = map fst (filter is_xadd h)"

definition no_xadd :: "event \<Rightarrow> bool" where
  "no_xadd e \<longleftrightarrow> \<not> is_xadd e"

lemma pushes_append [simp]: "pushes (h @ h') = pushes h @ pushes h'"
  by (simp add: pushes_def)

lemma pushes_none: "list_all no_xadd es \<Longrightarrow> pushes es = []"
  by (auto simp: pushes_def no_xadd_def list_all_iff filter_empty_conv)

text \<open>The services neither queue nor remove files.\<close>

definition calm :: "event \<Rightarrow> bool" where
  "calm e \<longleftrightarrow> \<not> is_xadd e \<and> \<not> removal (fst e)"

lemma emits_pick_images: "(\<And>p n r. P (Fs (FsReadHead p n), r)) \<Longrightarrow> emits P (pick_images E paths)"
  by (induction paths) (auto simp: is_image_file_def intro!: emits_intros)

lemma emits_extract: "emits calm (extract_images_from_pcap E cfg pcap_path key_path)"
  unfolding extract_images_from_pcap_def by (intro emits_intros emits_pick_images) (auto simp: calm_def)

lemma emits_resolve_ingest_network: "emits calm (resolve_ingest_network E cfg)"
  unfolding soc_service_defs by (intro emits_intros) (auto simp: calm_def)

lemma emits_resolve_mitm_image: "emits calm (resolve_mitm_image E cfg)"
  unfolding soc_service_defs by (intro emits_intros) (auto simp: calm_def)

lemma emits_exec_worker: "emits calm (exec_worker E c local_path suffix payload)"
  unfolding soc_service_defs by (intro emits_intros) (auto simp: calm_def)

lemma emits_run_calpa: "emits calm (run_calpa_for_image E L cfg local_path artifact_id)"
  unfolding run_calpa_for_image_def run_ephemeral_def run_exec_def sdk_container_def case_prod_beta Let_def
  by (intro emits_intros emits_resolve_ingest_network emits_resolve_mitm_image emits_exec_worker) (auto simp: calm_def)

lemma emits_extraction: "emits calm (extraction E cfg pcap_path key_path)"
  unfolding extraction_def case_prod_beta by (intro emits_intros emits_extract) (simp add: calm_def)

lemma emits_file_sha256: "emits calm (file_sha256 E L path)"
  unfolding file_sha256_def by (intro emits_intros) (auto simp: calm_def)

lemma emits_writers:
  "emits calm (write_hash_cache E sha verdict score mt)" "emits calm (write_redis_cache E L sha verdict score)"
  "emits calm (write_audit_log E event job_id sha verdict score details)"
  unfolding write_hash_cache_def write_redis_cache_def write_audit_log_def
  by (intro emits_intros; simp add: calm_def)+

lemma emits_analyze_extracted: "emits calm (analyze_extracted E L cfg pcap_name im)"
  unfolding analyze_extracted_def case_prod_beta Let_def
  by (intro emits_intros emits_file_sha256 emits_run_calpa emits_writers)

lemma emits_unlink: "emits no_xadd (unlink E path)" "emits no_xadd (rmtree_quiet E path)"
  unfolding unlink_def rmtree_quiet_def by (intro emits_intros; simp add: no_xadd_def)+

lemma calm_no_xadd: "emits calm m \<Longrightarrow> emits no_xadd m"
  by (erule emits_mono) (simp add: calm_def no_xadd_def)

text \<open>Such a program changes neither the jobs nor the queue.\<close>

definition quiet :: "('z soc_scheme, 'a) prog \<Rightarrow> bool" where
  "quiet m \<longleftrightarrow> (\<forall>w. ingest_jobs (snd (m w)) = ingest_jobs w \<and> pushes (trace (snd (m w))) = pushes (trace w))"

lemma quietI: "keeps ingest_jobs m \<Longrightarrow> emits no_xadd m \<Longrightarrow> quiet m"
  unfolding quiet_def keeps_def emits_def by (metis append_Nil2 pushes_append pushes_none)

lemma quietD: "quiet m \<Longrightarrow> m w = (r, w') \<Longrightarrow> ingest_jobs w' = ingest_jobs w \<and> pushes (trace w') = pushes (trace w)"
  unfolding quiet_def by (metis snd_conv)

lemma quiet_seqp:
  assumes m: "quiet m" and n: "quiet n"
  shows "quiet (seqp m n)"
  unfolding quiet_def
proof
  fix w :: "'a soc_scheme"
  obtain r w1 where w1: "m w = (r, w1)" by fastforce
  obtain q w2 where w2: "n w1 = (q, w2)" by fastforce
  show "ingest_jobs (snd (seqp m n w)) = ingest_jobs w \<and> pushes (trace (snd (seqp m n w))) = pushes (trace w)"
    using quietD [OF m w1] quietD [OF n w2] w1 w2 by (cases r) (simp_all add: seqp_def bindp_def)
qed

lemma quiet_whenp: "quiet m \<Longrightarrow> quiet (whenp b m)"
  by (simp add: quiet_def whenp_def ret_def)

lemma quiet_steps:
  "quiet (file_sha256 E L path)" "quiet (run_calpa_for_image E L cfg local_path artifact_id)"
  "quiet (extraction E cfg pcap_path key_path)"
  "quiet (mapp (analyze_extracted E L cfg pcap_name) ims)" "quiet (call_as t E (Fs c))"
  "quiet (write_hash_cache E sha verdict score mt)" "quiet (write_redis_cache E L sha verdict score)"
  "quiet (write_audit_log E event job_id sha verdict score details)"
  "quiet (unlink E path)" "quiet (rmtree_quiet E path)"
  by (intro quietI keeps_intros keeps_file_sha256 keeps_run_calpa keeps_extraction keeps_analyze_extracted keeps_writers
      calm_no_xadd emits_file_sha256 emits_run_calpa emits_extraction emits_writers emits_unlink
      emits_mapp emits_analyze_extracted emits_call_as; simp add: no_xadd_def calm_def)+

section \<open>The job table\<close>

definition job_field :: "'z soc_scheme \<Rightarrow> string \<Rightarrow> string \<Rightarrow> pyval option" where
  "job_field w job_id k = (case map_of (ingest_jobs w) job_id of None \<Rightarrow> None | Some job \<Rightarrow> map_of job k)"

definition failed_job :: "'z soc_scheme \<Rightarrow> string \<Rightarrow> exn \<Rightarrow> bool" where
  "failed_job w job_id e \<longleftrightarrow> job_field w job_id ''status'' = Some (PStr ''failed'')
     \<and> job_field w job_id ''error'' = Some (PStr (exn_str e))"

definition completed_job :: "'z soc_scheme \<Rightarrow> string \<Rightarrow> pyval \<Rightarrow> bool" where
  "completed_job w job_id res \<longleftrightarrow> job_field w job_id ''status'' = Some (PStr ''completed'')
     \<and> job_field w job_id ''result'' = Some res"

text \<open>The clock always answers.\<close>

definition clock_ok :: "env \<Rightarrow> bool" where
  "clock_ok E \<longleftrightarrow> (\<forall>h. \<exists>t. E h Clock = Inr (PFloat t))"

lemma clock_okE: "clock_ok E \<Longrightarrow> (\<And>t. E h Clock = Inr (PFloat t) \<Longrightarrow> P) \<Longrightarrow> P"
  unfolding clock_ok_def by blast

lemma map_of_dict_update:
  "distinct (map fst upd) \<Longrightarrow> map_of (dict_update d upd) k = (case map_of upd k of Some v \<Rightarrow> Some v | None \<Rightarrow> map_of d k)"
  unfolding dict_update_def by (rule alist.get_puts)

lemma now_ms_run:
  assumes "clock_ok E"
  shows "\<exists>now w'. now_ms E w = (Inr now, w') \<and> w' = w\<lparr>trace := trace w @ [(Clock, E (trace w) Clock)]\<rparr>"
proof -
  obtain t where "E (trace w) Clock = Inr (PFloat t)" using assms by (rule clock_okE)
  then show ?thesis by (simp add: now_ms_def call_as_def call_def bindp_def lift_sum_def as_float_def ret_def Let_def)
qed

text \<open>The fields are set, the other jobs and the queue stay as they are.\<close>

definition sets_fields :: "'z soc_scheme \<Rightarrow> string \<Rightarrow> (string \<times> pyval) list \<Rightarrow> 'z soc_scheme \<Rightarrow> bool" where
  "sets_fields w job_id upd w' \<longleftrightarrow> pushes (trace w') = pushes (trace w)
     \<and> (\<forall>j. j \<noteq> job_id \<longrightarrow> map_of (ingest_jobs w') j = map_of (ingest_jobs w) j)
     \<and> (\<forall>k v. map_of upd k = Some v \<longrightarrow> job_field w' job_id k = Some v)"

lemma job_set_run:
  assumes "clock_ok E" and "distinct (map fst upd)"
  shows "\<exists>w'. job_set E job_id upd w = (Inr (), w') \<and> sets_fields w job_id upd w'"
proof (cases "map_of (ingest_jobs w) job_id")
  case (Some job)
  then show ?thesis
    using assms(2)
    by (simp add: job_set_def bindp_def getp_def ret_def modifyp_def sets_fields_def job_field_def map_of_dict_update)
next
  case None
  obtain now w1 where "now_ms E w = (Inr now, w1)" "w1 = w\<lparr>trace := trace w @ [(Clock, E (trace w) Clock)]\<rparr>"
    using now_ms_run [OF assms(1)] by blast
  with None show ?thesis
    using assms(2)
    by (simp add: job_set_def bindp_def getp_def ret_def modifyp_def sets_fields_def job_field_def map_of_dict_update
        pushes_def)
qed

lemma stamped_job_set_run:
  assumes "clock_ok E" and "\<And>now. distinct (map fst (upd now))"
  shows "\<exists>now w'. bindp (now_ms E) (\<lambda>now. job_set E job_id (upd now)) w = (Inr (), w') \<and> sets_fields w job_id (upd now) w'"
proof -
  obtain now w1 where w1: "now_ms E w = (Inr now, w1)" "w1 = w\<lparr>trace := trace w @ [(Clock, E (trace w) Clock)]\<rparr>"
    using now_ms_run [OF assms(1)] by blast
  obtain w2 where "job_set E job_id (upd now) w1 = (Inr (), w2)" "sets_fields w1 job_id (upd now) w2"
    using job_set_run [OF assms(1) assms(2)] by blast
  with w1 show ?thesis by (auto simp: bindp_def sets_fields_def pushes_def)
qed

lemma job_running_run: "clock_ok E \<Longrightarrow> \<exists>w'. job_running E job_id w = (Inr (), w') \<and> pushes (trace w') = pushes (trace w)"
  using stamped_job_set_run [of E "\<lambda>now. [(''status'', PStr ''running''), (''started_at'', PInt now)]" job_id w]
  by (auto simp: job_running_def sets_fields_def)

lemma job_completed_run:
  assumes "clock_ok E" and "distinct (map fst upd)" and "''status'' \<notin> fst ` set upd" and "''completed_at'' \<notin> fst ` set upd"
    and "map_of upd ''result'' = Some res"
  shows "\<exists>w'. job_completed E job_id upd w = (Inr (), w') \<and> completed_job w' job_id res \<and> pushes (trace w') = pushes (trace w)"
  using assms stamped_job_set_run [of E "\<lambda>now. [(''status'', PStr ''completed''), (''completed_at'', PInt now)] @ upd" job_id w]
  by (force simp: job_completed_def sets_fields_def completed_job_def)

lemma no_raise_services:
  "no_raise (write_hash_cache E sha verdict score mt)" "no_raise (write_redis_cache E L sha verdict score)"
  "no_raise (write_audit_log E event job_id sha verdict score details)" "no_raise (file_sha256 E L path)"
  "no_raise (rmtree_quiet E path)"
  unfolding write_hash_cache_def write_redis_cache_def write_audit_log_def file_sha256_def rmtree_quiet_def
  by (intro no_raise_intros)+

lemma quiet_run:
  "quiet m \<Longrightarrow> no_raise m \<Longrightarrow> \<exists>x w'. m w = (Inr x, w') \<and> ingest_jobs w' = ingest_jobs w \<and> pushes (trace w') = pushes (trace w)"
  unfolding quiet_def no_raise_def by (metis prod.collapse)

lemmas writer_runs = quiet_run [OF quiet_steps(6) no_raise_services(1)] quiet_run [OF quiet_steps(7) no_raise_services(2)]
  quiet_run [OF quiet_steps(8) no_raise_services(3)]

lemma job_failed_run:
  assumes "clock_ok E"
  shows "\<exists>w'. job_failed E job_id details e w = (Inr (), w') \<and> failed_job w' job_id e \<and> pushes (trace w') = pushes (trace w)"
proof -
  let ?upd = "\<lambda>now. [(''status'', PStr ''failed''), (''completed_at'', PInt now), (''error'', PStr (exn_str e))]"
  obtain now w1 where w1: "now_ms E w = (Inr now, w1)" "w1 = w\<lparr>trace := trace w @ [(Clock, E (trace w) Clock)]\<rparr>"
    using now_ms_run [OF assms(1)] by blast
  obtain w2 where w2: "job_set E job_id (?upd now) w1 = (Inr (), w2)" "sets_fields w1 job_id (?upd now) w2"
    using job_set_run [of E "?upd now" job_id w1] assms by auto
  obtain w3 where w3: "write_audit_log E ''INGEST_FAILED'' job_id [] [] 0 (details @ [(''error'', PStr (exn_str e))]) w2 = (Inr (), w3)"
      "ingest_jobs w3 = ingest_jobs w2" "pushes (trace w3) = pushes (trace w2)"
    using writer_runs(3) by (metis (full_types) old.unit.exhaust)
  show ?thesis
    using w1 w2 w3
    by (auto simp: job_failed_def bindp_def seqp_def sets_fields_def failed_job_def job_field_def pushes_def)
qed

lemma push_run:
  assumes "clock_ok E"
  shows "\<exists>now w'. push_event_to_redis_stream E L cfg job_id verdict score sha name lat w = (Inr (), w')
    \<and> ingest_jobs w' = ingest_jobs w
    \<and> pushes (trace w') = pushes (trace w) @
        [Redis (XAdd (redis_stream_name cfg) (ingest_entry L job_id verdict score sha name lat now) 10000)]"
proof -
  obtain now w1 where "now_ms E w = (Inr now, w1)" "w1 = w\<lparr>trace := trace w @ [(Clock, E (trace w) Clock)]\<rparr>"
    using now_ms_run [OF assms(1)] by blast
  then show ?thesis
    by (auto simp: push_event_to_redis_stream_def bindp_def catchp_def do_call_def call_def ret_def pushes_def Let_def
        split: sum.split)
qed

section \<open>One image\<close>

lemma job_cong:
  assumes "ingest_jobs w' = ingest_jobs w"
  shows "completed_job w' job_id res = completed_job w job_id res" "failed_job w' job_id e = failed_job w job_id e"
  using assms by (simp_all add: completed_job_def failed_job_def job_field_def)

lemma snd_finallyp: "snd (finallyp m f w) = snd (f (snd (m w)))"
  by (auto simp: finallyp_def split: prod.splits sum.splits)

lemma unlink_run: "\<exists>r x. unlink E path w = (r, w\<lparr>trace := trace w @ [(Fs (FsRemove path), x)]\<rparr>)"
  by (auto simp: unlink_def catchif_def catchp_def do_call_def bindp_def call_def ret_def raise_def Let_def split: sum.split)

lemma image_result_run:
  assumes "clock_ok E"
  shows "\<exists>now w'. image_result E L cfg job_id name sha (res, out, err) w = (Inr (), w')
    \<and> completed_job w' job_id (PDict (result_fields res))
    \<and> pushes (trace w') = pushes (trace w) @
        [Redis (XAdd (redis_stream_name cfg) (ingest_entry L job_id (cr_classification res) (cr_confidence res) sha name
           (py_trunc (cr_latency res)) now) 10000)]"
proof -
  let ?v = "cr_classification res" and ?c = "cr_confidence res"
  obtain w1 where w1: "job_completed E job_id [(''result'', PDict (result_fields res)), (''worker_stdout'', PStr out),
      (''worker_stderr'', PStr err)] w = (Inr (), w1)" "completed_job w1 job_id (PDict (result_fields res))"
      "pushes (trace w1) = pushes (trace w)"
    using job_completed_run [of E "[(''result'', PDict (result_fields res)), (''worker_stdout'', PStr out), (''worker_stderr'', PStr err)]"
      "PDict (result_fields res)" job_id w] assms by auto
  obtain now w2 where w2: "push_event_to_redis_stream E L cfg job_id ?v ?c sha name (py_trunc (cr_latency res)) w1 = (Inr (), w2)"
      "ingest_jobs w2 = ingest_jobs w1" "pushes (trace w2) = pushes (trace w1) @
        [Redis (XAdd (redis_stream_name cfg) (ingest_entry L job_id ?v ?c sha name (py_trunc (cr_latency res)) now) 10000)]"
    using push_run [of E, OF assms] by blast
  obtain w3 where w3: "write_hash_cache E sha ?v ?c (cr_model_type res) w2 = (Inr (), w3)"
      "ingest_jobs w3 = ingest_jobs w2" "pushes (trace w3) = pushes (trace w2)"
    using writer_runs(1) by (metis (full_types) old.unit.exhaust)
  obtain w4 where w4: "write_redis_cache E L sha ?v ?c w3 = (Inr (), w4)"
      "ingest_jobs w4 = ingest_jobs w3" "pushes (trace w4) = pushes (trace w3)"
    using writer_runs(2) by (metis (full_types) old.unit.exhaust)
  obtain w5 where w5: "write_audit_log E ''INGEST_COMPLETE'' job_id sha ?v ?c
      [(''filename'', PStr name), (''kind'', PStr ''image''), (''worker_mode'', PStr (cr_worker_mode res))] w4 = (Inr (), w5)"
      "ingest_jobs w5 = ingest_jobs w4" "pushes (trace w5) = pushes (trace w4)"
    using writer_runs(3) by (metis (full_types) old.unit.exhaust)
  have "completed_job w5 job_id (PDict (result_fields res))"
    using w1 w2 w3 w4 w5 job_cong by metis
  with w1 w2 w3 w4 w5 show ?thesis
    by (intro exI [of _ now] exI [of _ w5]) (simp add: image_result_def seqp_def bindp_def)
qed

definition image_outcome :: "pylib \<Rightarrow> soc_cfg \<Rightarrow> string \<Rightarrow> string \<Rightarrow> string \<Rightarrow> exn + calpa_result \<times> string \<times> string
    \<Rightarrow> 'z soc_scheme \<Rightarrow> 'z soc_scheme \<Rightarrow> bool" where
  "image_outcome L cfg job_id name sha analysis w w' \<longleftrightarrow>
     (case analysis of
        Inl e \<Rightarrow> failed_job w' job_id e \<and> pushes (trace w') = pushes (trace w)
      | Inr (res, out, err) \<Rightarrow> completed_job w' job_id (PDict (result_fields res))
          \<and> (\<exists>now. pushes (trace w') = pushes (trace w) @
               [Redis (XAdd (redis_stream_name cfg) (ingest_entry L job_id (cr_classification res) (cr_confidence res) sha name
                  (py_trunc (cr_latency res)) now) 10000)]))"

lemma image_job_run:
  assumes "clock_ok E"
  shows "\<exists>sha w2. file_sha256 E L upload_path (snd (job_running E job_id w)) = (Inr sha, w2)
    \<and> image_outcome L cfg job_id name sha (fst (run_calpa_for_image E L cfg upload_path name w2)) w
         (snd (run_image_job E L cfg job_id upload_path name w))
    \<and> (\<exists>h x. trace (snd (run_image_job E L cfg job_id upload_path name w)) = h @ [(Fs (FsRemove upload_path), x)])"
proof -
  obtain w1 where w1: "job_running E job_id w = (Inr (), w1)" "pushes (trace w1) = pushes (trace w)"
    using job_running_run [OF assms] by blast
  obtain sha w2 where w2: "file_sha256 E L upload_path w1 = (Inr sha, w2)" "pushes (trace w2) = pushes (trace w1)"
    using quiet_run [OF quiet_steps(1) no_raise_services(4)] by metis
  obtain r w3 where w3: "run_calpa_for_image E L cfg upload_path name w2 = (r, w3)" by fastforce
  have q3: "pushes (trace w3) = pushes (trace w2)" using quietD [OF quiet_steps(2) w3] by simp
  let ?d = "[(''filename'', PStr name), (''kind'', PStr ''image'')]"
  let ?body = "catchp (bindp (file_sha256 E L upload_path) (\<lambda>sha256_val.
      bindp (run_calpa_for_image E L cfg upload_path name) (image_result E L cfg job_id name sha256_val)))
      (job_failed E job_id ?d)"
  have "\<exists>w4. ?body w1 = (Inr (), w4) \<and> image_outcome L cfg job_id name sha r w w4"
  proof (cases r)
    case (Inl e)
    obtain w4 where "job_failed E job_id ?d e w3 = (Inr (), w4)" "failed_job w4 job_id e" "pushes (trace w4) = pushes (trace w3)"
      using job_failed_run [OF assms] by blast
    with w1 w2 w3 q3 Inl show ?thesis by (simp add: catchp_def bindp_def image_outcome_def)
  next
    case (Inr x)
    obtain res out err where x: "x = (res, out, err)" by (cases x)
    from image_result_run [OF assms, of L cfg job_id name sha res out err w3] w1 w2 w3 q3 Inr x
    show ?thesis by (auto simp: catchp_def bindp_def image_outcome_def)
  qed
  then obtain w4 where w4: "?body w1 = (Inr (), w4)" "image_outcome L cfg job_id name sha r w w4" by blast
  obtain q x where u: "unlink E upload_path w4 = (q, w4\<lparr>trace := trace w4 @ [(Fs (FsRemove upload_path), x)]\<rparr>)"
    using unlink_run by blast
  have "snd (run_image_job E L cfg job_id upload_path name w) = w4\<lparr>trace := trace w4 @ [(Fs (FsRemove upload_path), x)]\<rparr>"
    using w1(1) w4(1) u by (simp add: run_image_job_def seqp_def bindp_def snd_finallyp)
  with w1 w2 w3 w4(2) show ?thesis
    by (auto simp: image_outcome_def completed_job_def failed_job_def job_field_def pushes_def split: sum.splits)
qed

text \<open>
C5: Outcome of an image job. With a working clock, whatever the other services answer, a job ends as
its analysis ends: completed, with the result of the worker, and then exactly one event is
put on the stream, with the classification, the score, the digest and the file name; or failed, with
the error of the analysis, and nothing is put on the stream. In both cases the removal of the uploaded
file is the last thing that is done.
\<close>

theorem image_job_outcome:
  assumes "clock_ok E"
  shows "\<exists>sha w2. file_sha256 E L upload_path (snd (job_running E job_id w)) = (Inr sha, w2)
    \<and> image_outcome L cfg job_id name sha (fst (run_calpa_for_image E L cfg upload_path name w2)) w
         (snd (run_image_job E L cfg job_id upload_path name w))
    \<and> (\<exists>h x. trace (snd (run_image_job E L cfg job_id upload_path name w)) = h @ [(Fs (FsRemove upload_path), x)])"
  by (rule image_job_run [OF assms])

section \<open>A capture\<close>

text \<open>The analysis of a capture without the job around it.\<close>

definition pcap_analysis :: "env \<Rightarrow> pylib \<Rightarrow> soc_cfg \<Rightarrow> string \<Rightarrow> string \<Rightarrow> string \<Rightarrow> string
    \<Rightarrow> ('z world_scheme, int \<times> string list \<times> image_report list) prog" where
  "pcap_analysis E L cfg pcap_path key_path pcap_name no_images =
     bindp (extraction E cfg pcap_path key_path) (\<lambda>(pcap_size, extract_dir, images).
     if images = [] then raise (Exn RuntimeErr no_images)
     else
       bindp (mapp (analyze_extracted E L cfg pcap_name) (first_images cfg images)) (\<lambda>rs.
       ret (pcap_size, images, rs)))"

definition report_fits :: "image_report \<Rightarrow> bool" where
  "report_fits r \<longleftrightarrow> (cr_classification (ir_result r) = ''STEGO'' \<longleftrightarrow> cr_predicted (ir_result r) = PStr ''STEGO'')"

lemma okp_run_calpa:
  "okp (run_calpa_for_image E L cfg local_path artifact_id)
     (\<lambda>r s'. cr_classification (fst r) = (if cr_predicted (fst r) = PStr ''STEGO'' then ''STEGO'' else ''CLEAN'')) s"
proof -
  have p: "okp (lift_sum (parsed_result L cfg parsed))
      (\<lambda>r s'. cr_classification r = (if cr_predicted r = PStr ''STEGO'' then ''STEGO'' else ''CLEAN'')) s"
    for parsed and s :: "'a world_scheme"
    by (auto simp: okp_simps parsed_result_def split: sum.splits)
  show ?thesis
    unfolding run_calpa_for_image_def case_prod_beta Let_def
    by (rule okp_raise okp_ifI okp_bindI [OF p] okp_bind_any)+ (simp add: okp_ret)
qed

lemma okp_analyze_extracted: "okp (analyze_extracted E L cfg pcap_name im) (\<lambda>r s'. report_fits r) s"
  unfolding analyze_extracted_def case_prod_beta Let_def
  by (rule okp_bind_any, rule okp_bindI [OF okp_run_calpa], rule okp_seq_any) (auto simp: okp_ret report_fits_def)

lemma okp_mapp_all:
  assumes "\<And>x s. okp (f x) (\<lambda>y s'. P y) s"
  shows "okp (mapp f xs) (\<lambda>ys s'. list_all P ys \<and> length ys = length xs) s"
proof (induction xs arbitrary: s)
  case Nil
  then show ?case by (simp add: okp_ret)
next
  case (Cons x xs)
  show ?case
    unfolding mapp.simps
    by (rule okp_bindI [OF assms], rule okp_bindI [OF Cons.IH]) (simp add: okp_ret)
qed

lemma length_first_images: "length (first_images cfg images) = min (length images) (nat (max_images cfg))"
  by (simp add: first_images_def slice_to_nonneg max_images_def)

definition reports_ok :: "soc_cfg \<Rightarrow> string list \<Rightarrow> image_report list \<Rightarrow> bool" where
  "reports_ok cfg images rs \<longleftrightarrow> rs \<noteq> [] \<and> list_all report_fits rs
     \<and> length rs = min (length images) (nat (max_images cfg))"

lemma okp_pcap_analysis:
  "okp (pcap_analysis E L cfg pcap_path key_path pcap_name no_images)
     (\<lambda>r s'. reports_ok cfg (fst (snd r)) (snd (snd r))) s"
proof -
  have m: "okp (mapp (analyze_extracted E L cfg pcap_name) (first_images cfg images))
      (\<lambda>rs s'. list_all report_fits rs \<and> length rs = min (length images) (nat (max_images cfg))) s"
    for images and s :: "'a world_scheme"
    by (rule okp_mono [OF okp_mapp_all [OF okp_analyze_extracted]]) (simp add: length_first_images)
  have pos: "0 < nat (max_images cfg)" by (simp add: max_images_def)
  show ?thesis
    unfolding pcap_analysis_def case_prod_beta
    by (rule okp_raise okp_ifI okp_bindI [OF m] okp_bind_any)+
      (use pos in \<open>auto simp: okp_ret reports_ok_def min_def split: if_splits\<close>)
qed

text \<open>The summary says what the reports say.\<close>

lemma fold_max_ge: "a \<le> fold max ys (a :: 'b :: linorder)"
  by (induction ys arbitrary: a) (auto intro: order_trans [OF max.cobounded2])

lemma fold_max_upper: "list_all (\<lambda>x. x \<le> fold max ys (a :: 'b :: linorder)) ys"
proof (induction ys arbitrary: a)
  case Nil
  then show ?case by simp
next
  case (Cons y ys)
  have "y \<le> fold max ys (max y a)" using fold_max_ge [of "max y a" ys] by (simp add: max.boundedE)
  with Cons show ?case by simp
qed

lemma fold_max_in: "fold max ys (a :: 'b :: linorder) \<in> set (a # ys)"
proof (induction ys arbitrary: a)
  case Nil
  then show ?case by simp
next
  case (Cons y ys)
  from Cons [of "max y a"] show ?case by (auto simp: max_def split: if_splits)
qed

lemma py_max_is_max:
  assumes "xs \<noteq> []"
  shows "py_max d xs \<in> set xs" and "list_all (\<lambda>x. x \<le> py_max d xs) xs"
proof -
  obtain y ys where xs: "xs = y # ys" using assms by (cases xs) auto
  show "py_max d xs \<in> set xs" using fold_max_in [of ys y] by (simp add: xs py_max_def)
  show "list_all (\<lambda>x. x \<le> py_max d xs) xs"
    using fold_max_ge [of y ys] fold_max_upper [of ys y] by (simp add: xs py_max_def)
qed

lemma overall_reports:
  assumes "list_all report_fits rs"
  shows "overall rs = (if list_ex (\<lambda>r. cr_predicted (ir_result r) = PStr ''STEGO'') rs then ''STEGO'' else ''CLEAN'')"
proof -
  have "stego_count rs > 0 \<longleftrightarrow> list_ex (\<lambda>r. cr_predicted (ir_result r) = PStr ''STEGO'') rs"
    using assms by (auto simp: stego_count_def list_all_iff list_ex_iff report_fits_def filter_empty_conv)
  then show ?thesis by (simp add: overall_def)
qed

lemma report_pcap_run:
  assumes "clock_ok E"
  shows "\<exists>now w'. report_pcap E L cfg job_id pcap_name message pcap_size images details rs w = (Inr (), w')
    \<and> completed_job w' job_id (pcap_result message pcap_size images rs)
    \<and> pushes (trace w') = pushes (trace w) @
        [Redis (XAdd (redis_stream_name cfg) (ingest_entry L job_id (overall rs) (max_conf rs) [] pcap_name (max_lat rs) now) 10000)]"
proof -
  obtain w1 where w1: "job_completed E job_id [(''result'', pcap_result message pcap_size images rs)] w = (Inr (), w1)"
      "completed_job w1 job_id (pcap_result message pcap_size images rs)" "pushes (trace w1) = pushes (trace w)"
    using job_completed_run [of E "[(''result'', pcap_result message pcap_size images rs)]" "pcap_result message pcap_size images rs" job_id w]
      assms by auto
  obtain now w2 where w2: "push_event_to_redis_stream E L cfg job_id (overall rs) (max_conf rs) [] pcap_name (max_lat rs) w1 = (Inr (), w2)"
      "ingest_jobs w2 = ingest_jobs w1" "pushes (trace w2) = pushes (trace w1) @
        [Redis (XAdd (redis_stream_name cfg) (ingest_entry L job_id (overall rs) (max_conf rs) [] pcap_name (max_lat rs) now) 10000)]"
    using push_run [of E, OF assms] by blast
  obtain w3 where w3: "write_audit_log E ''INGEST_COMPLETE'' job_id [] (overall rs) (max_conf rs)
      (details @ [(''images_extracted'', PInt (int (length images))), (''stego_count'', PInt (int (stego_count rs)))]) w2 = (Inr (), w3)"
      "ingest_jobs w3 = ingest_jobs w2" "pushes (trace w3) = pushes (trace w2)"
    using writer_runs(3) by (metis (full_types) old.unit.exhaust)
  have "completed_job w3 job_id (pcap_result message pcap_size images rs)"
    using w1 w2 w3 job_cong by metis
  with w1 w2 w3 show ?thesis
    by (intro exI [of _ now] exI [of _ w3]) (simp add: report_pcap_def seqp_def bindp_def)
qed

definition pcap_outcome :: "pylib \<Rightarrow> soc_cfg \<Rightarrow> string \<Rightarrow> string \<Rightarrow> string \<Rightarrow> exn + int \<times> string list \<times> image_report list
    \<Rightarrow> 'z soc_scheme \<Rightarrow> 'z soc_scheme \<Rightarrow> bool" where
  "pcap_outcome L cfg job_id pcap_name message analysis w w' \<longleftrightarrow>
     (case analysis of
        Inl e \<Rightarrow> failed_job w' job_id e \<and> pushes (trace w') = pushes (trace w)
      | Inr (pcap_size, images, rs) \<Rightarrow>
          completed_job w' job_id (pcap_result message pcap_size images rs)
          \<and> (\<exists>now. pushes (trace w') = pushes (trace w) @
               [Redis (XAdd (redis_stream_name cfg) (ingest_entry L job_id (overall rs) (max_conf rs) [] pcap_name (max_lat rs) now) 10000)])
          \<and> length rs = min (length images) (nat (max_images cfg))
          \<and> overall rs = (if list_ex (\<lambda>r. cr_predicted (ir_result r) = PStr ''STEGO'') rs then ''STEGO'' else ''CLEAN'')
          \<and> max_conf rs \<in> set (map (\<lambda>r. cr_confidence (ir_result r)) rs)
          \<and> list_all (\<lambda>r. cr_confidence (ir_result r) \<le> max_conf rs) rs)"

lemma pcap_report_run:
  assumes "clock_ok E" and "reports_ok cfg images rs"
  shows "\<exists>w'. report_pcap E L cfg job_id pcap_name message pcap_size images details rs w = (Inr (), w')
    \<and> pcap_outcome L cfg job_id pcap_name message (Inr (pcap_size, images, rs)) w w'"
proof -
  have "map (\<lambda>r. cr_confidence (ir_result r)) rs \<noteq> []" using assms(2) by (simp add: reports_ok_def)
  from py_max_is_max [OF this, of 0] overall_reports [of rs] assms(2)
    report_pcap_run [OF assms(1), of L cfg job_id pcap_name message pcap_size images details rs w]
  show ?thesis by (auto simp: pcap_outcome_def reports_ok_def max_conf_def list_all_iff)
qed

lemma pcap_outcome_cong:
  assumes "ingest_jobs w1' = ingest_jobs w1" and "pushes (trace w1') = pushes (trace w1)" and "pushes (trace w') = pushes (trace w)"
  shows "pcap_outcome L cfg job_id pcap_name message a w' w1' = pcap_outcome L cfg job_id pcap_name message a w w1"
  using assms job_cong [OF assms(1)] by (simp add: pcap_outcome_def split: sum.splits)

lemma pcap_job_run:
  assumes clock: "clock_ok E" and q: "quiet unlinks"
  shows "pcap_outcome L cfg job_id pcap_name message
      (fst (pcap_analysis E L cfg pcap_path key_path pcap_name no_images (snd (job_running E job_id w)))) w
      (snd (pcap_job E L cfg job_id pcap_path key_path pcap_name no_images message fail_details details unlinks w))"
proof -
  let ?job = "pcap_job E L cfg job_id pcap_path key_path pcap_name no_images message fail_details details unlinks w"
  let ?ana = "\<lambda>w. fst (pcap_analysis E L cfg pcap_path key_path pcap_name no_images w)"
  obtain w1 where w1: "job_running E job_id w = (Inr (), w1)" "pushes (trace w1) = pushes (trace w)"
    using job_running_run [OF clock] by blast
  obtain r w2 where w2: "extraction E cfg pcap_path key_path w1 = (r, w2)" by fastforce
  have q2: "pushes (trace w2) = pushes (trace w1)" using quietD [OF quiet_steps(3) w2] by simp
  have failed: "\<exists>w'. job_failed E job_id fail_details e w3 = (Inr (), w')
      \<and> pcap_outcome L cfg job_id pcap_name message (Inl e) w3 w'" for e w3
    using job_failed_run [OF clock, of job_id fail_details e w3] by (auto simp: pcap_outcome_def)
  show ?thesis
  proof (cases r)
    case (Inl e)
    obtain w3 where w3: "job_failed E job_id fail_details e w2 = (Inr (), w3)"
        "pcap_outcome L cfg job_id pcap_name message (Inl e) w2 w3" using failed by blast
    obtain x w4 where w4: "unlinks w3 = (x, w4)" by fastforce
    have "snd ?job = w4" "?ana w1 = Inl e"
      using w1 w2 Inl w3 w4
      by (simp_all add: pcap_job_def pcap_analysis_def seqp_def bindp_def catchp_def ret_def snd_finallyp)
    with w1 q2 w3(2) quietD [OF q w4] show ?thesis
      by (simp add: pcap_outcome_cong [where w' = w and w = w2, of w4 w3])
  next
    case (Inr y)
    obtain pcap_size dir images where y: "y = (pcap_size, dir, images)" by (cases y)
    let ?body = "catchp (if images = [] then raise (Exn RuntimeErr no_images)
        else bindp (mapp (analyze_extracted E L cfg pcap_name) (first_images cfg images))
          (report_pcap E L cfg job_id pcap_name message pcap_size images details)) (job_failed E job_id fail_details)"
    let ?fin = "seqp unlinks (whenp (dir \<noteq> []) (rmtree_quiet E dir))"
    have qf: "quiet ?fin" by (intro quiet_seqp quiet_whenp q quiet_steps)
    have "\<exists>w3. ?body w2 = (Inr (), w3) \<and> pcap_outcome L cfg job_id pcap_name message (?ana w1) w2 w3"
    proof (cases "images = []")
      case True
      with w2 Inr y failed [of "Exn RuntimeErr no_images" w2] show ?thesis
        by (auto simp: catchp_def raise_def pcap_analysis_def bindp_def)
    next
      case False
      obtain m w3 where w3: "mapp (analyze_extracted E L cfg pcap_name) (first_images cfg images) w2 = (m, w3)" by fastforce
      have q3: "pushes (trace w3) = pushes (trace w2)" using quietD [OF quiet_steps(4) w3] by simp
      show ?thesis
      proof (cases m)
        case e: (Inl e)
        with w2 Inr y False w3 q3 failed [of e w3] show ?thesis
          by (auto simp: catchp_def pcap_analysis_def bindp_def pcap_outcome_def)
      next
        case rs: (Inr rs)
        have ana: "pcap_analysis E L cfg pcap_path key_path pcap_name no_images w1 = (Inr (pcap_size, images, rs), w3)"
          using w2 Inr y False w3 rs by (simp add: pcap_analysis_def bindp_def ret_def)
        have "reports_ok cfg images rs"
          using okpD [OF okp_pcap_analysis, of E L cfg pcap_path key_path pcap_name no_images w1] ana by simp
        from pcap_report_run [OF clock this, of L job_id pcap_name message pcap_size details w3] w3 rs False q3 ana
        show ?thesis by (auto simp: catchp_def bindp_def pcap_outcome_def)
      qed
    qed
    then obtain w3 where w3: "?body w2 = (Inr (), w3)" "pcap_outcome L cfg job_id pcap_name message (?ana w1) w2 w3" by blast
    obtain x w4 where w4: "?fin w3 = (x, w4)" by fastforce
    have "snd ?job = w4"
      using w1 w2 Inr y w3 w4 by (simp add: pcap_job_def seqp_def bindp_def catchp_def ret_def snd_finallyp)
    with w1 q2 w3(2) quietD [OF qf w4] show ?thesis
      by (simp add: pcap_outcome_cong [where w' = w and w = w2, of w4 w3])
  qed
qed

text \<open>
C6: Outcome of the capture jobs. With a working clock, whatever the other services answer, a job for an
encrypted or a plain capture ends as the analysis of the capture ends: failed with its error and
nothing queued, or completed with the summary and exactly one event with the overall verdict and score
queued. The summary covers the first images up to the configured number (at least one); the capture is
\<^verbatim>\<open>STEGO\<close> exactly if the worker said so of one of them, and its score is the greatest of theirs.
\<close>

theorem pcap_jobs_outcome:
  assumes "clock_ok E"
  shows "\<exists>m1 m2. pcap_outcome L cfg job_id pcap_name ''PCAP decrypted and analyzed''
      (fst (pcap_analysis E L cfg pcap_path key_path pcap_name m1 (snd (job_running E job_id w)))) w
      (snd (run_pcap_job E L cfg job_id pcap_path key_path pcap_name key_name w))
    \<and> pcap_outcome L cfg job_id pcap_name ''PCAP extracted and analyzed''
      (fst (pcap_analysis E L cfg pcap_path [] pcap_name m2 (snd (job_running E job_id w)))) w
      (snd (run_pcap_plain_job E L cfg job_id pcap_path pcap_name w))"
  unfolding run_pcap_job_def run_pcap_plain_job_def
  by (intro exI conjI) (rule pcap_job_run [OF assms]; intro quiet_seqp quiet_steps)+

section \<open>What a job leaves behind\<close>

definition removals :: "hist \<Rightarrow> call list" where
  "removals h = map fst (filter (\<lambda>e. removal (fst e)) h)"

lemma removals_append [simp]: "removals (h @ h') = removals h @ removals h'"
  by (simp add: removals_def)

definition tidy :: "('z world_scheme, 'a) prog \<Rightarrow> call list \<Rightarrow> bool" where
  "tidy m cs \<longleftrightarrow> (\<forall>w. removals (trace (snd (m w))) = removals (trace w) @ cs)"

lemma tidyD: "tidy m cs \<Longrightarrow> m w = (r, w') \<Longrightarrow> removals (trace w') = removals (trace w) @ cs"
  unfolding tidy_def by (metis snd_conv)

lemma emits_tidy: "emits (\<lambda>e. \<not> removal (fst e)) m \<Longrightarrow> tidy m []"
proof -
  have "list_all (\<lambda>e. \<not> removal (fst e)) es \<Longrightarrow> removals es = []" for es
    by (auto simp: removals_def list_all_iff filter_empty_conv)
  then show "emits (\<lambda>e. \<not> removal (fst e)) m \<Longrightarrow> tidy m []"
    unfolding emits_def tidy_def by (metis append_Nil2 removals_append)
qed

lemma calm_tidy: "emits calm m \<Longrightarrow> tidy m []"
  by (rule emits_tidy, erule emits_mono) (simp add: calm_def)

lemma emits_job_set: "(\<And>r. P (Clock, r)) \<Longrightarrow> emits P (job_set E job_id upd)"
  unfolding job_set_def by (intro emits_intros) auto

lemma emits_push: "emits (\<lambda>e. \<not> removal (fst e)) (push_event_to_redis_stream E L cfg job_id verdict score sha name lat)"
  unfolding push_event_to_redis_stream_def by (intro emits_intros) auto

lemma emits_job_steps:
  "emits (\<lambda>e. \<not> removal (fst e)) (job_running E job_id)"
  "emits (\<lambda>e. \<not> removal (fst e)) (job_failed E job_id details e)"
  "emits (\<lambda>e. \<not> removal (fst e)) (report_pcap E L cfg job_id pcap_name message pcap_size images details rs)"
  unfolding job_running_def job_failed_def report_pcap_def job_completed_def
  by (intro emits_intros emits_job_set emits_push emits_mono [OF emits_writers(3)]; simp add: calm_def)+

text \<open>A file that is gone is the only reason for which a removal fails.\<close>

definition removal_ok :: "env \<Rightarrow> bool" where
  "removal_ok E \<longleftrightarrow> (\<forall>h p e. E h (Fs (FsRemove p)) = Inl e \<longrightarrow> exn_cls e = FileNotFound)"

lemma unlink_tidy: "removal_ok E \<Longrightarrow> \<exists>w'. unlink E p w = (Inr (), w') \<and> removals (trace w') = removals (trace w) @ [Fs (FsRemove p)]"
  by (auto simp: unlink_def catchif_def catchp_def do_call_def bindp_def call_def ret_def Let_def removals_def removal_ok_def
      split: sum.split)

lemma rmtree_tidy: "tidy (rmtree_quiet E dir) [Fs (FsRmTree dir)]"
  by (auto simp: tidy_def rmtree_quiet_def catchp_def do_call_def bindp_def call_def ret_def Let_def removals_def split: sum.split)

definition extracted_dir :: "exn + int \<times> string \<times> string list \<Rightarrow> call list" where
  "extracted_dir r = (case r of Inl e \<Rightarrow> [] | Inr (n, dir, images) \<Rightarrow> if dir = [] then [] else [Fs (FsRmTree dir)])"

lemma pcap_job_tidy:
  assumes clock: "clock_ok E" and u: "\<And>w. \<exists>w'. unlinks w = (Inr (), w') \<and> removals (trace w') = removals (trace w) @ us"
  shows "removals (trace (snd (pcap_job E L cfg job_id pcap_path key_path pcap_name no_images message fail_details details unlinks w)))
    = removals (trace w) @ us @ extracted_dir (fst (extraction E cfg pcap_path key_path (snd (job_running E job_id w))))"
proof -
  note t = emits_job_steps [THEN emits_tidy] calm_tidy [OF emits_extraction]
  obtain w1 where w1: "job_running E job_id w = (Inr (), w1)" using job_running_run [OF clock] by blast
  obtain r w2 where w2: "extraction E cfg pcap_path key_path w1 = (r, w2)" by fastforce
  have q: "removals (trace w2) = removals (trace w)" using tidyD [OF t(1) w1] tidyD [OF t(4) w2] by simp
  show ?thesis
  proof (cases r)
    case (Inl e)
    obtain x w3 where w3: "job_failed E job_id fail_details e w2 = (x, w3)" by fastforce
    obtain w4 where w4: "unlinks w3 = (Inr (), w4)" "removals (trace w4) = removals (trace w3) @ us" using u by blast
    show ?thesis
      using w1 w2 Inl w3 w4 q tidyD [OF t(2) w3]
      by (simp add: pcap_job_def seqp_def bindp_def catchp_def ret_def snd_finallyp extracted_dir_def)
  next
    case (Inr y)
    obtain pcap_size dir images where y: "y = (pcap_size, dir, images)" by (cases y)
    let ?body = "catchp (if images = [] then raise (Exn RuntimeErr no_images)
        else bindp (mapp (analyze_extracted E L cfg pcap_name) (first_images cfg images))
          (report_pcap E L cfg job_id pcap_name message pcap_size images details)) (job_failed E job_id fail_details)"
    have "emits (\<lambda>e. \<not> removal (fst e)) ?body"
      by (intro emits_intros emits_job_steps emits_mono [OF emits_analyze_extracted]) (simp add: calm_def)
    from emits_tidy [OF this] have tb: "tidy ?body []" .
    obtain x w3 where w3: "?body w2 = (x, w3)" by fastforce
    obtain w4 where w4: "unlinks w3 = (Inr (), w4)" "removals (trace w4) = removals (trace w3) @ us" using u by blast
    have "removals (trace (snd (whenp (dir \<noteq> []) (rmtree_quiet E dir) w4))) = removals (trace w4) @ extracted_dir r"
      using Inr y by (simp add: whenp_def ret_def extracted_dir_def rmtree_tidy [unfolded tidy_def, rule_format])
    with w1 w2 Inr y w3 w4 q tidyD [OF tb w3] show ?thesis
      by (simp add: pcap_job_def seqp_def bindp_def catchp_def ret_def snd_finallyp)
  qed
qed

text \<open>
What a capture job removes. If the only reason for a removal to fail is that the file is gone, a
job removes the capture (and the key log) and then the directory of the extracted files, provided
that the extraction returned; if the extraction raises, for example because tshark ran out of
time, the directory it had made stays.
\<close>

theorem pcap_jobs_cleanup:
  assumes "clock_ok E" and "removal_ok E"
  shows "removals (trace (snd (run_pcap_job E L cfg job_id pcap_path key_path pcap_name key_name w)))
      = removals (trace w) @ [Fs (FsRemove pcap_path), Fs (FsRemove key_path)]
        @ extracted_dir (fst (extraction E cfg pcap_path key_path (snd (job_running E job_id w))))
    \<and> removals (trace (snd (run_pcap_plain_job E L cfg job_id pcap_path pcap_name w)))
      = removals (trace w) @ [Fs (FsRemove pcap_path)]
        @ extracted_dir (fst (extraction E cfg pcap_path [] (snd (job_running E job_id w))))"
proof
  have two: "\<exists>w'. seqp (unlink E pcap_path) (unlink E key_path) w = (Inr (), w')
      \<and> removals (trace w') = removals (trace w) @ [Fs (FsRemove pcap_path), Fs (FsRemove key_path)]" for w :: "'a soc_scheme"
  proof -
    obtain w1 where w1: "unlink E pcap_path w = (Inr (), w1)" "removals (trace w1) = removals (trace w) @ [Fs (FsRemove pcap_path)]"
      using unlink_tidy [OF assms(2)] by blast
    obtain w2 where "unlink E key_path w1 = (Inr (), w2)" "removals (trace w2) = removals (trace w1) @ [Fs (FsRemove key_path)]"
      using unlink_tidy [OF assms(2)] by blast
    with w1 show ?thesis by (simp add: seqp_def bindp_def)
  qed
  show "removals (trace (snd (run_pcap_job E L cfg job_id pcap_path key_path pcap_name key_name w)))
      = removals (trace w) @ [Fs (FsRemove pcap_path), Fs (FsRemove key_path)]
        @ extracted_dir (fst (extraction E cfg pcap_path key_path (snd (job_running E job_id w))))"
    unfolding run_pcap_job_def using pcap_job_tidy [OF assms(1) two] by simp
  show "removals (trace (snd (run_pcap_plain_job E L cfg job_id pcap_path pcap_name w)))
      = removals (trace w) @ [Fs (FsRemove pcap_path)]
        @ extracted_dir (fst (extraction E cfg pcap_path [] (snd (job_running E job_id w))))"
    unfolding run_pcap_plain_job_def using pcap_job_tidy [OF assms(1) unlink_tidy [OF assms(2)]] by simp
qed

section \<open>Witnesses\<close>

text \<open>An environment in which everything works; \<open>tshark\<close> is the reply to its run.\<close>

definition soc_env :: "reply \<Rightarrow> env" where
  "soc_env tshark h c = (case c of
       Clock \<Rightarrow> Inr (PFloat 5)
     | UuidHex \<Rightarrow> Inr (PStr ''0123456789abcdef'')
     | Fs (FsRead p) \<Rightarrow> Inr (PBytes [1, 2])
     | Fs (FsSize p) \<Rightarrow> Inr (PInt 7)
     | Fs (FsMkDTemp d) \<Rightarrow> Inr (PStr ''/tmp/x'')
     | Fs (FsWalk d) \<Rightarrow> Inr (PList [PStr ''a.jpg'', PStr ''b.png''])
     | Tool (Which p) \<Rightarrow> Inr (PStr p)
     | Tool (RunProc args inp t) \<Rightarrow> tshark
     | Tool (JsonDumps v) \<Rightarrow> Inr (PStr ''{}'')
     | Tool (JsonLoads t) \<Rightarrow> Inr (PDict [(''predicted_label'', PStr ''STEGO''), (''confidence'', PFloat (9/10)), (''latency_ms'', PInt 120)])
     | Docker (DkGet n) \<Rightarrow> Inr (PStr ''c'')
     | Docker (DkPutArchive c' d n b) \<Rightarrow> Inr (PBool True)
     | Docker (DkExec c' args) \<Rightarrow> Inr (PList [PInt 0, PStr ''{}'', PStr []])
     | _ \<Rightarrow> Inr PNone)"

definition sample_soc :: soc_cfg where
  "sample_soc = \<lparr>docker_sdk = True, pg_at = (''pg'', 5432), redis_at = (''redis'', 6379), minio_endpoint = ''minio:9000'',
     soc_temp_dir = ''/tmp'', soc_api_log_file = ''soc.log'', proxy_log_file = ''proxy.log'', ingest_ephemeral = False,
     ingest_mitm_container = ''stegnar-mitm'', ingest_mitm_image = [], ingest_network = [], calpa_model_path = ''m'',
     calpa_cfg_path = ''c'', calpa_libs_path = ''l'', pcap_plain_max_images = 1, mitm_grpc_at = (''mitm'', 50052),
     routing_grpc_at = (''routing'', 50051), redis_stream_name = ''stegnar:db_queue''\<rparr>"

definition idle_soc :: soc where
  "idle_soc = \<lparr>trace = [], ingest_jobs = [], settings_state = default_settings\<rparr>"

definition sample_result :: calpa_result where
  "sample_result = \<lparr>cr_predicted = PStr ''STEGO'', cr_confidence = 9/10, cr_latency = 120, cr_classification = ''STEGO'',
     cr_worker_mode = ''exec'', cr_model_type = PStr ''calpa_srnet_pruned''\<rparr>"

lemma soc_env_ok: "clock_ok (soc_env r)" "removal_ok (soc_env r)"
  by (simp_all add: clock_ok_def removal_ok_def soc_env_def)

lemma soc_env_calpa: "fst (run_calpa_for_image (soc_env r) ref_lib sample_soc path name w) = Inr (sample_result, ''{}'', [])"
proof -
  have s: "strip ''{}'' = ''{}''" "strip [] = []" by code_simp+
  show ?thesis
    by (simp add: run_calpa_for_image_def run_exec_def sdk_container_def exec_worker_def put_archive_bytes_def run_defs
      soc_env_def as_process_def sample_soc_def s parsed_result_def py_get_def dict_get_def to_float_def sample_result_def)
qed

theorem image_job_outcome_witness:
  "completed_job (snd (run_image_job (soc_env (Inr PNone)) ref_lib sample_soc ''j'' ''a.jpg'' ''a.jpg'' idle_soc)) ''j''
     (PDict (result_fields sample_result))"
  using image_job_outcome [OF soc_env_ok(1), of "Inr PNone" ref_lib "''a.jpg''" "''j''" idle_soc sample_soc "''a.jpg''"]
  by (auto simp: image_outcome_def soc_env_calpa)

lemma soc_env_timeout:
  fixes w :: "'z world_scheme"
  shows "extraction (soc_env (Inl (Exn SubprocessTimeout ''90 s''))) sample_soc ''p'' [] w = (Inl (Exn SubprocessTimeout ''90 s''),
      w\<lparr>trace := trace w @ [(Fs (FsSize ''p''), Inr (PInt 7)), (Tool (Which ''tshark''), Inr (PStr ''tshark'')),
        (Fs (FsMkDTemp ''/tmp''), Inr (PStr ''/tmp/x'')),
        (Tool (RunProc (tshark_export ''p'' [] False ''/tmp/x'') [] 90), Inl (Exn SubprocessTimeout ''90 s''))]\<rparr>)"
  by (simp add: extraction_def extract_images_from_pcap_def run_defs soc_env_def sample_soc_def)

theorem pcap_jobs_cleanup_witness:
  "removals (trace (snd (run_pcap_plain_job (soc_env (Inl (Exn SubprocessTimeout ''90 s''))) ref_lib sample_soc ''j'' ''p'' ''p.pcap'' idle_soc)))
     = [Fs (FsRemove ''p'')]
   \<and> (Fs (FsMkDTemp ''/tmp''), Inr (PStr ''/tmp/x''))
       \<in> set (trace (snd (extraction (soc_env (Inl (Exn SubprocessTimeout ''90 s''))) sample_soc ''p'' [] idle_soc)))"
proof -
  have "removals (trace idle_soc) = []" by (simp add: removals_def idle_soc_def)
  with pcap_jobs_cleanup [OF soc_env_ok, of "Inl (Exn SubprocessTimeout ''90 s'')" ref_lib sample_soc "''j''" "''p''" "[]" "''p.pcap''" "[]" idle_soc]
  show ?thesis by (simp add: soc_env_timeout extracted_dir_def)
qed

lemma soc_env_extraction:
  "fst (extraction (soc_env (Inr PNone)) sample_soc ''p'' [] w) = Inr (7, ''/tmp/x'', [''a.jpg'', ''b.png''])"
proof -
  have sfx: "lower (path_suffix ''a.jpg'') = ''.jpg''" "lower (path_suffix ''b.png'') = ''.png''" by code_simp+
  show ?thesis
    by (simp add: extraction_def extract_images_from_pcap_def run_defs soc_env_def sample_soc_def as_strs_def sfx image_suffixes_def)
qed

lemma soc_env_file_sha256: "fst (file_sha256 (soc_env r) ref_lib path w) = Inr [CHR 0x01, CHR 0x02]"
  by (simp add: file_sha256_def run_defs soc_env_def ref_lib_def) code_simp

lemma fst_bindp: "fst (bindp m f w) = (case fst (m w) of Inl e \<Rightarrow> Inl e | Inr x \<Rightarrow> fst (f x (snd (m w))))"
  by (auto simp: bindp_def split: prod.splits sum.splits)

lemma fst_unit: "no_raise m \<Longrightarrow> fst (m w) = Inr ()"
  unfolding no_raise_def by (metis (full_types) old.unit.exhaust)

definition sample_report :: image_report where
  "sample_report = \<lparr>ir_image = ''a.jpg'', ir_sha256 = [CHR 0x01, CHR 0x02], ir_stdout = ''{}'', ir_stderr = [], ir_result = sample_result\<rparr>"

lemma soc_env_analysis:
  "fst (pcap_analysis (soc_env (Inr PNone)) ref_lib sample_soc ''p'' [] ''p.pcap'' m w) = Inr (7, [''a.jpg'', ''b.png''], [sample_report])"
proof -
  have f: "first_images sample_soc [''a.jpg'', ''b.png''] = [(0, ''a.jpg'')]" by code_simp
  have n: "path_name ''a.jpg'' = ''a.jpg''" by code_simp
  note w = fst_unit [OF no_raise_services(1)] fst_unit [OF no_raise_services(2)]
  show ?thesis
    by (simp add: pcap_analysis_def fst_bindp soc_env_extraction f analyze_extracted_def seqp_def whenp_def w soc_env_calpa
        soc_env_file_sha256 n sample_report_def ret_def)
qed

theorem pcap_jobs_outcome_witness:
  "completed_job (snd (run_pcap_plain_job (soc_env (Inr PNone)) ref_lib sample_soc ''j'' ''p'' ''p.pcap'' idle_soc)) ''j''
     (pcap_result ''PCAP extracted and analyzed'' 7 [''a.jpg'', ''b.png''] [sample_report])"
  using pcap_jobs_outcome [OF soc_env_ok(1), of ref_lib sample_soc "''j''" "''p.pcap''" "Inr PNone" "''p''" "[]" idle_soc "[]"]
  by (auto simp: pcap_outcome_def soc_env_analysis)

section \<open>Containers\<close>

text \<open>
  The containers that were created: each is used and then removed, as the last step.
\<close>

fun created :: "event \<Rightarrow> bool" where
  "created (Docker (DkCreate im nm net), Inr (PStr c)) = True"
| "created _ = False"

definition container_protocol :: "hist \<Rightarrow> bool" where
  "container_protocol es \<longleftrightarrow>
     list_all (\<lambda>e. \<not> created e) es
   \<or> (\<exists>pre im nm net c mid x. es = pre @ [(Docker (DkCreate im nm net), Inr (PStr c))] @ mid @ [(Docker (DkRemove c), x)]
        \<and> list_all (\<lambda>e. \<not> created e) (pre @ mid))"

lemma emits_uncreated:
  "emits (\<lambda>e. \<not> created e) (resolve_mitm_image E cfg)" "emits (\<lambda>e. \<not> created e) (resolve_ingest_network E cfg)"
  "emits (\<lambda>e. \<not> created e) (exec_worker E c local_path suffix payload)"
  unfolding soc_service_defs by (intro emits_intros; simp)+

lemma uncreated_call:
  "\<nexists>im nm net. c = Docker (DkCreate im nm net) \<Longrightarrow> emits (\<lambda>e. \<not> created e) (call_as t E c)"
  "\<nexists>im nm net. c = Docker (DkCreate im nm net) \<Longrightarrow> emits (\<lambda>e. \<not> created e) (do_call E c)"
  by (intro emits_intros; auto elim!: created.elims)+

lemma remove_container_run:
  "\<exists>x. catchp (do_call E (Docker (DkRemove c))) (\<lambda>_. ret ()) w = (Inr (), w\<lparr>trace := trace w @ [(Docker (DkRemove c), x)]\<rparr>)"
  by (auto simp: catchp_def do_call_def bindp_def call_def ret_def Let_def split: sum.split)

lemma uncreated_step:
  fixes s1 :: "'z world_scheme"
  assumes "emits (\<lambda>e. \<not> created e) m" and "trace s1 = h @ es" and "list_all (\<lambda>e. \<not> created e) es"
    and rest: "\<And>x (s' :: 'z world_scheme) es'. trace s' = h @ es' \<Longrightarrow> list_all (\<lambda>e. \<not> created e) es'
      \<Longrightarrow> wp (f x) (\<lambda>r s'. \<exists>es. trace s' = h @ es \<and> container_protocol es) s'"
  shows "wp (bindp m f) (\<lambda>r s'. \<exists>es. trace s' = h @ es \<and> container_protocol es) s1"
proof (rule wp_bind_emits [OF assms(1-3)])
  fix e and s' :: "'z world_scheme" and es'
  assume "trace s' = h @ es'" "list_all (\<lambda>e. \<not> created e) es'"
  then show "\<exists>es. trace s' = h @ es \<and> container_protocol es" by (auto simp: container_protocol_def)
qed (rule rest)

text \<open>
C12: No container is left over. Whatever Docker, the file system and the worker do, an analysis in a
container of its own either creates no container, or it creates one and the attempt to remove it is
the last thing it does.
\<close>

theorem ephemeral_container_removed:
  "container_protocol (new_events (run_ephemeral E cfg local_path suffix payload) w)"
proof -
  let ?Q = "\<lambda>(r :: exn + int \<times> string \<times> string) (s' :: 'a world_scheme). \<exists>es. trace s' = trace w @ es \<and> container_protocol es"
  have none: "list_all (\<lambda>e. \<not> created e) es \<Longrightarrow> container_protocol es" for es by (simp add: container_protocol_def)
  have body: "wp (finallyp (seqp (do_call E (Docker (DkStart c))) (exec_worker E c local_path suffix payload))
        (catchp (do_call E (Docker (DkRemove c))) (\<lambda>_. ret ()))) ?Q s1"
    if tr: "trace s1 = trace w @ pre @ [(Docker (DkCreate im nm net), Inr (PStr c))]" "list_all (\<lambda>e. \<not> created e) pre"
    for c pre im nm net and s1 :: "'a world_scheme"
  proof -
    have "emits (\<lambda>e. \<not> created e) (seqp (do_call E (Docker (DkStart c))) (exec_worker E c local_path suffix payload))"
      by (intro emits_intros emits_uncreated) simp
    then show ?thesis
      unfolding wp_finallyp
    proof (rule wp_emitsI)
      fix r and s2 :: "'a world_scheme" and mid
      assume mid: "trace s2 = trace s1 @ mid" "list_all (\<lambda>e. \<not> created e) mid"
      obtain x where x: "catchp (do_call E (Docker (DkRemove c))) (\<lambda>_. ret ()) s2
          = (Inr (), s2\<lparr>trace := trace s2 @ [(Docker (DkRemove c), x)]\<rparr>)"
        using remove_container_run by blast
      have "container_protocol (pre @ [(Docker (DkCreate im nm net), Inr (PStr c))] @ mid @ [(Docker (DkRemove c), x)])"
        unfolding container_protocol_def by (intro disjI2 exI conjI, rule refl) (simp add: tr(2) mid(2))
      with x tr mid show "wp (catchp (do_call E (Docker (DkRemove c))) (\<lambda>_. ret ()))
          (\<lambda>r2 s''. case r2 of Inl e \<Rightarrow> ?Q (Inl e) s'' | Inr _ \<Rightarrow> ?Q r s'') s2"
        by (simp add: wp_def)
    qed
  qed
  have create: "wp (bindp (call_as as_str E (Docker (DkCreate im nm net))) (\<lambda>c.
        finallyp (seqp (do_call E (Docker (DkStart c))) (exec_worker E c local_path suffix payload))
          (catchp (do_call E (Docker (DkRemove c))) (\<lambda>_. ret ())))) ?Q s1"
    if tr: "trace s1 = trace w @ pre" "list_all (\<lambda>e. \<not> created e) pre" for pre im nm net and s1 :: "'a world_scheme"
  proof -
    have "\<nexists>c. r = Inr (PStr c) \<Longrightarrow> container_protocol (pre @ [(Docker (DkCreate im nm net), r)])" for r
      using tr(2) by (intro none) (auto elim!: created.elims)
    with body [OF _ tr(2)] tr(1) show ?thesis
      by (auto simp: wp_bindp wp_call_as Let_def as_str_def split: sum.split pyval.split)
  qed
  have "wp (run_ephemeral E cfg local_path suffix payload) ?Q w"
    unfolding run_ephemeral_def seqp_def
    by (rule uncreated_step [where es = "[]"], rule uncreated_call, simp, simp, simp,
        (rule uncreated_step, rule emits_uncreated, assumption, assumption)+,
        rule uncreated_step, rule uncreated_call, simp, assumption, assumption, rule create [unfolded seqp_def])
  then show ?thesis by (auto simp: wp_def new_events_def)
qed

end
