(* ===== verification/SocRoutes.thy ===== *)
theory SocRoutes
  imports SocApi SocJobs
begin

text \<open>
  Properties of the API of the SOC: which SQL a request can send, which requests always get an
  answer, and what a request may do to the tables of the process. Uploads that become jobs are in
  \<open>SocLife\<close>, settings and live events in \<open>SocLive\<close>.
\<close>

section \<open>The SQL of a request\<close>

text \<open>The number of places for parameters in a statement.\<close>

fun placeholders :: "string \<Rightarrow> nat" where
  "placeholders [] = 0"
| "placeholders [c] = 0"
| "placeholders (c # d # cs) =
     (if c = CHR ''%'' \<and> d = CHR ''s'' then Suc (placeholders cs) else placeholders (d # cs))"

text \<open>All statements of the handlers with fixed text, with the number of their parameters.\<close>

definition soc_statements :: "(string \<times> nat) list" where
  "soc_statements =
     [(sql_tables, 0), (sql_endpoints, 0), (sql_endpoints_fallback, 0), (sql_ledger, 0), (sql_audit_events, 1),
      (sql_count_events, 0), (sql_mitm_metrics, 0), (sql_avg_latency, 0), (sql_minutes, 0), (sql_heartbeat, 2)]
     @ map (\<lambda>f. (sql_max (snd f) (fst f), 0)) [(''network_events'', ''ts''), (''hash_cache'', ''analyzed_at''),
         (''endpoint_registry'', ''last_activity''), (''system_audit_log'', ''ts'')]
     @ map (\<lambda>f. (sql_table_rows (fst f) (snd f), 1)) row_tables
     @ [(fst (images_query v h), length (snd (images_query v h))). v \<leftarrow> [[], ''x''], h \<leftarrow> [[], ''x'']]
     @ [(fst (logs_query v h), length (snd (logs_query v h))). v \<leftarrow> [[], ''x''], h \<leftarrow> [[], ''x'']]"

definition sql_event :: "(string \<Rightarrow> pyval list \<Rightarrow> bool) \<Rightarrow> event \<Rightarrow> bool" where
  "sql_event P e \<longleftrightarrow> (case fst e of Pg (PgExecute q ps) \<Rightarrow> P q ps | _ \<Rightarrow> True)"

definition known_sql :: "string \<Rightarrow> pyval list \<Rightarrow> bool" where
  "known_sql q ps \<longleftrightarrow> (q, length ps) \<in> set soc_statements"

definition count_sql :: "string \<Rightarrow> pyval list \<Rightarrow> bool" where
  "count_sql q ps \<longleftrightarrow> ps = [] \<and> (\<exists>name. q = sql_count name)"

lemma sql_event_other [simp]:
  "\<nexists>q ps. c = Pg (PgExecute q ps) \<Longrightarrow> sql_event P (c, r)"
  by (auto simp: sql_event_def split: call.split pg_cmd.split)

lemma sql_event_execute [simp]: "sql_event P (Pg (PgExecute q ps), r) = P q ps"
  by (simp add: sql_event_def)

lemma known_fixed:
  "known_sql sql_tables []" "known_sql sql_endpoints []" "known_sql sql_endpoints_fallback []" "known_sql sql_ledger []"
  "known_sql sql_audit_events [p]" "known_sql sql_count_events []" "known_sql sql_mitm_metrics []"
  "known_sql sql_avg_latency []" "known_sql sql_minutes []" "known_sql sql_heartbeat [p, q]"
  by (simp_all add: known_sql_def soc_statements_def)

lemma known_max: "max_col name = Some col \<Longrightarrow> known_sql (sql_max col name) []"
  unfolding max_col_def known_sql_def soc_statements_def by (drule map_of_SomeD) auto

lemma known_rows: "map_of row_tables name = Some col \<Longrightarrow> known_sql (sql_table_rows name col) [p]"
proof -
  assume "map_of row_tables name = Some col"
  then have "(sql_table_rows name col, Suc 0) \<in> (\<lambda>f. (sql_table_rows (fst f) (snd f), Suc 0)) ` set row_tables"
    by (force dest: map_of_SomeD)
  then show ?thesis by (simp add: known_sql_def soc_statements_def)
qed

text \<open>The text of a query depends only on which of its filters are used.\<close>

lemma images_query_shape:
  "known_sql (fst (images_query verdict hash_search)) (snd (images_query verdict hash_search))"
proof -
  let ?v = "if verdict \<noteq> [] \<and> verdict \<notin> set [''all'', []] then ''x'' else []"
    and ?h = "if hash_search \<noteq> [] then ''x'' else []"
  have "fst (images_query verdict hash_search) = fst (images_query ?v ?h)"
    "length (snd (images_query verdict hash_search)) = length (snd (images_query ?v ?h))"
    by (simp_all add: images_query_def Let_def)
  then show ?thesis by (auto simp: known_sql_def soc_statements_def)
qed

lemma logs_query_shape: "known_sql (fst (logs_query endpoint search)) (snd (logs_query endpoint search))"
proof -
  let ?v = "if endpoint \<noteq> [] \<and> endpoint \<notin> set [''all'', []] then ''x'' else []"
    and ?h = "if search \<noteq> [] then ''x'' else []"
  have "fst (logs_query endpoint search) = fst (logs_query ?v ?h)"
    "length (snd (logs_query endpoint search)) = length (snd (logs_query ?v ?h))"
    by (simp_all add: logs_query_def Let_def)
  then show ?thesis by (auto simp: known_sql_def soc_statements_def)
qed

lemmas query_parts = fetch_rows_def fetch_one_def rows_or_def pg_guard_def quiet_close_def dict_rows_def

text \<open>The services send no SQL.\<close>

lemma sql_free_docker:
  "emits (sql_event P) (docker_available E cfg)" "emits (sql_event P) (run_docker_command E cfg cmd t)"
  "emits (sql_event P) (docker_get_container E cfg name)" "emits (sql_event P) (tail_file E path n)"
  "emits (sql_event P) (resolve_ingest_network E cfg)" "emits (sql_event P) (docker_version_info E cfg)"
  "emits (sql_event P) (docker_networks E cfg)" "emits (sql_event P) (is_port_open E addr)"
  "emits (sql_event P) (tail_logs_from_container_or_file E cfg name path n)"
  unfolding soc_service_defs docker_get_container_def docker_version_info_def docker_networks_def docker_logs_cli_def
    is_port_open_def tail_logs_from_container_or_file_def
  by (intro emits_intros; simp)+

lemma sql_free_logs:
  "emits (sql_event P) (container_state E cfg name)" "emits (sql_event P) (recent_logs E cfg name)"
  "emits (sql_event P) (docker_logs_cli E cfg name n t)" "emits (sql_event P) (sdk_logs E c n)"
  unfolding container_state_def recent_logs_def docker_logs_cli_def sdk_logs_def
  by (intro emits_intros sql_free_docker; simp)+

lemma sql_known_reads:
  "emits (sql_event known_sql) (db_rows E L rq name)" "emits (sql_event known_sql) (images E L rq)"
  "emits (sql_event known_sql) (logs E rq)" "emits (sql_event known_sql) (endpoints E)"
  "emits (sql_event known_sql) (ledger_events E)" "emits (sql_event known_sql) (audit_events E rq)"
  "emits (sql_event known_sql) (ledger_integrity E)"
  unfolding db_rows_def images_def logs_def endpoints_def ledger_events_def audit_events_def audit_row_def
    ledger_integrity_def query_parts case_prod_beta Let_def
  by (intro emits_intros; simp add: known_fixed known_rows images_query_shape logs_query_shape
      split: option.split pyval.split; (intro conjI allI impI emits_intros; simp)?)+

lemma sql_known_metrics:
  "emits (sql_event known_sql) (mitm_metrics E L cfg)" "emits (sql_event known_sql) (latency_metrics E L)"
  "emits (sql_event known_sql) (pipeline_metrics E)" "emits (sql_event known_sql) (agent_heartbeat E rq)"
  unfolding mitm_metrics_def telemetry_def latency_metrics_def pipeline_metrics_def stream_state_def db_event_count_def
    agent_heartbeat_def query_parts Let_def
  by (intro emits_intros sql_free_logs; simp add: known_fixed)+

lemma sql_free_reads:
  "emits (sql_event P) (health E cfg)" "emits (sql_event P) (admin_diagnostics E cfg)"
  "emits (sql_event P) (redis_stats E cfg)" "emits (sql_event P) (redis_keys E cfg)"
  "emits (sql_event P) (storage_buckets E L cfg)" "emits (sql_event P) (proxy_logs E cfg)"
  "emits (sql_event P) (mitm_logs E cfg)" "emits (sql_event P) (proxy_metrics E cfg)"
  "emits (sql_event P) container_log_services" "emits (sql_event P) (container_logs E L cfg rq)"
  unfolding health_def admin_diagnostics_def redis_stats_def redis_keys_def key_info_def storage_buckets_def
    bucket_info_def proxy_logs_def mitm_logs_def proxy_metrics_def container_log_services_def container_logs_def Let_def
  by (intro emits_intros sql_free_docker sql_free_logs; simp)+

lemma sql_free_state:
  "emits (sql_event P) settings_get" "emits (sql_event P) (settings_post E L rq)"
  "emits (sql_event P) (ingest_image E cfg rq)" "emits (sql_event P) (ingest_pcap E cfg rq)"
  "emits (sql_event P) (ingest_pcap_plain E cfg rq)" "emits (sql_event P) (ingest_jobs_list rq)"
  "emits (sql_event P) (ingest_job job_id)"
  unfolding settings_get_def settings_post_def set_setting_def save_settings_def ingest_image_def ingest_pcap_def
    ingest_pcap_plain_def save_upload_def start_image_job_def start_pcap_job_def start_pcap_plain_job_def new_job_id_def
    ingest_jobs_list_def ingest_job_def Let_def
  by (intro emits_intros emits_job_set; simp)+

lemma sql_db_tables: "emits (sql_event (\<lambda>q ps. known_sql q ps \<or> count_sql q ps)) (db_tables E L)"
  unfolding db_tables_def table_info_def query_parts
  by (intro emits_intros; auto simp: known_fixed known_max count_sql_def)

definition route_sql :: "route \<Rightarrow> string \<Rightarrow> pyval list \<Rightarrow> bool" where
  "route_sql r q ps \<longleftrightarrow> known_sql q ps \<or> r = DbTables \<and> count_sql q ps"

lemma route_sql_simps [simp]:
  "r \<noteq> DbTables \<Longrightarrow> route_sql r = known_sql" "route_sql DbTables = (\<lambda>q ps. known_sql q ps \<or> count_sql q ps)"
  by (auto simp: route_sql_def fun_eq_iff)

lemma emits_answered: "emits P m \<Longrightarrow> emits P (answered m)"
  unfolding answered_def by (intro emits_intros)

lemma sql_handle: "emits (sql_event (route_sql r)) (handle E L cfg r rq)"
  by (cases r; simp add: emits_answered sql_known_reads sql_known_metrics sql_free_reads sql_free_state sql_db_tables)

text \<open>
C40: No SQL is made from a request. Whatever a request contains, each statement its handler sends is one of
a fixed list of texts, with as many parameters as the text has places; the values of the request are only
ever parameters. The one exception counts the rows of the tables the database itself names.
\<close>

theorem request_sql_is_fixed:
  "list_all (sql_event (route_sql r)) (new_events (handle E L cfg r rq) w)
    \<and> list_all (\<lambda>(q, n). placeholders q = n) soc_statements"
proof
  show "list_all (sql_event (route_sql r)) (new_events (handle E L cfg r rq) w)"
    using emits_new_events [OF sql_handle] by (auto simp: list_all_iff)
  show "list_all (\<lambda>(q, n). placeholders q = n) soc_statements" by code_simp
qed

section \<open>Requests that always get an answer\<close>

text \<open>The rows of a dictionary cursor are dictionaries.\<close>

definition rows_ok :: "env \<Rightarrow> bool" where
  "rows_ok E \<longleftrightarrow> (\<forall>h v. E h (Pg PgFetchAll) = Inr v \<longrightarrow> (\<exists>ds. v = PList (map PDict ds)))"

lemma collect_dicts: "collect as_dict (map PDict ds) = Inr ds"
  by (induction ds) (simp_all add: as_dict_def)

definition dict_list :: "pyval list \<Rightarrow> bool" where
  "dict_list rows \<longleftrightarrow> (\<exists>ds. rows = map PDict ds)"

definition answer_ok :: "answer \<Rightarrow> bool" where
  "answer_ok a \<longleftrightarrow> snd a \<in> {200, 404, 500}"

lemma answer_ok_simps [simp]:
  "answer_ok (ok v)" "answer_ok no_stats" "answer_ok unavailable" "answer_ok (integrity b n t)"
  "answer_ok (latency_answer x rows)" "answer_ok (v, 404)" "answer_ok (v, 500)"
  by (simp_all add: answer_ok_def ok_def no_stats_def unavailable_def integrity_def latency_answer_def)

lemma dict_rows_runs: "dict_list rows \<Longrightarrow> \<exists>v. dict_rows f rows s = (Inr (ok v), s)"
  by (auto simp: dict_list_def dict_rows_def bindp_def lift_sum_def collect_dicts ret_def)

lemma wp_fetch_rows:
  assumes "rows_ok E"
  shows "wp (fetch_rows E sql ps) (\<lambda>r s'. case r of Inl e \<Rightarrow> True | Inr rows \<Rightarrow> dict_list rows) s"
  using assms unfolding rows_ok_def dict_list_def
  by (auto simp: fetch_rows_def wp_simps Let_def as_list_def split: sum.split pyval.split)

lemma wp_rows_or:
  assumes "rows_ok E"
  shows "wp (rows_or E [] (fetch_rows E sql ps)) (\<lambda>r s'. \<exists>rows. r = Inr rows \<and> dict_list rows) s"
proof -
  have "dict_list []" by (simp add: dict_list_def)
  then show ?thesis
    unfolding rows_or_def
    by (simp add: wp_simps Let_def split: sum.split)
      (intro allI impI wp_mono [OF wp_fetch_rows [OF assms]], auto split: sum.splits)
qed

definition answers :: "('s, answer \<times> job option) prog \<Rightarrow> bool" where
  "answers m \<longleftrightarrow> (\<forall>s. \<exists>a s'. m s = (Inr (a, None), s') \<and> answer_ok a)"

lemma answersI: "(\<And>s. wp m (\<lambda>r s'. \<exists>a. r = Inr a \<and> answer_ok a) s) \<Longrightarrow> answers (answered m)"
proof -
  assume m: "\<And>s. wp m (\<lambda>r s'. \<exists>a. r = Inr a \<and> answer_ok a) s"
  show ?thesis
    unfolding answers_def
  proof
    fix s
    obtain a s' where "m s = (Inr a, s')" "answer_ok a"
      using m [of s] by (auto simp: wp_def prod_eq_iff)
    then show "\<exists>a s'. answered m s = (Inr (a, None), s') \<and> answer_ok a"
      by (simp add: answered_def bindp_def ret_def)
  qed
qed

lemma answers_dict_rows:
  assumes "\<And>s. wp m (\<lambda>r s'. \<exists>rows. r = Inr rows \<and> dict_list rows) s"
  shows "answers (answered (bindp m (dict_rows f)))"
proof (rule answersI)
  fix s
  show "wp (bindp m (dict_rows f)) (\<lambda>r s'. \<exists>a. r = Inr a \<and> answer_ok a) s"
    unfolding wp_bindp
  proof (rule wp_mono [OF assms])
    fix r s'
    assume "\<exists>rows. r = Inr rows \<and> dict_list rows"
    then obtain rows where r: "r = Inr rows" "dict_list rows" by blast
    obtain v where "dict_rows f rows s' = (Inr (ok v), s')" by (rule exE [OF dict_rows_runs [OF r(2), of f s']])
    with r(1) show "case r of Inl e \<Rightarrow> \<exists>a. Inl e = Inr a \<and> answer_ok a
        | Inr rows \<Rightarrow> wp (dict_rows f rows) (\<lambda>r s'. \<exists>a. r = Inr a \<and> answer_ok a) s'"
      by (simp add: wp_def del: split_paired_Ex)
  qed
qed

lemma answers_rows:
  assumes "rows_ok E"
  shows "answers (answered (images E L rq))" "answers (answered (logs E rq))"
  unfolding images_def logs_def Let_def case_prod_beta
  by (rule answers_dict_rows, rule wp_rows_or [OF assms])+

text \<open>Programs that never raise and whose answers have one of the statuses.\<close>

definition status_ok :: "('s, answer) prog \<Rightarrow> bool" where
  "status_ok m \<longleftrightarrow> (\<forall>s. okp m (\<lambda>a s'. answer_ok a) s)"

lemma answers_no_raise: "no_raise m \<Longrightarrow> status_ok m \<Longrightarrow> answers (answered m)"
proof (rule answersI)
  fix s
  assume "no_raise m" "status_ok m"
  then obtain a s' where "m s = (Inr a, s')" "answer_ok a"
    unfolding no_raise_def status_ok_def okp_def by (metis prod.collapse)
  then show "wp m (\<lambda>r s'. \<exists>a. r = Inr a \<and> answer_ok a) s" by (simp add: wp_def del: split_paired_Ex)
qed

named_theorems status_intros \<open>rules for the status of an answer\<close>

lemma status_ret [status_intros]: "answer_ok a \<Longrightarrow> status_ok (ret a)"
  by (simp add: status_ok_def okp_ret)

lemma status_bindp [status_intros]: "(\<And>x. status_ok (f x)) \<Longrightarrow> status_ok (bindp m f)"
  unfolding status_ok_def by (blast intro: okp_bind_any)

lemma status_seqp [status_intros]: "status_ok n \<Longrightarrow> status_ok (seqp m n)"
  unfolding status_ok_def by (blast intro: okp_seq_any)

lemma status_catchp [status_intros]: "status_ok m \<Longrightarrow> (\<And>e. status_ok (h e)) \<Longrightarrow> status_ok (catchp m h)"
  unfolding status_ok_def okp_def catchp_def by (fastforce split: prod.splits sum.splits)

lemma status_raise [status_intros]: "status_ok (raise e)"
  by (simp add: status_ok_def okp_raise)

lemma status_if [status_intros]: "status_ok m \<Longrightarrow> status_ok n \<Longrightarrow> status_ok (if b then m else n)"
  by simp

lemma status_case_option [status_intros]:
  "status_ok m \<Longrightarrow> (\<And>y. status_ok (g y)) \<Longrightarrow> status_ok (case x of None \<Rightarrow> m | Some y \<Rightarrow> g y)"
  by (cases x) auto

lemma status_case_prod [status_intros]: "(\<And>a b. status_ok (g a b)) \<Longrightarrow> status_ok (case x of (a, b) \<Rightarrow> g a b)"
  by (cases x) auto

lemma status_getp [status_intros]: "(\<And>s. answer_ok (f s)) \<Longrightarrow> status_ok (getp f)"
  by (simp add: status_ok_def okp_getp)

lemma no_raise_pg_guard: "no_raise (pg_guard E m)"
  unfolding pg_guard_def by (intro no_raise_intros)

lemma no_raise_quiet_close: "no_raise (quiet_close E)"
  unfolding quiet_close_def by (intro no_raise_intros)

lemma no_raise_rows_or: "no_raise (rows_or E d m)"
  unfolding rows_or_def by (intro no_raise_intros)

lemma no_raise_try_sdk: "no_raise (try_sdk cfg m)"
  unfolding try_sdk_def by (intro no_raise_intros)

lemma no_raise_is_port_open: "no_raise (is_port_open E addr)"
  unfolding is_port_open_def by (intro no_raise_intros)

lemma no_raise_container_state: "no_raise (container_state E cfg name)"
  unfolding container_state_def docker_get_container_def by (intro no_raise_intros no_raise_try_sdk)

lemma no_raise_telemetry: "no_raise (telemetry E L)"
  unfolding telemetry_def Let_def by (intro no_raise_intros no_raise_quiet_close)

lemma no_raise_counts: "no_raise (stream_state E)" "no_raise (db_event_count E)"
  unfolding stream_state_def db_event_count_def by (intro no_raise_intros no_raise_pg_guard no_raise_quiet_close)+

lemma no_raise_handlers:
  "no_raise (db_tables E L)" "no_raise (redis_stats E cfg)" "no_raise (redis_keys E cfg)" "no_raise settings_get"
  "no_raise (settings_post E L rq)" "no_raise (ledger_events E)" "no_raise (ledger_integrity E)"
  "no_raise (proxy_logs E cfg)" "no_raise (mitm_logs E cfg)" "no_raise (proxy_metrics E cfg)"
  "no_raise container_log_services" "no_raise (mitm_metrics E L cfg)" "no_raise (latency_metrics E L)"
  "no_raise (pipeline_metrics E)" "no_raise (ingest_job job_id)"
  unfolding db_tables_def redis_stats_def redis_keys_def settings_get_def settings_post_def ledger_events_def
    ledger_integrity_def proxy_logs_def mitm_logs_def recent_logs_def docker_get_container_def proxy_metrics_def
    container_log_services_def mitm_metrics_def latency_metrics_def pipeline_metrics_def ingest_job_def Let_def
  by (intro no_raise_intros no_raise_rows_or no_raise_is_port_open no_raise_try_sdk no_raise_container_state
      no_raise_telemetry no_raise_counts no_raise_pg_guard)+

lemma status_rows_or: "answer_ok d \<Longrightarrow> status_ok m \<Longrightarrow> status_ok (rows_or E d m)"
proof -
  assume d: "answer_ok d" and m: "status_ok m"
  then have "okp m (\<lambda>x s'. answer_ok x) s" for s by (simp add: status_ok_def)
  then have "okp (bindp m (\<lambda>x. seqp (do_call E (Pg PgClose)) (ret x))) (\<lambda>a s'. answer_ok a) s" for s
    by (rule okp_bindI) (auto simp: okp_seqp okp_do_call okp_ret)
  then have "status_ok (bindp m (\<lambda>x. seqp (do_call E (Pg PgClose)) (ret x)))" by (simp add: status_ok_def)
  with d show ?thesis
    unfolding rows_or_def by (auto intro!: status_catchp status_seqp status_ret)
qed

lemma status_dict_rows: "status_ok (dict_rows f rows)"
  unfolding dict_rows_def by (intro status_intros) simp

lemma status_latency: "status_ok (latency_metrics E L)"
proof -
  have g: "okp (pg_guard E m) (\<lambda>r s'. case r of Inl e \<Rightarrow> True | Inr a \<Rightarrow> answer_ok a) s"
    if "status_ok m" for m :: "('a world_scheme, answer) prog" and s
    using that unfolding status_ok_def pg_guard_def okp_def
    by (auto simp: catchp_def seqp_def bindp_def ret_def quiet_close_def do_call_def split: prod.splits sum.splits)
  show ?thesis
    unfolding status_ok_def latency_metrics_def
    by (intro allI okp_bindI [OF g] status_intros) (auto simp: okp_ret split: sum.splits)
qed

lemma status_handlers:
  "status_ok (db_tables E L)" "status_ok (redis_stats E cfg)" "status_ok (redis_keys E cfg)" "status_ok settings_get"
  "status_ok (settings_post E L rq)" "status_ok (ledger_events E)" "status_ok (ledger_integrity E)"
  "status_ok (proxy_logs E cfg)" "status_ok (mitm_logs E cfg)" "status_ok (proxy_metrics E cfg)"
  "status_ok container_log_services" "status_ok (mitm_metrics E L cfg)"
  "status_ok (pipeline_metrics E)" "status_ok (ingest_job job_id)"
  unfolding db_tables_def redis_stats_def redis_keys_def settings_get_def settings_post_def ledger_events_def
    ledger_integrity_def proxy_logs_def mitm_logs_def recent_logs_def proxy_metrics_def
    container_log_services_def mitm_metrics_def pipeline_metrics_def ingest_job_def Let_def
  by (intro status_intros status_rows_or status_dict_rows; simp split: option.split list.split)+

lemma wp_bind_returns:
  "wp m (\<lambda>r s'. \<exists>b. r = Inr b) s \<Longrightarrow> (\<And>b s'. wp (f b) Q s') \<Longrightarrow> wp (bindp m f) Q s"
  unfolding wp_bindp by (erule wp_mono) auto

lemma answers_endpoints:
  assumes "rows_ok E"
  shows "answers (answered (endpoints E))"
proof (rule answersI)
  fix s :: "'a world_scheme"
  let ?P = "\<lambda>r (s' :: 'a world_scheme). \<exists>a. r = Inr a \<and> answer_ok a"
  have nil: "dict_list []" by (simp add: dict_list_def)
  have rows: "wp (catchp (fetch_rows E sql_endpoints []) (\<lambda>_. catchp (fetch_rows E sql_endpoints_fallback []) (\<lambda>_. ret [])))
      (\<lambda>r s'. \<exists>rows. r = Inr rows \<and> dict_list rows) s" for s :: "'a world_scheme"
    unfolding wp_catchp
    by (rule wp_mono [OF wp_fetch_rows [OF assms]])
      (auto simp: wp_ret nil split: sum.splits intro!: wp_mono [OF wp_fetch_rows [OF assms]])
  have rest: "wp (seqp (quiet_close E) (dict_rows (\<lambda>d. d) rows)) ?P s'" if d: "dict_list rows" for rows and s' :: "'a world_scheme"
  proof -
    obtain s1 where "quiet_close E s' = (Inr (), s1)"
      using fst_unit [OF no_raise_quiet_close] by (metis prod.collapse)
    moreover obtain v where "dict_rows (\<lambda>d. d) rows s1 = (Inr (ok v), s1)"
      by (rule exE [OF dict_rows_runs [OF d, of "\<lambda>d. d" s1]])
    ultimately show ?thesis by (simp add: wp_def seqp_def bindp_def del: split_paired_Ex)
  qed
  have main: "wp (bindp (catchp (fetch_rows E sql_endpoints []) (\<lambda>_. catchp (fetch_rows E sql_endpoints_fallback []) (\<lambda>_. ret [])))
      (\<lambda>rows. seqp (quiet_close E) (dict_rows (\<lambda>d. d) rows))) ?P s" for s :: "'a world_scheme"
    unfolding wp_bindp by (rule wp_mono [OF rows]) (use rest in auto)
  have conn: "wp (catchp (seqp (do_call E (Pg PgConnect)) (ret True)) (\<lambda>_. ret False)) (\<lambda>r s'. \<exists>b. r = Inr b) s"
    by (auto simp: wp_simps Let_def split: sum.split)
  have "wp (ret (ok (PList []))) ?P s'" for s' :: "'a world_scheme"
    by (simp add: wp_ret del: split_paired_Ex)
  with main have "wp (if \<not> b then ret (ok (PList []))
      else bindp (catchp (fetch_rows E sql_endpoints []) (\<lambda>_. catchp (fetch_rows E sql_endpoints_fallback []) (\<lambda>_. ret [])))
        (\<lambda>rows. seqp (quiet_close E) (dict_rows (\<lambda>d. d) rows))) ?P s'" for b and s' :: "'a world_scheme"
    by (cases b) (simp_all del: split_paired_Ex)
  then show "wp (endpoints E) ?P s"
    unfolding endpoints_def by (rule wp_bind_returns [OF conn])
qed

text \<open>The requests of the dashboard that depend on nothing but the services.\<close>

fun dashboard :: "route \<Rightarrow> bool" where
  "dashboard (IngestJob job_id) = True"
| "dashboard r = (r \<in> set [DbTables, RedisStats, RedisKeys, Images, Logs, SettingsGet, SettingsPost, Endpoints,
     LedgerEvents, LedgerIntegrity, ProxyLogs, ProxyMetrics, MitmLogs, ContainerLogServices, MitmMetrics,
     LatencyMetrics, PipelineMetrics])"

lemma dashboard_answers:
  assumes "rows_ok E" and "dashboard r"
  shows "answers (handle E L cfg r rq)"
  using assms(2)
  by (cases r; simp add: answers_rows [OF assms(1)] answers_endpoints [OF assms(1)]
      answers_no_raise no_raise_handlers status_handlers status_latency)

text \<open>
C13: The dashboard always gets an answer. If the rows of a query are dictionaries, then whatever Redis,
PostgreSQL and Docker do, up to being down altogether, each of these eighteen requests is answered without
an exception, starts no job, and its status is 200, 404 or 500.
\<close>

theorem dashboard_always_answers:
  assumes "rows_ok E" and "dashboard r"
  shows "\<exists>a w'. handle E L cfg r rq w = (Inr (a, None), w') \<and> snd a \<in> {200, 404, 500}"
  using dashboard_answers [OF assms, of L cfg rq] unfolding answers_def answer_ok_def by blast

theorem dashboard_always_answers_witness:
  "\<exists>a w'. handle (\<lambda>h c. Inl (Exn OSErr ''down'')) ref_lib sample_soc Images \<lparr>args = [], json_body = PNone, files = []\<rparr> idle_soc
     = (Inr (a, None), w') \<and> snd a \<in> {200, 404, 500}"
  by (rule dashboard_always_answers) (simp_all add: rows_ok_def)

end
