(* ===== verification/SocLife.thy ===== *)
theory SocLife
  imports SocRoutes
begin

text \<open>
  The SOC API as a process: requests, job threads, the start-up and the retention worker as steps on
  its two tables, the invariants of the reachable states, and what becomes of a job and of the
  settings. The steps of a thread are not interleaved with others here: every change of the job table
  is made under the lock and concerns the thread's own job (lemma \<open>job_set_run\<close>).
\<close>

section \<open>The tables\<close>

definition statuses :: "string list" where
  "statuses = [''queued'', ''running'', ''completed'', ''failed'']"

text \<open>A job knows its name and its time, and has a status.\<close>

definition job_ok :: "string \<times> (string \<times> pyval) list \<Rightarrow> bool" where
  "job_ok j \<longleftrightarrow> map_of (snd j) ''job_id'' = Some (PStr (fst j))
     \<and> (\<exists>t. map_of (snd j) ''created_at'' = Some (PInt t))
     \<and> (\<exists>s \<in> set statuses. map_of (snd j) ''status'' = Some (PStr s))"

definition tables_ok :: "'z soc_scheme \<Rightarrow> bool" where
  "tables_ok w \<longleftrightarrow> dict_ok (ingest_jobs w) \<and> list_all job_ok (ingest_jobs w)
     \<and> map fst (settings_state w) = map fst default_settings"

text \<open>Programs that keep the tables in order, and programs that do not touch them.\<close>

named_theorems tables_intros \<open>rules for programs that keep the tables in order\<close>

definition tables_kept :: "('z soc_scheme, 'a) prog \<Rightarrow> bool" where
  "tables_kept m \<longleftrightarrow> (\<forall>w. tables_ok w \<longrightarrow> tables_ok (snd (m w)))"

definition both_tables :: "'z soc_scheme \<Rightarrow> (string \<times> (string \<times> pyval) list) list \<times> (string \<times> pyval) list" where
  "both_tables w = (ingest_jobs w, settings_state w)"

lemma both_tables_trace [simp]: "both_tables (w\<lparr>trace := tr\<rparr>) = both_tables w"
  by (simp add: both_tables_def)

lemma tables_keptD: "tables_kept m \<Longrightarrow> tables_ok w \<Longrightarrow> tables_ok (snd (m w))"
  by (simp add: tables_kept_def)

lemma tables_untouched: "keeps both_tables m \<Longrightarrow> tables_kept m"
  unfolding keeps_def tables_kept_def tables_ok_def both_tables_def by simp

lemma tables_bindp [tables_intros]: "tables_kept m \<Longrightarrow> (\<And>x. tables_kept (f x)) \<Longrightarrow> tables_kept (bindp m f)"
  unfolding tables_kept_def bindp_def by (auto split: prod.splits sum.splits)

lemma tables_seqp [tables_intros]: "tables_kept m \<Longrightarrow> tables_kept n \<Longrightarrow> tables_kept (seqp m n)"
  by (simp add: seqp_def tables_bindp)

lemma tables_catchp [tables_intros]: "tables_kept m \<Longrightarrow> (\<And>e. tables_kept (h e)) \<Longrightarrow> tables_kept (catchp m h)"
  unfolding tables_kept_def catchp_def by (auto split: prod.splits sum.splits)

lemma tables_finallyp [tables_intros]: "tables_kept m \<Longrightarrow> tables_kept f \<Longrightarrow> tables_kept (finallyp m f)"
  unfolding tables_kept_def by (simp add: snd_finallyp)

lemma tables_forp [tables_intros]: "(\<And>x. x \<in> set xs \<Longrightarrow> tables_kept (f x)) \<Longrightarrow> tables_kept (forp xs f)"
  by (induction xs) (auto intro: tables_seqp tables_untouched keeps_ret)

lemma tables_whenp [tables_intros]: "tables_kept m \<Longrightarrow> tables_kept (whenp b m)"
  by (simp add: whenp_def tables_untouched keeps_ret)

lemma tables_if [tables_intros]: "(b \<Longrightarrow> tables_kept m) \<Longrightarrow> (\<not> b \<Longrightarrow> tables_kept n) \<Longrightarrow> tables_kept (if b then m else n)"
  by simp

lemma tables_case_option [tables_intros]:
  "tables_kept m \<Longrightarrow> (\<And>y. tables_kept (g y)) \<Longrightarrow> tables_kept (case x of None \<Rightarrow> m | Some y \<Rightarrow> g y)"
  by (cases x) auto

lemma tables_case_prod [tables_intros]: "(\<And>a b. tables_kept (g a b)) \<Longrightarrow> tables_kept (case x of (a, b) \<Rightarrow> g a b)"
  by (cases x) auto

lemma tables_case_sum [tables_intros]:
  "(\<And>e. tables_kept (f e)) \<Longrightarrow> (\<And>y. tables_kept (g y)) \<Longrightarrow> tables_kept (case x of Inl e \<Rightarrow> f e | Inr y \<Rightarrow> g y)"
  by (cases x) auto

lemma tables_simple [tables_intros]:
  "tables_kept (ret x)" "tables_kept (raise e)" "tables_kept (lift_sum r)" "tables_kept (getp g)"
  "tables_kept (call E c)" "tables_kept (do_call E c)" "tables_kept (call_as t E c)" "tables_kept (now_ms E)"
  by (intro tables_untouched keeps_intros; simp)+

section \<open>Changes of the job table\<close>

lemma job_ok_update:
  assumes "list_all job_ok js" and "job_ok (k, v)"
  shows "list_all job_ok (AList.update k v js)"
  using assms by (induction js) auto

text \<open>What \<open>job_set\<close> is called with: a status, and neither the name nor the time.\<close>

definition upd_ok :: "(string \<times> pyval) list \<Rightarrow> bool" where
  "upd_ok upd \<longleftrightarrow> distinct (map fst upd) \<and> ''job_id'' \<notin> fst ` set upd \<and> ''created_at'' \<notin> fst ` set upd
     \<and> (\<exists>s \<in> set statuses. map_of upd ''status'' = Some (PStr s))"

lemma job_ok_dict_update:
  assumes "upd_ok upd" and "map_of job ''job_id'' = Some (PStr job_id)" and "\<exists>t. map_of job ''created_at'' = Some (PInt t)"
  shows "job_ok (job_id, dict_update job upd)"
proof -
  have "map_of upd ''job_id'' = None" "map_of upd ''created_at'' = None"
    using assms(1) by (simp_all add: upd_ok_def map_of_eq_None_iff)
  with assms show ?thesis
    by (auto simp: job_ok_def upd_ok_def map_of_dict_update)
qed

lemma tables_job_set:
  assumes "upd_ok upd"
  shows "tables_kept (job_set E job_id upd)"
  unfolding tables_kept_def
proof (intro allI impI)
  fix w :: "'a soc_scheme"
  assume w: "tables_ok w"
  show "tables_ok (snd (job_set E job_id upd w))"
  proof (cases "map_of (ingest_jobs w) job_id")
    case (Some job)
    then have "job_ok (job_id, job)"
      using w by (auto simp: tables_ok_def list_all_iff dest: map_of_SomeD)
    then have "job_ok (job_id, dict_update job upd)"
      using job_ok_dict_update [OF assms] by (simp add: job_ok_def)
    with w Some show ?thesis
      by (simp add: job_set_def bindp_def getp_def ret_def modifyp_def tables_ok_def job_ok_update)
  next
    case None
    have "job_ok (job_id, dict_update (new_job job_id now) upd)" for now
      by (rule job_ok_dict_update [OF assms]) (simp_all add: new_job_def)
    with w None show ?thesis
      by (cases "now_ms E w"; cases "fst (now_ms E w)")
        (auto simp: job_set_def bindp_def getp_def ret_def modifyp_def tables_ok_def job_ok_update
          dest!: keepsD [OF keeps_now_ms [of both_tables], rotated] simp: both_tables_def)
  qed
qed

lemma tables_stamped_job_set:
  "(\<And>now. upd_ok (upd now)) \<Longrightarrow> tables_kept (bindp (now_ms E) (\<lambda>now. job_set E job_id (upd now)))"
  by (intro tables_intros tables_job_set)

definition plain_fields :: "(string \<times> pyval) list \<Rightarrow> bool" where
  "plain_fields upd \<longleftrightarrow> distinct (map fst upd)
     \<and> set (map fst upd) \<inter> {''job_id'', ''created_at'', ''status'', ''completed_at''} = {}"

lemma upd_ok_plain: "s \<in> set statuses \<Longrightarrow> plain_fields upd \<Longrightarrow> upd_ok ((''status'', PStr s) # upd)"
  "s \<in> set statuses \<Longrightarrow> plain_fields upd \<Longrightarrow> upd_ok ((''status'', PStr s) # (''completed_at'', t) # upd)"
  unfolding upd_ok_def plain_fields_def by auto

lemma tables_job_running: "tables_kept (job_running E job_id)"
  unfolding job_running_def
  by (intro tables_stamped_job_set upd_ok_plain) (simp_all add: statuses_def plain_fields_def)

lemma tables_job_completed: "plain_fields upd \<Longrightarrow> tables_kept (job_completed E job_id upd)"
  unfolding job_completed_def append.simps
  by (intro tables_stamped_job_set upd_ok_plain) (simp_all add: statuses_def)

lemmas keeps_writers_tables = keeps_writers [of both_tables, OF both_tables_trace]

lemma tables_job_failed: "tables_kept (job_failed E job_id details e)"
  unfolding job_failed_def
  by (intro tables_intros tables_job_set upd_ok_plain tables_untouched keeps_writers_tables)
    (simp_all add: statuses_def plain_fields_def)

lemma tables_run_image_job: "tables_kept (run_image_job E L cfg job_id upload_path name)"
  unfolding run_image_job_def image_result_def case_prod_beta Let_def
  by (intro tables_intros tables_job_running tables_job_completed tables_job_failed)
    (auto simp: plain_fields_def intro!: tables_untouched keeps_writers_tables keeps_file_sha256 keeps_run_calpa)

lemma tables_pcap_job:
  "tables_kept unlinks \<Longrightarrow>
     tables_kept (pcap_job E L cfg job_id pcap_path key_path pcap_name no_images message fail_details details unlinks)"
  unfolding pcap_job_def report_pcap_def case_prod_beta Let_def
  by (intro tables_intros tables_job_running tables_job_completed tables_job_failed)
    (auto simp: plain_fields_def intro!: tables_untouched keeps_writers_tables keeps_extraction keeps_analyze_extracted keeps_mapp)

lemma tables_unlink: "tables_kept (unlink E path)"
  by (intro tables_untouched keeps_writers_tables)

lemma tables_run_job: "tables_kept (run_job E L cfg j)"
  by (cases j) (simp_all add: tables_run_image_job run_pcap_job_def run_pcap_plain_job_def tables_pcap_job tables_seqp tables_unlink)

lemma tables_new_job_id: "tables_kept (new_job_id E prefix)"
  unfolding new_job_id_def by (intro tables_intros)

lemma tables_start_jobs:
  "tables_kept (start_image_job E name)" "tables_kept (start_pcap_job E name key_name)"
  "tables_kept (start_pcap_plain_job E name)"
  unfolding start_image_job_def start_pcap_job_def start_pcap_plain_job_def
  by (intro tables_intros tables_new_job_id tables_job_set upd_ok_plain; simp add: statuses_def plain_fields_def)+

section \<open>Settings and ingest\<close>

lemma map_fst_update_known: "k \<in> set (map fst d) \<Longrightarrow> map fst (AList.update k v d) = map fst d"
  by (induction d) auto

lemma tables_change_setting:
  assumes "k \<in> set (map fst default_settings)"
  shows "tables_kept (modifyp (\<lambda>s. s\<lparr>settings_state := AList.update k v (settings_state s)\<rparr>))"
  unfolding tables_kept_def tables_ok_def modifyp_def
  using assms by (auto simp: map_fst_update_known simp del: list.set_map)

lemma tables_set_setting: "k \<in> set (map fst default_settings) \<Longrightarrow> tables_kept (set_setting payload k)"
  unfolding set_setting_def by (intro tables_intros tables_change_setting)

lemma tables_save_settings: "tables_kept (save_settings E L)"
  unfolding save_settings_def by (intro tables_intros)

text \<open>A program chosen by the present tables.\<close>

lemma tables_getp_bind: "(\<And>w. tables_ok w \<Longrightarrow> tables_kept (f (g w))) \<Longrightarrow> tables_kept (bindp (getp g) f)"
  by (simp add: tables_kept_def bindp_def getp_def)

lemma tables_settings_post: "tables_kept (settings_post E L rq)"
  unfolding settings_post_def Let_def
proof (intro tables_catchp tables_getp_bind tables_seqp tables_forp tables_set_setting)
  fix w :: "'a soc_scheme" and k
  assume "tables_ok w" "k \<in> set (map fst (settings_state w))"
  then show "k \<in> set (map fst default_settings)" by (simp add: tables_ok_def)
qed (intro tables_intros tables_save_settings)+

lemma tables_load_setting: "tables_kept (load_setting f)"
  unfolding load_setting_def
proof (rule tables_getp_bind)
  fix w :: "'a soc_scheme"
  assume w: "tables_ok w"
  show "tables_kept (case map_of (settings_state w) (fst f) of None \<Rightarrow> ret ()
      | Some v0 \<Rightarrow> bindp (lift_sum (as_str (snd f))) (\<lambda>t. bindp (lift_sum (read_setting v0 t)) (\<lambda>v.
          modifyp (\<lambda>s. s\<lparr>settings_state := AList.update (fst f) v (settings_state s)\<rparr>))))"
  proof (cases "map_of (settings_state w) (fst f)")
    case None
    then show ?thesis by (simp add: tables_simple)
  next
    case (Some v0)
    then have "fst f \<in> set (map fst default_settings)"
      using w by (metis domI dom_map_of_conv_image_fst list.set_map tables_ok_def)
    with Some show ?thesis by (simp add: tables_bindp tables_simple tables_change_setting)
  qed
qed

lemma tables_init_settings: "tables_kept (init_settings E L)"
  unfolding init_settings_def by (intro tables_intros tables_load_setting tables_save_settings)

lemma tables_retention: "tables_kept (retention_pass E)"
  unfolding retention_pass_def by (intro tables_intros)

lemma tables_save_upload: "tables_kept (save_upload E suffix up)"
  unfolding save_upload_def by (intro tables_intros)

lemma tables_ingest:
  "tables_kept (ingest_image E cfg rq)" "tables_kept (ingest_pcap E cfg rq)" "tables_kept (ingest_pcap_plain E cfg rq)"
  unfolding ingest_image_def ingest_pcap_def ingest_pcap_plain_def Let_def
  by (intro tables_intros tables_save_upload tables_start_jobs)+

section \<open>Requests that only read\<close>

lemma keeps_docker:
  assumes inv: "\<And>w tr. f (w\<lparr>trace := tr\<rparr>) = f w"
  shows "keeps f (docker_available E cfg)" "keeps f (run_docker_command E cfg cmd t)"
    "keeps f (docker_get_container E cfg name)" "keeps f (tail_file E path n)" "keeps f (docker_version_info E cfg)"
    "keeps f (docker_networks E cfg)" "keeps f (is_port_open E addr)"
    "keeps f (tail_logs_from_container_or_file E cfg name path n)"
  unfolding soc_service_defs docker_get_container_def docker_version_info_def docker_networks_def docker_logs_cli_def
    is_port_open_def tail_logs_from_container_or_file_def
  by (intro keeps_intros; simp add: inv)+

lemma keeps_logs:
  assumes inv: "\<And>w tr. f (w\<lparr>trace := tr\<rparr>) = f w"
  shows "keeps f (container_state E cfg name)" "keeps f (recent_logs E cfg name)"
    "keeps f (docker_logs_cli E cfg name n t)" "keeps f (sdk_logs E c n)"
  unfolding container_state_def recent_logs_def docker_logs_cli_def sdk_logs_def
  by (intro keeps_intros keeps_docker; simp add: inv)+

lemma keeps_queries:
  assumes inv: "\<And>w tr. f (w\<lparr>trace := tr\<rparr>) = f w"
  shows "keeps f (images E L rq)" "keeps f (logs E rq)" "keeps f (endpoints E)" "keeps f (ledger_events E)"
    "keeps f (audit_events E rq)" "keeps f (ledger_integrity E)" "keeps f (db_tables E L)" "keeps f (db_rows E L rq name)"
  unfolding db_rows_def images_def logs_def endpoints_def ledger_events_def audit_events_def audit_row_def
    ledger_integrity_def db_tables_def table_info_def query_parts case_prod_beta Let_def
  by (intro keeps_intros; simp add: inv split: option.split pyval.split; (intro conjI allI impI keeps_intros; simp add: inv)?)+

lemma keeps_metrics:
  assumes inv: "\<And>w tr. f (w\<lparr>trace := tr\<rparr>) = f w"
  shows "keeps f (mitm_metrics E L cfg)" "keeps f (latency_metrics E L)" "keeps f (pipeline_metrics E)"
    "keeps f (agent_heartbeat E rq)"
  unfolding mitm_metrics_def telemetry_def latency_metrics_def pipeline_metrics_def stream_state_def db_event_count_def
    agent_heartbeat_def query_parts Let_def
  by (intro keeps_intros keeps_logs; simp add: inv)+

lemma keeps_service_reads:
  assumes inv: "\<And>w tr. f (w\<lparr>trace := tr\<rparr>) = f w"
  shows "keeps f (health E cfg)" "keeps f (admin_diagnostics E cfg)" "keeps f (redis_stats E cfg)"
    "keeps f (redis_keys E cfg)" "keeps f (storage_buckets E L cfg)" "keeps f (proxy_logs E cfg)"
    "keeps f (mitm_logs E cfg)" "keeps f (proxy_metrics E cfg)" "keeps f container_log_services"
    "keeps f (container_logs E L cfg rq)" "keeps f settings_get" "keeps f (ingest_jobs_list rq)" "keeps f (ingest_job job_id)"
  unfolding health_def admin_diagnostics_def redis_stats_def redis_keys_def key_info_def storage_buckets_def
    bucket_info_def proxy_logs_def mitm_logs_def proxy_metrics_def container_log_services_def container_logs_def
    settings_get_def ingest_jobs_list_def ingest_job_def Let_def
  by (intro keeps_intros keeps_docker keeps_logs keeps_resolve_ingest_network; simp add: inv)+

lemmas keeps_reads = keeps_queries keeps_metrics keeps_service_reads

section \<open>Jobs from the request to the end\<close>

fun job_name :: "job \<Rightarrow> string" where
  "job_name (ImageJob job_id upload_path name) = job_id"
| "job_name (PcapJob job_id pcap_path key_path pcap_name key_name) = job_id"
| "job_name (PcapPlainJob job_id pcap_path pcap_name) = job_id"

definition has_status :: "'z soc_scheme \<Rightarrow> string \<Rightarrow> string \<Rightarrow> bool" where
  "has_status w k s \<longleftrightarrow> job_field w k ''status'' = Some (PStr s)"

definition ended :: "'z soc_scheme \<Rightarrow> string \<Rightarrow> bool" where
  "ended w k \<longleftrightarrow> has_status w k ''completed'' \<or> has_status w k ''failed''"

text \<open>A thread changes no job but its own.\<close>

lemma keeps_job_set: "k \<noteq> job_id \<Longrightarrow> keeps (\<lambda>w. map_of (ingest_jobs w) k) (job_set E job_id upd)"
  unfolding job_set_def by (intro keeps_intros) simp_all

lemma keeps_job_steps:
  assumes "k \<noteq> job_id"
  shows "keeps (\<lambda>w. map_of (ingest_jobs w) k) (job_running E job_id)"
    and "keeps (\<lambda>w. map_of (ingest_jobs w) k) (job_completed E job_id upd)"
    and "keeps (\<lambda>w. map_of (ingest_jobs w) k) (job_failed E job_id details e)"
  unfolding job_running_def job_completed_def job_failed_def
  by (intro keeps_intros keeps_job_set [OF assms] keeps_writers; simp)+

lemma keeps_run_job: "k \<noteq> job_name j \<Longrightarrow> keeps (\<lambda>w. map_of (ingest_jobs w) k) (run_job E L cfg j)"
  by (cases j)
    (auto simp: run_image_job_def image_result_def run_pcap_job_def run_pcap_plain_job_def pcap_job_def report_pcap_def
      case_prod_beta Let_def
      intro!: keeps_intros keeps_job_steps keeps_writers keeps_file_sha256 keeps_run_calpa keeps_extraction keeps_analyze_extracted)

text \<open>A thread that has run has ended its job.\<close>

lemma completed_ended: "completed_job w k v \<Longrightarrow> ended w k" and failed_ended: "failed_job w k e \<Longrightarrow> ended w k"
  by (simp_all add: completed_job_def failed_job_def ended_def has_status_def)

lemma image_outcome_ended: "image_outcome L cfg k name sha a w w' \<Longrightarrow> ended w' k"
  by (cases a) (auto simp: image_outcome_def intro: completed_ended failed_ended)

lemma pcap_outcome_ended: "pcap_outcome L cfg k name message a w w' \<Longrightarrow> ended w' k"
  by (cases a) (auto simp: pcap_outcome_def intro: completed_ended failed_ended)

lemma run_job_ends:
  assumes "clock_ok E"
  shows "ended (snd (run_job E L cfg j w)) (job_name j)"
proof (cases j)
  case (ImageJob job_id upload_path name)
  then show ?thesis
    using image_job_run [OF assms, of L upload_path job_id w cfg name] by (auto intro: image_outcome_ended)
next
  case (PcapJob job_id pcap_path key_path pcap_name key_name)
  have "quiet (seqp (unlink E pcap_path) (unlink E key_path))" by (intro quiet_seqp quiet_steps)
  from pcap_outcome_ended [OF pcap_job_run [OF assms this]] PcapJob show ?thesis by (simp add: run_pcap_job_def)
next
  case (PcapPlainJob job_id pcap_path pcap_name)
  from pcap_outcome_ended [OF pcap_job_run [OF assms quiet_steps(9)]] PcapPlainJob show ?thesis
    by (simp add: run_pcap_plain_job_def)
qed

text \<open>
  What a request does to the job table: it answers 202 and adds a queued job for its thread, or it
  starts no thread and leaves the table as it is.
\<close>

definition queues :: "'z soc_scheme \<Rightarrow> job \<Rightarrow> 'z soc_scheme \<Rightarrow> bool" where
  "queues w j w' \<longleftrightarrow> has_status w' (job_name j) ''queued''
     \<and> (\<forall>k. k \<noteq> job_name j \<longrightarrow> map_of (ingest_jobs w') k = map_of (ingest_jobs w) k)"

definition admitted :: "'z soc_scheme \<Rightarrow> exn + answer \<times> job option \<Rightarrow> 'z soc_scheme \<Rightarrow> bool" where
  "admitted w r w' \<longleftrightarrow> (case r of
       Inr (a, Some j) \<Rightarrow> a = queued_answer (job_name j) \<and> queues w j w'
     | _ \<Rightarrow> ingest_jobs w' = ingest_jobs w)"

definition admits :: "('z soc_scheme, answer \<times> job option) prog \<Rightarrow> bool" where
  "admits m \<longleftrightarrow> (\<forall>w. admitted w (fst (m w)) (snd (m w)))"

lemma admitsD: "admits m \<Longrightarrow> admitted w (fst (m w)) (snd (m w))"
  by (simp add: admits_def)

lemma admitted_cong: "ingest_jobs w1 = ingest_jobs w \<Longrightarrow> admitted w1 r w' = admitted w r w'"
  by (simp add: admitted_def queues_def split: sum.split option.split)

named_theorems admits_intros \<open>rules for the requests that may start a job\<close>

lemma admits_none [admits_intros]: "admits (ret (a, None))"
  by (simp add: admits_def admitted_def ret_def)

lemma admits_bad_request [admits_intros]: "admits (ret (bad_request msg))"
  by (simp add: admits_def admitted_def ret_def bad_request_def)

lemma admits_bindp [admits_intros]:
  assumes m: "keeps ingest_jobs m" and f: "\<And>x. admits (f x)"
  shows "admits (bindp m f)"
  unfolding admits_def
proof
  fix w :: "'a soc_scheme"
  obtain r w1 where r: "m w = (r, w1)" by fastforce
  with m have w1: "ingest_jobs w1 = ingest_jobs w" by (rule keepsD)
  show "admitted w (fst (bindp m f w)) (snd (bindp m f w))"
  proof (cases r)
    case (Inl e)
    with r w1 show ?thesis by (simp add: bindp_def admitted_def)
  next
    case (Inr x)
    have "bindp m f w = f x w1" using r Inr by (simp add: bindp_def)
    moreover have "admitted w1 (fst (f x w1)) (snd (f x w1))" using f unfolding admits_def by (rule spec)
    ultimately show ?thesis using admitted_cong [OF w1] by metis
  qed
qed

lemma admits_seqp [admits_intros]: "keeps ingest_jobs m \<Longrightarrow> admits n \<Longrightarrow> admits (seqp m n)"
  by (simp add: seqp_def admits_bindp)

lemma admits_if [admits_intros]: "admits m \<Longrightarrow> admits n \<Longrightarrow> admits (if b then m else n)"
  by simp

lemma admits_case_option [admits_intros]:
  "admits m \<Longrightarrow> (\<And>y. admits (g y)) \<Longrightarrow> admits (case x of None \<Rightarrow> m | Some y \<Rightarrow> g y)"
  by (cases x) auto

lemma admits_case_prod [admits_intros]: "(\<And>a b. admits (g a b)) \<Longrightarrow> admits (case x of (a, b) \<Rightarrow> g a b)"
  by (cases x) auto

lemma admits_answered: "keeps ingest_jobs m \<Longrightarrow> admits (answered m)"
  unfolding answered_def by (intro admits_intros)

lemma job_set_queues:
  assumes "clock_ok E" and "distinct (map fst upd)" and "map_of upd ''status'' = Some (PStr ''queued'')"
    and "job_name (mk job_id) = job_id"
  shows "admits (seqp (job_set E job_id upd) (ret (queued_answer job_id, Some (mk job_id))))"
  unfolding admits_def
proof
  fix w :: "'a soc_scheme"
  obtain w' where w': "job_set E job_id upd w = (Inr (), w')" "sets_fields w job_id upd w'"
    using job_set_run [OF assms(1,2), of job_id w] by blast
  have "queues w (mk job_id) w'"
    using w'(2) assms(3,4) by (simp add: queues_def sets_fields_def has_status_def)
  with w' assms(4)
  show "admitted w (fst (seqp (job_set E job_id upd) (ret (queued_answer job_id, Some (mk job_id))) w))
      (snd (seqp (job_set E job_id upd) (ret (queued_answer job_id, Some (mk job_id))) w))"
    by (simp add: admitted_def seqp_def bindp_def ret_def)
qed

lemma bindp_seqp_ret: "bindp (seqp m (ret x)) f = seqp m (f x)"
  by (rule ext) (simp add: seqp_def bindp_def ret_def split: prod.split sum.split)

lemma keeps_new_job_id: "keeps ingest_jobs (new_job_id E prefix)"
  unfolding new_job_id_def by (intro keeps_intros) simp_all

lemma admits_start:
  assumes "clock_ok E" and "\<And>job_id. job_name (mk job_id) = job_id"
    and "distinct (map fst upd)" and "map_of upd ''status'' = Some (PStr ''queued'')"
  shows "admits (bindp (bindp (new_job_id E prefix) (\<lambda>job_id. seqp (job_set E job_id upd) (ret job_id)))
           (\<lambda>job_id. ret (queued_answer job_id, Some (mk job_id))))"
  unfolding bindp_assoc bindp_seqp_ret
  by (intro admits_bindp keeps_new_job_id job_set_queues assms)

lemma keeps_save_upload: "keeps ingest_jobs (save_upload E suffix up)"
  unfolding save_upload_def by (intro keeps_intros) simp_all

lemma admits_ingest:
  assumes "clock_ok E"
  shows "admits (ingest_image E cfg rq)" "admits (ingest_pcap E cfg rq)" "admits (ingest_pcap_plain E cfg rq)"
  unfolding ingest_image_def ingest_pcap_def ingest_pcap_plain_def start_image_job_def start_pcap_job_def
    start_pcap_plain_job_def Let_def
  by (intro admits_start [OF assms] admits_intros keeps_intros keeps_save_upload; simp)+

lemma keeps_settings_jobs:
  "keeps ingest_jobs (settings_post E L rq)" "keeps ingest_jobs (init_settings E L)" "keeps ingest_jobs (retention_pass E)"
  unfolding settings_post_def set_setting_def save_settings_def init_settings_def load_setting_def retention_pass_def Let_def
  by (intro keeps_intros; simp)+

lemma admits_handle: "clock_ok E \<Longrightarrow> admits (handle E L cfg r rq)"
  by (cases r) (simp_all add: admits_answered keeps_reads keeps_settings_jobs admits_ingest)

lemma tables_answered: "tables_kept m \<Longrightarrow> tables_kept (answered m)"
  unfolding answered_def by (intro tables_intros)

lemma tables_handle: "tables_kept (handle E L cfg r rq)"
  by (cases r) (simp_all add: tables_answered tables_settings_post tables_ingest tables_untouched keeps_reads)

section \<open>The process\<close>

text \<open>
  The state of the process is its tables and the threads that have been started and not run. A step is
  a request, a thread, a pass of the retention worker, or some passes of the live events of a client.
\<close>

definition accepted :: "exn + answer \<times> job option \<Rightarrow> job list" where
  "accepted r = (case r of Inr (a, Some j) \<Rightarrow> [j] | _ \<Rightarrow> [])"

inductive soc_step :: "env \<Rightarrow> pylib \<Rightarrow> soc_cfg \<Rightarrow> soc \<times> job list \<Rightarrow> soc \<times> job list \<Rightarrow> bool" for E L cfg where
  request: "handle E L cfg r rq w = (res, w') \<Longrightarrow> soc_step E L cfg (w, js) (w', accepted res @ js)"
| thread: "j \<in> set js \<Longrightarrow> soc_step E L cfg (w, js) (snd (run_job E L cfg j w), remove1 j js)"
| retention: "soc_step E L cfg (w, js) (snd (retention_pass E w), js)"
| live_events: "soc_step E L cfg (w, js) (snd (ws_loop E L passes last_ts w), js)"

text \<open>\<open>w\<close> is what the module has set up before the settings are loaded.\<close>

inductive soc_reachable :: "env \<Rightarrow> pylib \<Rightarrow> soc_cfg \<Rightarrow> soc \<times> job list \<Rightarrow> bool" for E L cfg where
  start: "ingest_jobs w = [] \<Longrightarrow> settings_state w = default_settings \<Longrightarrow>
    soc_reachable E L cfg (snd (init_settings E L w), [])"
| step: "soc_reachable E L cfg p \<Longrightarrow> soc_step E L cfg p q \<Longrightarrow> soc_reachable E L cfg q"

lemma keeps_ws_loop:
  assumes inv: "\<And>w tr. f (w\<lparr>trace := tr\<rparr>) = f w"
  shows "keeps f (ws_loop E L passes last_ts)"
proof -
  have send: "keeps f (ws_send E row)" for row
    unfolding ws_send_def by (intro keeps_intros; simp add: inv)
  have rows: "keeps f (ws_rows E L rs ts)" for rs ts
    by (induction rs arbitrary: ts) (auto simp: Let_def intro!: keeps_intros send)
  have failed: "keeps f (ws_failed E b e)" for b e
    unfolding ws_failed_def quiet_close_def by (intro keeps_intros; simp add: inv)
  have pass: "keeps f (ws_pass E L ts)" for ts
    unfolding ws_pass_def ws_query_def query_parts case_prod_beta
    by (intro keeps_intros rows failed; simp add: inv split: ws_end.split; intro conjI impI allI keeps_intros failed; simp add: inv)
  show ?thesis
    by (induction passes arbitrary: last_ts) (auto intro!: keeps_intros pass)
qed

text \<open>A job that has not ended has a thread that will run it.\<close>

definition threads_ok :: "soc \<Rightarrow> job list \<Rightarrow> bool" where
  "threads_ok w js \<longleftrightarrow> (\<forall>k \<in> dom (map_of (ingest_jobs w)). ended w k \<or> has_status w k ''queued'' \<and> k \<in> job_name ` set js)"

lemma threads_ok_cong: "ingest_jobs w' = ingest_jobs w \<Longrightarrow> threads_ok w' js = threads_ok w js"
  by (simp add: threads_ok_def ended_def has_status_def job_field_def)

lemma threads_ok_queued:
  assumes "threads_ok w js" and "queues w j w'"
  shows "threads_ok w' (j # js)"
  unfolding threads_ok_def
proof
  fix k
  assume k: "k \<in> dom (map_of (ingest_jobs w'))"
  show "ended w' k \<or> has_status w' k ''queued'' \<and> k \<in> job_name ` set (j # js)"
  proof (cases "k = job_name j")
    case True
    with assms(2) show ?thesis by (simp add: queues_def)
  next
    case False
    then have e: "map_of (ingest_jobs w') k = map_of (ingest_jobs w) k" using assms(2) by (simp add: queues_def)
    with k have "k \<in> dom (map_of (ingest_jobs w))" by (simp add: domIff)
    with assms(1) have "ended w k \<or> has_status w k ''queued'' \<and> k \<in> job_name ` set js" by (simp add: threads_ok_def)
    with e show ?thesis by (auto simp: ended_def has_status_def job_field_def)
  qed
qed

lemma threads_ok_run:
  assumes "clock_ok E" and "threads_ok w js"
  shows "threads_ok (snd (run_job E L cfg j w)) (remove1 j js)"
  unfolding threads_ok_def
proof
  let ?w' = "snd (run_job E L cfg j w)"
  fix k
  assume k: "k \<in> dom (map_of (ingest_jobs ?w'))"
  show "ended ?w' k \<or> has_status ?w' k ''queued'' \<and> k \<in> job_name ` set (remove1 j js)"
  proof (cases "k = job_name j")
    case True
    then show ?thesis by (simp add: run_job_ends [OF assms(1)])
  next
    case False
    then have e: "map_of (ingest_jobs ?w') k = map_of (ingest_jobs w) k"
      by (rule keepsD [OF keeps_run_job surjective_pairing])
    with k have "k \<in> dom (map_of (ingest_jobs w))" by (simp add: domIff)
    with assms(2) have "ended w k \<or> has_status w k ''queued'' \<and> k \<in> job_name ` set js" by (simp add: threads_ok_def)
    moreover have "k \<in> job_name ` set js \<Longrightarrow> k \<in> job_name ` set (remove1 j js)" using False by (metis (no_types, lifting) imageE imageI in_set_remove1)
    ultimately show ?thesis using e by (auto simp: ended_def has_status_def job_field_def)
  qed
qed

lemma request_keeps_threads:
  assumes "admitted w res w'" and "threads_ok w js"
  shows "threads_ok w' (accepted res @ js)"
proof -
  consider e where "res = Inl e" | a where "res = Inr (a, None)" | a j where "res = Inr (a, Some j)"
    by (metis option.exhaust sum.exhaust surj_pair)
  then show ?thesis
  proof cases
    case (3 a j)
    with assms(1) have "queues w j w'" "accepted res = [j]" by (simp_all add: admitted_def accepted_def)
    with threads_ok_queued [OF assms(2)] show ?thesis by simp
  qed (use assms in \<open>simp_all add: admitted_def accepted_def threads_ok_cong [where w = w and w' = w']\<close>)
qed

lemma step_keeps_ok:
  assumes "clock_ok E"
  shows "soc_step E L cfg p q \<Longrightarrow> tables_ok (fst p) \<and> threads_ok (fst p) (snd p) \<Longrightarrow> tables_ok (fst q) \<and> threads_ok (fst q) (snd q)"
proof (induction rule: soc_step.induct)
  case (request r rq w res w' js)
  have h: "fst (handle E L cfg r rq w) = res" "snd (handle E L cfg r rq w) = w'" using request(1) by simp_all
  have "tables_ok w" "threads_ok w js" using request(2) by simp_all
  then have "tables_ok w'" using tables_keptD [OF tables_handle [of E L cfg r rq], of w] h by simp
  moreover have "threads_ok w' (accepted res @ js)"
    using admitsD [OF admits_handle [OF assms, of L cfg r rq], of w] \<open>threads_ok w js\<close>
    unfolding h by (rule request_keeps_threads)
  ultimately show ?case by simp
next
  case (thread j js w)
  have "tables_ok w" "threads_ok w js" using thread(2) by simp_all
  then show ?case
    using tables_keptD [OF tables_run_job [of E L cfg j], of w] threads_ok_run [OF assms, of w js L cfg j] by simp
next
  case (retention w js)
  have j: "ingest_jobs (snd (retention_pass E w)) = ingest_jobs w"
    by (rule keepsD [OF keeps_settings_jobs(3) surjective_pairing])
  show ?case
    using retention tables_keptD [OF tables_retention [of E], of w] threads_ok_cong [OF j] by simp
next
  case (live_events w js passes last_ts)
  have k: "keeps both_tables (ws_loop E L passes last_ts)" by (rule keeps_ws_loop) simp
  have "both_tables (snd (ws_loop E L passes last_ts w)) = both_tables w"
    by (rule keepsD [OF k surjective_pairing])
  then have j: "ingest_jobs (snd (ws_loop E L passes last_ts w)) = ingest_jobs w"
    by (simp add: both_tables_def)
  show ?case
    using live_events tables_keptD [OF tables_untouched [OF k], of w] threads_ok_cong [OF j] by simp
qed

lemma soc_reachable_ok:
  assumes "soc_reachable E L cfg p" and "clock_ok E"
  shows "tables_ok (fst p) \<and> threads_ok (fst p) (snd p)"
  using assms(1)
proof induction
  case (start w)
  have "tables_ok w" using start by (simp add: tables_ok_def)
  then have "tables_ok (snd (init_settings E L w))" by (rule tables_keptD [OF tables_init_settings])
  moreover have "ingest_jobs (snd (init_settings E L w)) = []"
    using keepsD [OF keeps_settings_jobs(2) surjective_pairing, of E L w] start by simp
  ultimately show ?case by (simp add: threads_ok_def)
next
  case (step p q)
  with step_keeps_ok [OF assms(2)] show ?case by blast
qed


definition upload_request :: http_request where
  "upload_request = \<lparr>args = [], json_body = PNone,
     files = [(''file'', \<lparr>upload_filename = Some ''a.png'', upload_data = [1, 2]\<rparr>)]\<rparr>"

definition upload_env :: env where
  "upload_env h c = (case c of Fs (FsMkTemp s) \<Rightarrow> Inr (PStr (''/tmp/u'' @ s)) | Redis (HGetAll k) \<Rightarrow> Inr (PDict []) | _ \<Rightarrow> soc_env (Inr PNone) h c)"

lemma upload_env_clock: "clock_ok upload_env"
  by (simp add: clock_ok_def upload_env_def soc_env_def)

definition uploaded_job :: job where
  "uploaded_job = ImageJob ''ingest_5_01234567'' ''/tmp/u.png'' ''a.png''"

lemma upload_run:
  "accepted (fst (handle upload_env ref_lib sample_soc IngestImage upload_request (snd (init_settings upload_env ref_lib idle_soc)))) = [uploaded_job]"
  by code_simp

lemma upload_reachable:
  "\<exists>w. soc_reachable upload_env ref_lib sample_soc (w, [uploaded_job])"
proof -
  let ?w0 = "snd (init_settings upload_env ref_lib idle_soc)"
  have "soc_reachable upload_env ref_lib sample_soc (?w0, [])"
    by (rule soc_reachable.start) (simp_all add: idle_soc_def)
  moreover have "soc_step upload_env ref_lib sample_soc (?w0, [])
      (snd (handle upload_env ref_lib sample_soc IngestImage upload_request ?w0),
       accepted (fst (handle upload_env ref_lib sample_soc IngestImage upload_request ?w0)) @ [])"
    by (rule soc_step.request, rule surjective_pairing)
  ultimately show ?thesis unfolding upload_run by (auto intro: soc_reachable.step)
qed


lemma threads_run_out:
  assumes "clock_ok E"
  shows "\<exists>w'. (soc_step E L cfg)\<^sup>*\<^sup>* (w, js) (w', [])"
proof (induction js arbitrary: w)
  case (Cons j js)
  have "soc_step E L cfg (w, j # js) (snd (run_job E L cfg j w), js)"
    using soc_step.thread [of j "j # js" E L cfg w] by simp
  then show ?case using Cons by (meson converse_rtranclp_into_rtranclp)
qed auto

lemma reachable_steps: "(soc_step E L cfg)\<^sup>*\<^sup>* p q \<Longrightarrow> soc_reachable E L cfg p \<Longrightarrow> soc_reachable E L cfg q"
  by (induction rule: rtranclp_induct) (auto intro: soc_reachable.step)



section \<open>What a request changes\<close>

lemma keeps_ingest_settings:
  "keeps settings_state (ingest_image E cfg rq)" "keeps settings_state (ingest_pcap E cfg rq)"
  "keeps settings_state (ingest_pcap_plain E cfg rq)"
  unfolding ingest_image_def ingest_pcap_def ingest_pcap_plain_def start_image_job_def start_pcap_job_def
    start_pcap_plain_job_def save_upload_def new_job_id_def job_set_def Let_def
  by (intro keeps_intros; simp)+

lemma keeps_answered: "keeps f m \<Longrightarrow> keeps f (answered m)"
  unfolding answered_def by (intro keeps_intros)

lemma keeps_handle_settings: "r \<noteq> SettingsPost \<Longrightarrow> keeps settings_state (handle E L cfg r rq)"
  by (cases r) (simp_all add: keeps_answered keeps_reads keeps_ingest_settings)

definition ingest_route :: "route \<Rightarrow> bool" where
  "ingest_route r \<longleftrightarrow> r \<in> {IngestImage, IngestPcap, IngestPcapPlain, IngestUpload}"

lemma accepted_answered: "accepted (fst (answered m w)) = []"
  by (simp add: answered_def accepted_def bindp_def ret_def split: prod.split sum.split)

lemma accepted_handle: "\<not> ingest_route r \<Longrightarrow> accepted (fst (handle E L cfg r rq w)) = []"
  by (cases r) (simp_all add: accepted_answered ingest_route_def)

text \<open>
C9: What a request can change. Only the settings request changes the settings, and only the four upload
requests start a thread. A request that starts a thread is answered with 202 and the name of the job,
which is then in the table as queued, and no other job is touched; every other request, a refused upload
and one that fails halfway included, leaves the job table as it was.
\<close>

theorem request_effects:
  assumes "clock_ok E" and "handle E L cfg r rq w = (res, w')"
  shows "admitted w res w' \<and> (r \<noteq> SettingsPost \<longrightarrow> settings_state w' = settings_state w)
    \<and> (\<not> ingest_route r \<longrightarrow> accepted res = [])"
  using admitsD [OF admits_handle [OF assms(1), of L cfg r rq], of w] keepsD [OF keeps_handle_settings assms(2)]
    accepted_handle [of r E L cfg rq w] assms(2) by simp

theorem request_effects_witness:
  "\<exists>w'. queues idle_soc uploaded_job w' \<and> settings_state w' = default_settings"
proof -
  obtain res w' where h: "handle upload_env ref_lib sample_soc IngestImage upload_request idle_soc = (res, w')"
    by fastforce
  have "accepted (fst (handle upload_env ref_lib sample_soc IngestImage upload_request idle_soc)) = [uploaded_job]" by code_simp
  then have "\<exists>a. res = Inr (a, Some uploaded_job)"
    using h by (auto simp: accepted_def split: sum.splits option.splits)
  with request_effects [OF upload_env_clock h] show ?thesis
    by (auto simp: admitted_def idle_soc_def)
qed

end
