(* ===== verification/SocLive.thy ===== *)
theory SocLive
  imports SocLife HashCache
begin

text \<open>
  What outlives a request of the SOC API: the settings, which a restart finds again in Redis, and the
  rows that the live events deliver to a connected client.
\<close>

section \<open>Settings after a restart\<close>

text \<open>The type of a setting is the type of its default.\<close>

fun same_type :: "pyval \<Rightarrow> pyval \<Rightarrow> bool" where
  "same_type (PInt n) (PInt m) = True"
| "same_type (PBool a) (PBool b) = True"
| "same_type v w = False"

definition typed_settings :: "(string \<times> pyval) list \<Rightarrow> bool" where
  "typed_settings st \<longleftrightarrow> map fst st = map fst default_settings
     \<and> (\<forall>k v d. map_of st k = Some v \<longrightarrow> map_of default_settings k = Some d \<longrightarrow> same_type v d)"

definition typed_payload :: "(string \<times> pyval) list \<Rightarrow> bool" where
  "typed_payload p \<longleftrightarrow> (\<forall>k v d. map_of p k = Some v \<longrightarrow> map_of default_settings k = Some d \<longrightarrow> same_type v d)"

text \<open>\<^verbatim>\<open>str\<close> of integers and truth values.\<close>

definition prints_settings :: "pylib \<Rightarrow> bool" where
  "prints_settings L \<longleftrightarrow> (\<forall>n. py_str L (PInt n) = int_str n) \<and> (\<forall>b. py_str L (PBool b) = (if b then ''True'' else ''False''))"

definition posted :: "(string \<times> pyval) list \<Rightarrow> (string \<times> pyval) list \<Rightarrow> (string \<times> pyval) list" where
  "posted p st = map (\<lambda>f. (fst f, case map_of p (fst f) of Some v \<Rightarrow> v | None \<Rightarrow> snd f)) st"

text \<open>The process is started again; the outside world stays.\<close>

definition restart :: "'z soc_scheme \<Rightarrow> 'z soc_scheme" where
  "restart w = w\<lparr>ingest_jobs := [], settings_state := default_settings\<rparr>"

lemma assoc_list_keys: "distinct (map fst xs) \<Longrightarrow> map (\<lambda>k. (k, the (map_of xs k))) (map fst xs) = xs"
  by (simp add: o_def) (rule map_idI, auto)

lemma assoc_list_eq:
  assumes "map fst xs = map fst ys" and "distinct (map fst xs)" and "\<And>k. map_of xs k = map_of ys k"
  shows "xs = ys"
  using assoc_list_keys [of xs] assoc_list_keys [of ys] assms by simp

lemma default_keys: "distinct (map fst default_settings)"
  by (simp add: default_settings_def)

lemma map_of_posted: "map_of (posted p st) k = (case map_of st k of None \<Rightarrow> None | Some v \<Rightarrow> Some (case map_of p k of Some v' \<Rightarrow> v' | None \<Rightarrow> v))"
  by (induction st) (auto simp: posted_def)

lemma posted_keys: "map fst (posted p st) = map fst st"
  by (simp add: posted_def)

lemma typed_posted: "typed_payload p \<Longrightarrow> typed_settings st \<Longrightarrow> typed_settings (posted p st)"
  by (auto simp: typed_settings_def typed_payload_def posted_keys map_of_posted split: option.splits)

subsection \<open>The request\<close>

lemma set_setting_run:
  "set_setting (PDict p) k w = (Inr (), case map_of p k of None \<Rightarrow> w
     | Some v \<Rightarrow> w\<lparr>settings_state := AList.update k v (settings_state w)\<rparr>)"
proof (cases "map_of p k")
  case None
  then have "k \<notin> fst ` set p" by (simp add: map_of_eq_None_iff)
  with None show ?thesis by (simp add: set_setting_def py_in_def lift_sum_def bindp_def ret_def whenp_def)
next
  case (Some v)
  then have "k \<in> fst ` set p" by (metis domI dom_map_of_conv_image_fst)
  with Some show ?thesis
    by (simp add: set_setting_def py_in_def py_item_def dict_item_def lift_sum_def bindp_def ret_def whenp_def modifyp_def)
qed

lemma set_settings_run:
  "\<exists>st. forp ks (set_setting (PDict p)) w = (Inr (), w\<lparr>settings_state := st\<rparr>)
     \<and> (set ks \<subseteq> set (map fst (settings_state w)) \<longrightarrow> map fst st = map fst (settings_state w))
     \<and> (\<forall>k. map_of st k = (if k \<in> set ks \<and> map_of p k \<noteq> None then map_of p k else map_of (settings_state w) k))"
proof (induction ks arbitrary: w)
  case Nil
  show ?case by (intro exI [of _ "settings_state w"]) (simp add: ret_def)
next
  case (Cons k ks)
  let ?st = "case map_of p k of None \<Rightarrow> settings_state w | Some v \<Rightarrow> AList.update k v (settings_state w)"
  let ?w = "w\<lparr>settings_state := ?st\<rparr>"
  have step: "set_setting (PDict p) k w = (Inr (), ?w)"
    by (simp add: set_setting_run split: option.split)
  have s: "settings_state ?w = ?st" by simp
  obtain st where st: "forp ks (set_setting (PDict p)) ?w = (Inr (), ?w\<lparr>settings_state := st\<rparr>)"
      "set ks \<subseteq> set (map fst ?st) \<longrightarrow> map fst st = map fst ?st"
      "\<forall>j. map_of st j = (if j \<in> set ks \<and> map_of p j \<noteq> None then map_of p j else map_of ?st j)"
    using Cons.IH [of ?w] unfolding s by blast
  have keys: "k \<in> set (map fst (settings_state w)) \<Longrightarrow> map fst ?st = map fst (settings_state w)"
    by (simp add: map_fst_update_known del: list.set_map split: option.split)
  have vals: "map_of ?st j = (if j = k \<and> map_of p k \<noteq> None then map_of p k else map_of (settings_state w) j)" for j
    by (auto simp: update_conv split: option.split)
  show ?case
  proof (intro exI [of _ st] conjI)
    show "forp (k # ks) (set_setting (PDict p)) w = (Inr (), w\<lparr>settings_state := st\<rparr>)"
      using step st(1) by (simp add: seqp_def bindp_def)
    show "set (k # ks) \<subseteq> set (map fst (settings_state w)) \<longrightarrow> map fst st = map fst (settings_state w)"
    proof
      assume sub: "set (k # ks) \<subseteq> set (map fst (settings_state w))"
      then have e: "map fst ?st = map fst (settings_state w)" by (intro keys) simp
      have "set ks \<subseteq> set (map fst ?st)" unfolding e using sub by simp
      with st(2) e show "map fst st = map fst (settings_state w)" by metis
    qed
    show "\<forall>j. map_of st j = (if j \<in> set (k # ks) \<and> map_of p j \<noteq> None then map_of p j else map_of (settings_state w) j)"
      using st(3) vals by auto
  qed
qed

lemma posted_run:
  assumes "tables_ok w"
  shows "forp (map fst (settings_state w)) (set_setting (PDict p)) w
     = (Inr (), w\<lparr>settings_state := posted p (settings_state w)\<rparr>)"
proof -
  obtain st where st: "forp (map fst (settings_state w)) (set_setting (PDict p)) w = (Inr (), w\<lparr>settings_state := st\<rparr>)"
      "map fst st = map fst (settings_state w)"
      "\<forall>k. map_of st k = (if k \<in> set (map fst (settings_state w)) \<and> map_of p k \<noteq> None then map_of p k
          else map_of (settings_state w) k)"
    using set_settings_run [of "map fst (settings_state w)" p w] by auto
  have "st = posted p (settings_state w)"
  proof (rule assoc_list_eq)
    show "distinct (map fst st)" using st(2) assms default_keys by (simp add: tables_ok_def)
    show "map_of st k = map_of (posted p (settings_state w)) k" for k
    proof (cases "map_of (settings_state w) k")
      case None
      then have "k \<notin> set (map fst (settings_state w))" by (simp add: map_of_eq_None_iff)
      with None st(3) show ?thesis by (simp add: map_of_posted)
    next
      case (Some v)
      then have "k \<in> set (map fst (settings_state w))" by (metis domI dom_map_of_conv_image_fst list.set_map)
      with Some st(3) [rule_format, of k] show ?thesis by (simp add: map_of_posted split: option.split)
    qed
  qed (simp add: st posted_keys)
  with st(1) show ?thesis by simp
qed

lemma settings_post_run:
  assumes "tables_ok w" and "json_body rq = PDict p"
  defines "w1 \<equiv> w\<lparr>settings_state := posted p (settings_state w)\<rparr>"
  shows "settings_post E L rq w =
     (Inr (ok (PDict ((''ok'', PBool True) # settings_state w1))),
      w1\<lparr>trace := trace w @ [(Redis (HSet settings_key (setting_texts L (settings_state w1))),
          E (trace w) (Redis (HSet settings_key (setting_texts L (settings_state w1)))))]\<rparr>)"
proof -
  have "py_or (json_body rq) (PDict []) = PDict p"
    using assms(2) by (cases p) (simp_all add: py_or_def)
  then show ?thesis
    using posted_run [OF assms(1), of p]
    by (auto simp: settings_post_def save_settings_def catchp_def bindp_def seqp_def getp_def do_call_def call_def ret_def w1_def
        Let_def split: sum.split)
qed

subsection \<open>The start\<close>

lemma dict_ok_foldl: "dict_ok d \<Longrightarrow> dict_ok (foldl (\<lambda>d f. AList.update (fst f) (snd f) d) d fs)"
  by (induction fs arbitrary: d) (simp_all add: dict_ok_update)

lemma hash_of_distinct: "dict_ok (hash_of ex k h)"
proof -
  have "dict_ok (hash_step k d e)" if "dict_ok d" for d :: "(string \<times> string) list" and e
    using that by (induction k d e rule: hash_step.induct) (auto split: sum.split intro: dict_ok_foldl)
  then have "dict_ok (hash_rev ex k r)" for r by (induction r) auto
  then show ?thesis by (simp add: hash_of_def)
qed

definition texts :: "(string \<times> string) list \<Rightarrow> (string \<times> pyval) list" where
  "texts d = map (\<lambda>f. (fst f, PStr (snd f))) d"

lemma load_run:
  assumes "dict_ok d"
    and "\<And>k t v0. map_of d k = Some t \<Longrightarrow> map_of (settings_state w) k = Some v0 \<Longrightarrow> \<exists>v. read_setting v0 t = Inr v"
  shows "\<exists>st. forp (texts d) load_setting w = (Inr (), w\<lparr>settings_state := st\<rparr>)
    \<and> map fst st = map fst (settings_state w)
    \<and> (\<forall>k. map_of st k = (case (map_of (settings_state w) k, map_of d k) of
          (Some v0, Some t) \<Rightarrow> Some (projr (read_setting v0 t)) | _ \<Rightarrow> map_of (settings_state w) k))"
  using assms
proof (induction d arbitrary: w)
  case Nil
  show ?case by (intro exI [of _ "settings_state w"]) (simp add: texts_def ret_def split: option.split)
next
  case (Cons f d)
  obtain k t where f: "f = (k, t)" by (cases f)
  have d: "dict_ok d" "map_of d k = None" using Cons.prems(1) f by (auto simp: dict_ok_def map_of_eq_None_iff)
  let ?st = "case map_of (settings_state w) k of None \<Rightarrow> settings_state w
    | Some v0 \<Rightarrow> AList.update k (projr (read_setting v0 t)) (settings_state w)"
  let ?w = "w\<lparr>settings_state := ?st\<rparr>"
  have s: "settings_state ?w = ?st" by simp
  have step: "load_setting (k, PStr t) w = (Inr (), ?w)"
    using Cons.prems(2) [of k t] f
    by (auto simp: load_setting_def bindp_def getp_def ret_def lift_sum_def modifyp_def split: option.split)
  have vals: "map_of ?st j = (if j = k then (case map_of (settings_state w) k of None \<Rightarrow> None
      | Some v0 \<Rightarrow> Some (projr (read_setting v0 t))) else map_of (settings_state w) j)" for j
    by (auto simp: update_conv split: option.split)
  have keys: "map fst ?st = map fst (settings_state w)"
    by (auto split: option.split intro!: map_fst_update_known simp del: list.set_map)
      (metis domI dom_map_of_conv_image_fst list.set_map)
  have reads: "\<exists>v. read_setting v0 t' = Inr v" if "map_of d j = Some t'" "map_of (settings_state ?w) j = Some v0" for j t' v0
  proof -
    have "j \<noteq> k" using that(1) d(2) by auto
    with that vals [of j] have "map_of (f # d) j = Some t'" "map_of (settings_state w) j = Some v0"
      unfolding s by (simp_all add: f)
    then show ?thesis by (rule Cons.prems(2))
  qed
  obtain st where st: "forp (texts d) load_setting ?w = (Inr (), ?w\<lparr>settings_state := st\<rparr>)"
      "map fst st = map fst ?st"
      "\<forall>j. map_of st j = (case (map_of ?st j, map_of d j) of
          (Some v0, Some t) \<Rightarrow> Some (projr (read_setting v0 t)) | _ \<Rightarrow> map_of ?st j)"
    using Cons.IH [OF d(1), of ?w] reads unfolding s by blast
  show ?case
  proof (intro exI [of _ st] conjI allI)
    show "forp (texts (f # d)) load_setting w = (Inr (), w\<lparr>settings_state := st\<rparr>)"
      using step st(1) by (simp add: f texts_def seqp_def bindp_def)
    show "map fst st = map fst (settings_state w)" using st(2) keys by simp
    show "map_of st j = (case (map_of (settings_state w) j, map_of (f # d) j) of
        (Some v0, Some t) \<Rightarrow> Some (projr (read_setting v0 t)) | _ \<Rightarrow> map_of (settings_state w) j)" for j
      using st(3) [rule_format, of j] vals [of j] d(2) by (auto simp: f split: option.splits)
  qed
qed

text \<open>The hash of the settings after a write of all of them.\<close>

lemma saved_texts:
  assumes "\<not> ex h" and "dict_ok fs"
  shows "map_of (hash_of ex k (h @ [(Redis (HSet k fs), Inr v)])) j
    = (case map_of fs j of Some t \<Rightarrow> Some t | None \<Rightarrow> map_of (hash_of ex k h) j)"
  using assms by (simp add: hash_of_snoc dict_ok_def map_of_dict_update [unfolded dict_update_def])

lemma map_of_setting_texts: "map_of (setting_texts L st) k = map_option (py_str L) (map_of st k)"
  by (induction st) (auto simp: setting_texts_def)

lemma read_printed:
  assumes "prints_settings L" and "same_type v d"
  shows "read_setting d (py_str L v) = Inr v"
proof -
  have "lower ''True'' = ''true''" "lower ''False'' = ''false''" by code_simp+
  with assms show ?thesis by (cases v; cases d) (auto simp: prints_settings_def read_setting_def)
qed

lemma init_settings_run:
  assumes "E (trace w) (Redis (HGetAll settings_key)) = Inr (PDict (texts d))" and "d \<noteq> []" and "dict_ok d"
    and "settings_state w = default_settings" and "typed_settings st" and "prints_settings L"
    and "\<And>k v. map_of st k = Some v \<Longrightarrow> map_of d k = Some (py_str L v)"
  shows "settings_state (snd (init_settings E L w)) = st"
proof -
  have keys: "map fst st = map fst default_settings" using assms(5) by (simp add: typed_settings_def)
  have dom: "(\<exists>v. map_of st k = Some v) = (\<exists>v. map_of default_settings k = Some v)" for k
    using keys by (metis map_of_eq_None_iff list.set_map option.exhaust option.distinct(1))
  have read: "read_setting v0 t = Inr v"
    if "map_of d k = Some t" "map_of default_settings k = Some v0" "map_of st k = Some v" for k t v0 v
    using that assms(5,7) read_printed [OF assms(6)] by (auto simp: typed_settings_def)
  let ?w = "w\<lparr>trace := trace w @ [(Redis (HGetAll settings_key), Inr (PDict (texts d)))]\<rparr>"
  have s: "settings_state ?w = default_settings" using assms(4) by simp
  have "\<exists>st'. forp (texts d) load_setting ?w = (Inr (), ?w\<lparr>settings_state := st'\<rparr>)
      \<and> map fst st' = map fst (settings_state ?w)
      \<and> (\<forall>k. map_of st' k = (case (map_of (settings_state ?w) k, map_of d k) of
          (Some v0, Some t) \<Rightarrow> Some (projr (read_setting v0 t)) | _ \<Rightarrow> map_of (settings_state ?w) k))"
  proof (rule load_run [OF assms(3)])
    fix k t v0
    assume t: "map_of d k = Some t" and "map_of (settings_state ?w) k = Some v0"
    then have v0: "map_of default_settings k = Some v0" by (simp only: s)
    then obtain v where "map_of st k = Some v" using dom [of k] by auto
    with read [OF t v0] show "\<exists>v. read_setting v0 t = Inr v" by simp
  qed
  then obtain st' where st': "forp (texts d) load_setting ?w = (Inr (), ?w\<lparr>settings_state := st'\<rparr>)"
      "map fst st' = map fst default_settings"
      "\<forall>k. map_of st' k = (case (map_of default_settings k, map_of d k) of
          (Some v0, Some t) \<Rightarrow> Some (projr (read_setting v0 t)) | _ \<Rightarrow> map_of default_settings k)"
    unfolding s by blast
  have "st' = st"
  proof (rule assoc_list_eq)
    show "distinct (map fst st')" using st'(2) default_keys by simp
    show "map_of st' k = map_of st k" for k
    proof (cases "map_of st k")
      case None
      then have "map_of default_settings k = None" using dom [of k] by auto
      with None st'(3) [rule_format, of k] show ?thesis by simp
    next
      case (Some v)
      then obtain v0 where v0: "map_of default_settings k = Some v0" using dom [of k] by auto
      have t: "map_of d k = Some (py_str L v)" using Some by (rule assms(7))
      from st'(3) [rule_format, of k] read [OF t v0 Some] show ?thesis by (simp add: v0 t Some)
    qed
  qed (simp add: st' keys)
  moreover have "texts d \<noteq> []" using assms(2) by (simp add: texts_def)
  ultimately show ?thesis
    using assms(1) st'(1)
    by (simp add: init_settings_def call_as_def call_def bindp_def lift_sum_def as_dict_def catchp_def Let_def)
qed

text \<open>
C18: Settings survive a restart. When the values of a request have the types of the settings, it is
answered with 200, every setting it names is set and the others stay; and if Redis took the write and
still answers, the process started anew has exactly these settings.
\<close>

theorem settings_survive_restart:
  assumes "tables_ok w" and "json_body rq = PDict p" and "typed_payload p" and "typed_settings (settings_state w)"
    and "prints_settings L" and "redis_hash_law ex E" and "\<And>h. \<not> ex settings_key h"
    and "settings_post E L rq w = (res, w1)"
    and "snd (last (trace w1)) = Inr v" and "E (trace w1) (Redis (HGetAll settings_key)) = Inr u"
  shows "(\<exists>a. res = Inr (a, 200)) \<and> settings_state w1 = posted p (settings_state w)
    \<and> settings_state (snd (init_settings E L (restart w1))) = settings_state w1"
proof -
  let ?st = "posted p (settings_state w)"
  have w1: "res = Inr (ok (PDict ((''ok'', PBool True) # ?st)))" "settings_state w1 = ?st"
      "trace w1 = trace w @ [(Redis (HSet settings_key (setting_texts L ?st)), Inr v)]"
    using settings_post_run [OF assms(1,2), of E L] assms(8,9) by auto
  have typed: "typed_settings ?st" by (rule typed_posted [OF assms(3,4)])
  let ?d = "hash_of (ex settings_key) settings_key (trace w1)"
  have fs: "dict_ok (setting_texts L ?st)"
    using typed default_keys by (simp add: dict_ok_def setting_texts_def typed_settings_def o_def)
  have texts: "map_of ?d k = Some (py_str L x)" if "map_of ?st k = Some x" for k x
    unfolding w1 using saved_texts [OF assms(7) fs] that by (simp add: map_of_setting_texts)
  have "settings_state (snd (init_settings E L (restart w1))) = ?st"
  proof (rule init_settings_run [OF _ _ hash_of_distinct _ typed assms(5) texts])
    show "E (trace (restart w1)) (Redis (HGetAll settings_key)) = Inr (PDict (texts ?d))"
      using assms(6) [unfolded redis_hash_law_def, rule_format, OF assms(10)] assms(7,10)
      by (simp add: restart_def texts_def)
    have "map_of ?st ''autoRefresh'' \<noteq> None"
      using typed by (simp add: typed_settings_def map_of_eq_None_iff) (simp add: default_settings_def flip: list.set_map)
    with texts show "?d \<noteq> []" by force
  qed (simp_all add: restart_def)
  with w1 show ?thesis by (simp add: ok_def)
qed

theorem settings_survive_restart_witness:
  "\<exists>w1. fst (settings_post (hash_env (\<lambda>_ _. False)) ref_lib
         \<lparr>args = [], json_body = PDict [(''retentionDays'', PInt 30), (''autoRefresh'', PBool False)], files = []\<rparr> idle_soc) = Inr (w1, 200)
     \<and> map_of (settings_state (snd (init_settings (hash_env (\<lambda>_ _. False)) ref_lib (restart (snd (settings_post
         (hash_env (\<lambda>_ _. False)) ref_lib
         \<lparr>args = [], json_body = PDict [(''retentionDays'', PInt 30), (''autoRefresh'', PBool False)], files = []\<rparr> idle_soc)))))) ''retentionDays''
       = Some (PInt 30)"
proof -
  let ?p = "[(''retentionDays'', PInt 30), (''autoRefresh'', PBool False)]"
  let ?rq = "\<lparr>args = [], json_body = PDict ?p, files = []\<rparr>"
  let ?E = "hash_env (\<lambda>_ _. False)"
  obtain res w1 where post: "settings_post ?E ref_lib ?rq idle_soc = (res, w1)" by fastforce
  have t: "tables_ok idle_soc" "typed_payload ?p" "typed_settings (settings_state idle_soc)"
    by (auto simp: tables_ok_def idle_soc_def dict_ok_def typed_payload_def typed_settings_def default_settings_def)
  have L: "prints_settings ref_lib" by (simp add: prints_settings_def ref_lib_def)
  have "snd (last (trace w1)) = Inr (PInt 1)"
    using settings_post_run [OF t(1), of ?rq ?p ?E ref_lib] post by (simp add: hash_env_def)
  moreover have "\<exists>u. ?E (trace w1) (Redis (HGetAll settings_key)) = Inr u" by (simp add: hash_env_def)
  ultimately have "(\<exists>a. res = Inr (a, 200)) \<and> settings_state w1 = posted ?p (settings_state idle_soc)
      \<and> settings_state (snd (init_settings ?E ref_lib (restart w1))) = settings_state w1"
    using settings_survive_restart [OF t(1) _ t(2,3) L hash_env_law _ post] by auto
  then show ?thesis using post by (auto simp: map_of_posted idle_soc_def default_settings_def)
qed

section \<open>Live events\<close>

text \<open>The time stamp of a row, and the rows the database holds after an instant.\<close>

definition row_ts :: "(string \<times> pyval) list \<Rightarrow> string" where
  "row_ts d = (case map_of d ''first_seen_ts'' of Some (PTime t) \<Rightarrow> t | _ \<Rightarrow> [])"

definition stamped :: "(string \<times> pyval) list \<Rightarrow> bool" where
  "stamped d \<longleftrightarrow> (\<exists>t. map_of d ''first_seen_ts'' = Some (PTime t))"

definition later :: "(string \<Rightarrow> int) \<Rightarrow> string \<Rightarrow> (string \<times> pyval) list list \<Rightarrow> (string \<times> pyval) list list" where
  "later instant c db = filter (\<lambda>d. instant c < instant (row_ts d)) db"

text \<open>
  The database, the encoder and the client answer: the query for new events is answered with the first
  ten rows after its parameter.
\<close>

definition live_law :: "(string \<Rightarrow> int) \<Rightarrow> (string \<times> pyval) list list \<Rightarrow> (pyval \<Rightarrow> pyval) \<Rightarrow> env \<Rightarrow> bool" where
  "live_law instant db enc E \<longleftrightarrow>
     (\<forall>h. \<forall>c \<in> {Pg PgConnect, Pg PgClose, Sleep 2}. \<exists>v. E h c = Inr v)
     \<and> (\<forall>h q ps. \<exists>v. E h (Pg (PgExecute q ps)) = Inr v)
     \<and> (\<forall>h c x. E (h @ [(Pg (PgExecute sql_new_events [PStr c]), x)]) (Pg PgFetchAll)
          = Inr (PList (map PDict (take 10 (later instant c db)))))
     \<and> (\<forall>h v. E h (Tool (JsonDumps v)) = Inr (enc v)) \<and> (\<forall>h t. \<exists>v. E h (Http (WsSend t)) = Inr v)"

fun is_sent :: "event \<Rightarrow> bool" where
  "is_sent (Http (WsSend t), Inr v) = True"
| "is_sent e = False"

definition sent_to_client :: "hist \<Rightarrow> call list" where
  "sent_to_client h = map fst (filter is_sent h)"

lemma sent_append [simp]: "sent_to_client (h @ h') = sent_to_client h @ sent_to_client h'"
  by (simp add: sent_to_client_def)

definition live_message :: "pylib \<Rightarrow> (pyval \<Rightarrow> pyval) \<Rightarrow> (string \<times> pyval) list \<Rightarrow> call" where
  "live_message L enc d = Http (WsSend (enc (PDict [(''type'', PStr ''new_image''), (''payload'', PDict (image_row L d))])))"

definition cursor_after :: "string \<Rightarrow> (string \<times> pyval) list list \<Rightarrow> string" where
  "cursor_after c rows = (if rows = [] then c else row_ts (last rows))"

lemma map_of_iso_row: "map_of (iso_row d) k = map_option (\<lambda>v. case v of PTime t \<Rightarrow> PStr t | v \<Rightarrow> v) (map_of d k)"
  by (induction d) (auto simp: iso_row_def)

lemma image_row_ts: "stamped d \<Longrightarrow> dict_item (image_row L d) ''first_seen_ts'' = Inr (PStr (row_ts d))"
  by (auto simp: stamped_def dict_item_def image_row_def Let_def update_conv map_of_iso_row row_ts_def)

lemma ws_send_run:
  assumes "live_law instant db enc E"
  shows "\<exists>w'. ws_send E (image_row L d) w = (Inr True, w')
    \<and> sent_to_client (trace w') = sent_to_client (trace w) @ [live_message L enc d]"
proof -
  let ?v = "PDict [(''type'', PStr ''new_image''), (''payload'', PDict (image_row L d))]"
  have j: "E h (Tool (JsonDumps v)) = Inr (enc v)" for h v using assms by (simp add: live_law_def)
  obtain v where "E (trace w @ [(Tool (JsonDumps ?v), Inr (enc ?v))]) (Http (WsSend (enc ?v))) = Inr v"
    using assms unfolding live_law_def by metis
  then show ?thesis
    by (simp add: ws_send_def catchp_def bindp_def seqp_def call_def do_call_def ret_def j Let_def sent_to_client_def live_message_def)
qed

lemma ws_rows_run:
  assumes "live_law instant db enc E"
  shows "list_all stamped rows \<Longrightarrow> \<exists>w'. ws_rows E L (map PDict rows) (PStr c) w = (Inr (AllSent, PStr (cursor_after c rows)), w')
    \<and> sent_to_client (trace w') = sent_to_client (trace w) @ map (live_message L enc) rows"
proof (induction rows arbitrary: c w)
  case Nil
  show ?case by (simp add: ret_def cursor_after_def)
next
  case (Cons d rows)
  obtain w1 where w1: "ws_send E (image_row L d) w = (Inr True, w1)"
      "sent_to_client (trace w1) = sent_to_client (trace w) @ [live_message L enc d]"
    using ws_send_run [OF assms] by blast
  obtain w2 where w2: "ws_rows E L (map PDict rows) (PStr (row_ts d)) w1 = (Inr (AllSent, PStr (cursor_after (row_ts d) rows)), w2)"
      "sent_to_client (trace w2) = sent_to_client (trace w1) @ map (live_message L enc) rows"
    using Cons.IH [of "row_ts d" w1] Cons.prems by auto
  have "cursor_after c (d # rows) = cursor_after (row_ts d) rows" by (simp add: cursor_after_def)
  with w1 w2 Cons.prems show ?case
    by (simp add: as_dict_def image_row_ts Let_def bindp_def)
qed

lemma ws_pass_run:
  assumes "live_law instant db enc E" and "list_all stamped db"
  defines "rows \<equiv> \<lambda>c. take 10 (later instant c db)"
  shows "\<exists>w'. ws_pass E L (PStr c) w = (Inr (True, PStr (cursor_after c (rows c))), w')
    \<and> sent_to_client (trace w') = sent_to_client (trace w) @ map (live_message L enc) (rows c)"
proof -
  have ans: "\<exists>v. E h c = Inr v" if "c \<in> {Pg PgConnect, Pg PgClose, Sleep 2}" for h c
    using assms(1) that unfolding live_law_def by blast
  have st: "list_all stamped (rows c)"
    using assms(2) by (auto simp: rows_def later_def list_all_iff dest!: in_set_takeD)
  obtain v1 where v1: "E (trace w) (Pg PgConnect) = Inr v1" using ans by blast
  let ?w1 = "w\<lparr>trace := trace w @ [(Pg PgConnect, Inr v1)]\<rparr>"
  obtain v2 where v2: "E (trace ?w1) (Pg (PgExecute sql_new_events [PStr c])) = Inr v2"
    using assms(1) unfolding live_law_def by blast
  let ?e = "(Pg (PgExecute sql_new_events [PStr c]), Inr v2)"
  have v3: "E (trace ?w1 @ [?e]) (Pg PgFetchAll) = Inr (PList (map PDict (rows c)))"
    using assms(1) unfolding live_law_def rows_def by blast
  let ?w3 = "w\<lparr>trace := trace ?w1 @ [?e] @ [(Pg PgFetchAll, Inr (PList (map PDict (rows c))))]\<rparr>"
  obtain w4 where w4: "ws_rows E L (map PDict (rows c)) (PStr c) ?w3 = (Inr (AllSent, PStr (cursor_after c (rows c))), w4)"
      "sent_to_client (trace w4) = sent_to_client (trace ?w3) @ map (live_message L enc) (rows c)"
    using ws_rows_run [OF assms(1) st] by blast
  have q: "ws_query E L (PStr c) ?w1 = (Inr (AllSent, PStr (cursor_after c (rows c))), w4)"
    using v2 v3 w4(1)
    by (simp add: ws_query_def fetch_rows_def catchp_def bindp_def seqp_def do_call_def call_as_def call_def ret_def
        lift_sum_def as_list_def Let_def)
  obtain v5 where v5: "E (trace w4) (Pg PgClose) = Inr v5" using ans by blast
  obtain v6 where v6: "E (trace w4 @ [(Pg PgClose, Inr v5)]) (Sleep 2) = Inr v6" using ans by blast
  have "ws_pass E L (PStr c) w = (Inr (True, PStr (cursor_after c (rows c))),
      w4\<lparr>trace := trace w4 @ [(Pg PgClose, Inr v5), (Sleep 2, Inr v6)]\<rparr>)"
    using v1 q v5 v6
    by (simp add: ws_pass_def catchp_def bindp_def seqp_def do_call_def call_def ret_def Let_def)
  with w4(2) show ?thesis by (simp add: sent_to_client_def)
qed

definition in_time_order :: "(string \<Rightarrow> int) \<Rightarrow> (string \<times> pyval) list list \<Rightarrow> bool" where
  "in_time_order instant db \<longleftrightarrow> sorted_wrt (\<lambda>a b. instant (row_ts a) < instant (row_ts b)) db"

lemma sorted_wrt_last: "sorted_wrt R ys \<Longrightarrow> x \<in> set ys \<Longrightarrow> x = last ys \<or> R x (last ys)"
  by (induction ys) auto

lemma later_after:
  assumes "in_time_order instant db"
  shows "later instant (cursor_after c (take 10 (later instant c db))) db = drop 10 (later instant c db)"
proof (cases "later instant c db = []")
  case True
  then show ?thesis by (simp add: cursor_after_def)
next
  case False
  let ?xs = "later instant c db"
  let ?l = "last (take 10 ?xs)" and ?lt = "\<lambda>a b. instant (row_ts a) < instant (row_ts b)"
  have ne: "take 10 ?xs \<noteq> []" using False by simp
  have l: "instant c < instant (row_ts ?l)"
    using in_set_takeD [OF last_in_set [OF ne]] by (simp add: later_def)
  have "sorted_wrt ?lt (take 10 ?xs @ drop 10 ?xs)"
    using assms by (simp add: in_time_order_def later_def sorted_wrt_filter)
  then have s: "sorted_wrt ?lt (take 10 ?xs)" "\<And>a b. a \<in> set (take 10 ?xs) \<Longrightarrow> b \<in> set (drop 10 ?xs) \<Longrightarrow> ?lt a b"
    unfolding sorted_wrt_append by blast+
  have upto: "\<not> ?lt ?l a" if "a \<in> set (take 10 ?xs)" for a
    using sorted_wrt_last [OF s(1) that] by auto
  have "later instant (row_ts ?l) db = filter (?lt ?l) ?xs"
    using l by (auto simp: later_def intro!: filter_cong)
  also have "\<dots> = filter (?lt ?l) (take 10 ?xs) @ filter (?lt ?l) (drop 10 ?xs)"
    by (metis append_take_drop_id filter_append)
  also have "\<dots> = drop 10 ?xs"
    using upto s(2) [OF last_in_set [OF ne]] by (simp add: filter_empty_conv filter_id_conv)
  finally show ?thesis using ne by (simp add: cursor_after_def)
qed


definition live_env :: "(string \<times> pyval) list list \<Rightarrow> env" where
  "live_env db h c = (case c of
       Pg PgFetchAll \<Rightarrow>
         (if h = [] then Inr (PList [])
          else case fst (last h) of
               Pg (PgExecute q [PStr t]) \<Rightarrow> Inr (PList (map PDict (take 10 (later (\<lambda>t. int (length t)) t db))))
             | _ \<Rightarrow> Inr (PList []))
     | Tool (JsonDumps v) \<Rightarrow> Inr v
     | _ \<Rightarrow> Inr PNone)"

definition live_db :: "(string \<times> pyval) list list" where
  "live_db = [[(''first_seen_ts'', PTime ''1'')], [(''first_seen_ts'', PTime ''22'')]]"

lemma live_env_law: "live_law (\<lambda>t. int (length t)) db (\<lambda>v. v) (live_env db)"
  by (simp add: live_law_def live_env_def)


end
