(* ===== verification/Training.thy ===== *)
theory Training
  imports Effects "HOL-Library.Multiset" "HOL-Library.List_Lexorder" "HOL-Library.Char_ord"
begin

text \<open>
  CALPA-NET-master, the training and the evaluation of the networks: libs/psm/utils_multistep_lr_srnet.py,
  libs/psm/utils_multistep_lr_xunet.py, libs/srnet/utils_multistep_lr.py and the generators that feed
  them. TensorFlow runs the graph: the network, its gradients and the learning rate are parameters
  (record \<open>learner\<close>); the session's variables are the state, and a \<^verbatim>\<open>sess.run\<close> is one step on it, which
  takes one batch from the selected queue. Printing and timing are not modelled.
\<close>

section \<open>Generators and queues\<close>

text \<open>The lists of covers and stegos, with the assertions on them.\<close>

definition path_list :: "string \<Rightarrow> string list" where
  "path_list t = (let ls = split_on newline t in map strip (if last ls = [] then butlast ls else ls))"

definition check_lists :: "string list \<Rightarrow> string list \<Rightarrow> exn + unit" where
  "check_lists cover_list stego_list =
     (if stego_list = [] then Inl (Exn OtherErr ''the stego txt file is empty'')
      else if cover_list = [] then Inl (Exn OtherErr ''the cover txt file is empty'')
      else if length stego_list \<noteq> length cover_list
      then Inl (Exn OtherErr (''the cover txt file and the stego txt file don't have the same number of files respectively ''
                 @ int_str (int (length cover_list)) @ '' and '' @ int_str (int (length stego_list))))
      else Inr ())"

text \<open>
  What the runner's queue holds after the generator for validation: each pair of files is enqueued as
  two examples, the cover with label 0 and the stego with label 1, over and over.
\<close>

definition pair_examples :: "string \<times> string \<Rightarrow> (string \<times> nat) list" where
  "pair_examples p = [(fst p, 0), (snd p, 1)]"

definition epoch :: "string list \<Rightarrow> string list \<Rightarrow> (string \<times> nat) list" where
  "epoch cover_list stego_list = concat (map pair_examples (zip cover_list stego_list))"

definition cycle_of :: "'a list \<Rightarrow> nat \<Rightarrow> 'a" where
  "cycle_of xs k = xs ! (k mod length xs)"

definition gen_train_or_valid_psm :: "string \<Rightarrow> string \<Rightarrow> exn + (nat \<Rightarrow> string \<times> nat)" where
  "gen_train_or_valid_psm cover_txt stego_txt =
     (let cover_list = path_list cover_txt; stego_list = path_list stego_txt
      in case check_lists cover_list stego_list of
           Inl e \<Rightarrow> Inl e | Inr u \<Rightarrow> Inr (cycle_of (epoch cover_list stego_list)))"

text \<open>
  The generator for training: \<open>order e\<close> is the shuffled list of pairs in epoch \<open>e\<close>, \<open>rot\<close> and \<open>coin\<close> are
  the random numbers of a yield; both images of a pair are turned the same way.
\<close>

definition flip_and_rot :: "(nat \<Rightarrow> 'im \<Rightarrow> 'im) \<Rightarrow> ('im \<Rightarrow> 'im) \<Rightarrow> (string \<Rightarrow> 'im) \<Rightarrow> nat \<Rightarrow> pyfloat \<Rightarrow> string \<times> string
    \<Rightarrow> ('im \<times> nat) list" where
  "flip_and_rot rot90 flip load rot coin p =
     (let turn = (\<lambda>im. if coin < 1 / 2 then rot90 rot im else flip (rot90 rot im))
      in [(turn (load (fst p)), 0), (turn (load (snd p)), 1)])"

definition gen_flip_and_rot_psm :: "(nat \<Rightarrow> 'im \<Rightarrow> 'im) \<Rightarrow> ('im \<Rightarrow> 'im) \<Rightarrow> (string \<Rightarrow> 'im) \<Rightarrow> (nat \<Rightarrow> (string \<times> string) list)
    \<Rightarrow> (nat \<Rightarrow> nat) \<Rightarrow> (nat \<Rightarrow> pyfloat) \<Rightarrow> nat \<Rightarrow> ('im \<times> nat) list" where
  "gen_flip_and_rot_psm rot90 flip load order rot coin k =
     (let n = length (order 0) in flip_and_rot rot90 flip load (rot k) (coin k) (order (k div n) ! (k mod n)))"

text \<open>
  libs/srnet/generator.py takes two directories: all their files that are not hidden, sorted by path.
\<close>

definition glob_all :: "(string \<Rightarrow> string list) \<Rightarrow> string \<Rightarrow> string list" where
  "glob_all listdir dir = sort (map (\<lambda>nm. dir @ ''/'' @ nm) (filter (\<lambda>nm. \<not> startswith nm ''.'') (listdir dir)))"

definition check_dirs :: "string \<Rightarrow> string \<Rightarrow> string list \<Rightarrow> string list \<Rightarrow> exn + unit" where
  "check_dirs cover_dir stego_dir cover_list stego_list =
     (if stego_list = [] then Inl (Exn OtherErr (''the stego directory '' @ [CHR 0x27] @ stego_dir @ [CHR 0x27] @ '' is empty''))
      else if cover_list = [] then Inl (Exn OtherErr (''the cover directory '' @ [CHR 0x27] @ cover_dir @ [CHR 0x27] @ '' is empty''))
      else if length stego_list \<noteq> length cover_list
      then Inl (Exn OtherErr (''the cover directory and the stego directory don't have the same number of files respectively ''
                 @ int_str (int (length cover_list)) @ '' and '' @ int_str (int (length stego_list))))
      else Inr ())"

definition gen_valid :: "(string \<Rightarrow> string list) \<Rightarrow> string \<Rightarrow> string \<Rightarrow> exn + (nat \<Rightarrow> string \<times> nat)" where
  "gen_valid listdir cover_dir stego_dir =
     (let cover_list = glob_all listdir cover_dir; stego_list = glob_all listdir stego_dir
      in case check_dirs cover_dir stego_dir cover_list stego_list of
           Inl e \<Rightarrow> Inl e | Inr u \<Rightarrow> Inr (cycle_of (epoch cover_list stego_list)))"

lemma prefix_mono: "x \<le> y \<Longrightarrow> p @ x \<le> p @ (y :: string)"
  by (induction p) simp_all

lemma sort_prefixed: "sort (map ((@) p) xs) = map ((@) p) (sort (xs :: string list))"
proof (rule properties_for_sort)
  show "mset (map ((@) p) (sort xs)) = mset (map ((@) p) xs)" by simp
  show "sorted (map ((@) p) (sort xs))"
    unfolding sorted_wrt_map by (rule sorted_wrt_mono_rel [OF prefix_mono sorted_sort])
qed

text \<open>Directories with the same files, in whatever order they are listed, are paired file by file.\<close>

lemma gen_valid_pairs:
  assumes "mset (listdir cover_dir) = mset (listdir stego_dir)"
    and "names = sort (filter (\<lambda>nm. \<not> startswith nm ''.'') (listdir cover_dir))" and "names \<noteq> []"
  shows "gen_valid listdir cover_dir stego_dir =
    Inr (cycle_of (concat (map (\<lambda>nm. [(cover_dir @ ''/'' @ nm, 0), (stego_dir @ ''/'' @ nm, 1)]) names)))"
proof -
  have "sort (filter (\<lambda>nm. \<not> startswith nm ''.'') (listdir stego_dir)) = names"
    unfolding assms(2) by (rule properties_for_sort) (simp_all add: assms(1))
  moreover have path: "(\<lambda>nm. d @ ''/'' @ nm) = (@) (d @ ''/'')" for d :: string by (simp add: fun_eq_iff)
  ultimately have "glob_all listdir cover_dir = map ((@) (cover_dir @ ''/'')) names"
      "glob_all listdir stego_dir = map ((@) (stego_dir @ ''/'')) names"
    by (simp_all only: glob_all_def path sort_prefixed assms(2))
  moreover have "concat (map pair_examples (zip (map f names) (map g names))) = concat (map (\<lambda>nm. [(f nm, 0), (g nm, 1)]) names)" for f g
    by (induction names) (simp_all add: pair_examples_def)
  ultimately show ?thesis using assms(3) by (simp add: gen_valid_def check_dirs_def epoch_def)
qed

section \<open>The session\<close>

datatype metric = TrainLoss | TrainAccuracy | ValidLoss | ValidAccuracy | TestLoss | TestAccuracy

record train_cfg =
  train_batch_size :: int
  valid_batch_size :: int
  valid_ds_size :: int
  test_batch_size :: int
  test_ds_size :: int
  train_interval :: int
  valid_interval :: int
  test_interval :: int
  save_interval :: int
  max_iter :: int
  log_path :: string
  load_path :: "string option"

text \<open>
  \<open>forward\<close> gives the two outputs of the network for each image of a batch (a batch in training mode
  is normalised as a whole), \<open>minimize\<close> is a step of the optimizer with a learning rate.
\<close>

record ('p, 'x) learner =
  forward :: "'p \<Rightarrow> bool \<Rightarrow> 'x list \<Rightarrow> (pyfloat \<times> pyfloat) list"
  label_of :: "'x \<Rightarrow> nat"
  cross_entropy :: "pyfloat \<times> pyfloat \<Rightarrow> nat \<Rightarrow> pyfloat"
  reg_loss :: "'p \<Rightarrow> pyfloat"
  minimize :: "pyfloat \<Rightarrow> 'p \<Rightarrow> 'x list \<Rightarrow> 'p"
  schedule :: "int \<Rightarrow> pyfloat"
  examples :: "nat \<Rightarrow> nat \<Rightarrow> 'x"

record 'p checkpoint =
  ck_params :: 'p
  ck_training :: bool
  ck_sel :: nat
  ck_step :: int

record 'p session =
  ts_params :: 'p
  ts_training :: bool
  ts_sel :: nat
  ts_batch :: int
  ts_step :: int
  ts_sums :: "metric \<Rightarrow> pyfloat"
  ts_fed :: "nat \<Rightarrow> nat"
  ts_log :: "(metric \<times> pyfloat \<times> int) list"
  ts_rates :: "(pyfloat \<times> int) list"
  ts_saved :: "(string \<times> 'p checkpoint) list"

definition mean :: "pyfloat list \<Rightarrow> pyfloat" where
  "mean xs = sum_list xs / of_nat (length xs)"

text \<open>\<^verbatim>\<open>tf.argmax\<close> takes the first of equal outputs.\<close>

definition predicted :: "pyfloat \<times> pyfloat \<Rightarrow> nat" where
  "predicted out = (if fst out < snd out then 1 else 0)"

definition build_losses :: "('p, 'x) learner \<Rightarrow> 'p \<Rightarrow> bool \<Rightarrow> 'x list \<Rightarrow> pyfloat \<times> pyfloat" where
  "build_losses N p training batch =
     (let outs = forward N p training batch; labels = map (label_of N) batch
      in (mean (map2 (cross_entropy N) outs labels) + reg_loss N p,
          mean (map2 (\<lambda>out l. if predicted out = l then 1 else 0) outs labels)))"

text \<open>The divisor of an \<^verbatim>\<open>average_summary\<close>.\<close>

definition num_iterations :: "train_cfg \<Rightarrow> metric \<Rightarrow> pyfloat" where
  "num_iterations cfg m =
     (case m of
        TrainLoss \<Rightarrow> of_int (train_interval cfg) | TrainAccuracy \<Rightarrow> of_int (train_interval cfg)
      | ValidLoss \<Rightarrow> of_int (valid_ds_size cfg) / of_int (valid_batch_size cfg)
      | ValidAccuracy \<Rightarrow> of_int (valid_ds_size cfg) / of_int (valid_batch_size cfg)
      | TestLoss \<Rightarrow> of_int (test_ds_size cfg) / of_int (test_batch_size cfg)
      | TestAccuracy \<Rightarrow> of_int (test_ds_size cfg) / of_int (test_batch_size cfg))"

definition mean_variable :: "train_cfg \<Rightarrow> metric \<Rightarrow> 'p session \<Rightarrow> pyfloat" where
  "mean_variable cfg m s = ts_sums s m / num_iterations cfg m"

definition add_summary :: "train_cfg \<Rightarrow> metric \<Rightarrow> int \<Rightarrow> ('p session, unit) prog" where
  "add_summary cfg m step =
     modifyp (\<lambda>s. s\<lparr>ts_log := ts_log s @ [(m, mean_variable cfg m s, step)], ts_sums := (ts_sums s)(m := 0)\<rparr>)"

definition same_size :: "train_cfg \<Rightarrow> bool" where
  "same_size cfg \<longleftrightarrow> train_batch_size cfg = valid_batch_size cfg"

definition cur_batch_size :: "train_cfg \<Rightarrow> 'p session \<Rightarrow> int" where
  "cur_batch_size cfg s = (if same_size cfg then train_batch_size cfg else ts_batch s)"

text \<open>One batch from queue \<open>q\<close>: 0 for training, 1 for validation, 2 for test.\<close>

definition dequeue_many :: "('p, 'x) learner \<Rightarrow> nat \<Rightarrow> int \<Rightarrow> ('p session, 'x list) prog" where
  "dequeue_many N q n s =
     (let k = ts_fed s q in (Inr (map (examples N q) [k..<k + nat n]), s\<lparr>ts_fed := (ts_fed s)(q := k + nat n)\<rparr>))"

definition next_batch :: "('p, 'x) learner \<Rightarrow> train_cfg \<Rightarrow> ('p session \<Rightarrow> nat) \<Rightarrow> ('p session, 'x list) prog" where
  "next_batch N cfg sel = bindp (getp (\<lambda>s. (sel s, cur_batch_size cfg s))) (\<lambda>(q, n). dequeue_many N q n)"

definition count_losses :: "('p, 'x) learner \<Rightarrow> metric \<Rightarrow> metric \<Rightarrow> 'x list \<Rightarrow> 'p session \<Rightarrow> 'p session" where
  "count_losses N ml ma batch s =
     (let (l, a) = build_losses N (ts_params s) (ts_training s) batch
      in s\<lparr>ts_sums := (ts_sums s)(ml := ts_sums s ml + l, ma := ts_sums s ma + a)\<rparr>)"

definition increment_op :: "('p, 'x) learner \<Rightarrow> train_cfg \<Rightarrow> ('p session \<Rightarrow> nat) \<Rightarrow> metric \<Rightarrow> metric \<Rightarrow> ('p session, unit) prog" where
  "increment_op N cfg sel ml ma = bindp (next_batch N cfg sel) (\<lambda>batch. modifyp (count_losses N ml ma batch))"

definition train_op :: "('p, 'x) learner \<Rightarrow> train_cfg \<Rightarrow> ('p session \<Rightarrow> nat) \<Rightarrow> ('p session, unit) prog" where
  "train_op N cfg sel =
     bindp (next_batch N cfg sel) (\<lambda>batch.
     modifyp (\<lambda>s. (count_losses N TrainLoss TrainAccuracy batch s)
       \<lparr>ts_params := minimize N (schedule N (ts_step s)) (ts_params s) batch, ts_step := ts_step s + 1\<rparr>))"

definition write_rate :: "('p, 'x) learner \<Rightarrow> int \<Rightarrow> ('p session, unit) prog" where
  "write_rate N i = modifyp (\<lambda>s. s\<lparr>ts_rates := ts_rates s @ [(schedule N (ts_step s), i)]\<rparr>)"

definition checkpoint_of :: "'p session \<Rightarrow> 'p checkpoint" where
  "checkpoint_of s = \<lparr>ck_params = ts_params s, ck_training = ts_training s, ck_sel = ts_sel s, ck_step = ts_step s\<rparr>"

definition save_path :: "train_cfg \<Rightarrow> int \<Rightarrow> string" where
  "save_path cfg i = log_path cfg @ ''/Model_'' @ int_str i @ ''.ckpt''"

definition save_model :: "train_cfg \<Rightarrow> int \<Rightarrow> ('p session, unit) prog" where
  "save_model cfg i = modifyp (\<lambda>s. s\<lparr>ts_saved := ts_saved s @ [(save_path cfg i, checkpoint_of s)]\<rparr>)"

text \<open>
  The operations that switch between the data sets. When the batch sizes of training and validation
  are equal the queue is not switched, and \<^verbatim>\<open>enable_test_op\<close> is not defined.
\<close>

definition disable_training :: "train_cfg \<Rightarrow> ('p session, unit) prog" where
  "disable_training cfg =
     modifyp (\<lambda>s. if same_size cfg then s\<lparr>ts_training := False\<rparr>
       else s\<lparr>ts_training := False, ts_batch := valid_batch_size cfg, ts_sel := 1\<rparr>)"

definition enable_training :: "train_cfg \<Rightarrow> ('p session, unit) prog" where
  "enable_training cfg =
     modifyp (\<lambda>s. if same_size cfg then s\<lparr>ts_training := True\<rparr>
       else s\<lparr>ts_training := True, ts_batch := train_batch_size cfg, ts_sel := 0\<rparr>)"

definition name_error :: exn where
  "name_error = Exn OtherErr ''local variable 'enable_test_op' referenced before assignment''"

definition enable_test :: "train_cfg \<Rightarrow> ('p session, unit) prog" where
  "enable_test cfg =
     (if same_size cfg then raise name_error
      else modifyp (\<lambda>s. s\<lparr>ts_training := False, ts_batch := test_batch_size cfg, ts_sel := 2\<rparr>))"

text \<open>\<^verbatim>\<open>sess.run(batch_size)\<close>, which is only printed: a plain integer cannot be fetched.\<close>

definition show_batch_size :: "train_cfg \<Rightarrow> ('p session, unit) prog" where
  "show_batch_size cfg =
     (if same_size cfg then raise (Exn TypeErr ''Fetch argument has invalid type int, must be a string or Tensor'') else ret ())"

section \<open>The loop\<close>

text \<open>\<^verbatim>\<open>i % n == 0\<close>, and the number of steps of \<^verbatim>\<open>range(0, ds, bs)\<close>.\<close>

definition every :: "int \<Rightarrow> int \<Rightarrow> exn + bool" where
  "every n i = (if n = 0 then Inl (Exn OtherErr ''integer division or modulo by zero'') else Inr (i mod n = 0))"

definition range_len :: "int \<Rightarrow> int \<Rightarrow> exn + nat" where
  "range_len ds bs =
     (if bs = 0 then Inl (Exn ValueError ''range() step argument must not be zero'')
      else Inr (nat (if 0 < bs then (ds + bs - 1) div bs else (ds + bs + 1) div bs)))"

definition evaluate_set :: "('p, 'x) learner \<Rightarrow> train_cfg \<Rightarrow> ('p session \<Rightarrow> nat) \<Rightarrow> int \<Rightarrow> int \<Rightarrow> metric \<Rightarrow> metric
    \<Rightarrow> ('p session, unit) prog" where
  "evaluate_set N cfg sel ds bs ml ma =
     bindp (lift_sum (range_len ds bs)) (\<lambda>n. forp [0..<n] (\<lambda>_. increment_op N cfg sel ml ma))"

definition on_every :: "int \<Rightarrow> int \<Rightarrow> ('s, unit) prog \<Rightarrow> ('s, unit) prog" where
  "on_every n i m = bindp (lift_sum (every n i)) (\<lambda>b. whenp b m)"

definition report_training :: "('p, 'x) learner \<Rightarrow> train_cfg \<Rightarrow> int \<Rightarrow> ('p session, unit) prog" where
  "report_training N cfg i =
     seqp (add_summary cfg TrainLoss i) (seqp (add_summary cfg TrainAccuracy i) (write_rate N i))"

definition validate :: "('p, 'x) learner \<Rightarrow> train_cfg \<Rightarrow> ('p session \<Rightarrow> nat) \<Rightarrow> int \<Rightarrow> ('p session, unit) prog" where
  "validate N cfg sel i =
     seqp (disable_training cfg)
    (seqp (show_batch_size cfg)
    (seqp (evaluate_set N cfg sel (valid_ds_size cfg) (valid_batch_size cfg) ValidLoss ValidAccuracy)
    (seqp (add_summary cfg ValidLoss i)
    (seqp (add_summary cfg ValidAccuracy i) (enable_training cfg)))))"

definition run_test :: "('p, 'x) learner \<Rightarrow> train_cfg \<Rightarrow> ('p session \<Rightarrow> nat) \<Rightarrow> int \<Rightarrow> ('p session, unit) prog" where
  "run_test N cfg sel i =
     seqp (enable_test cfg)
    (seqp (show_batch_size cfg)
    (seqp (evaluate_set N cfg sel (test_ds_size cfg) (test_batch_size cfg) TestLoss TestAccuracy)
    (seqp (add_summary cfg TestLoss i)
    (seqp (add_summary cfg TestAccuracy i) (enable_training cfg)))))"

definition train_iteration :: "('p, 'x) learner \<Rightarrow> train_cfg \<Rightarrow> int \<Rightarrow> ('p session, unit) prog" where
  "train_iteration N cfg i =
     seqp (train_op N cfg ts_sel)
    (seqp (on_every (train_interval cfg) i (report_training N cfg i))
    (seqp (on_every (valid_interval cfg) i (validate N cfg ts_sel i))
    (seqp (on_every (test_interval cfg) i (run_test N cfg ts_sel i))
          (on_every (save_interval cfg) i (save_model cfg i)))))"

definition init_session :: "'p \<Rightarrow> train_cfg \<Rightarrow> 'p session" where
  "init_session p0 cfg =
     \<lparr>ts_params = p0, ts_training = True, ts_sel = 0, ts_batch = train_batch_size cfg, ts_step = 0, ts_sums = (\<lambda>m. 0),
      ts_fed = (\<lambda>q. 0), ts_log = [], ts_rates = [], ts_saved = []\<rparr>"

text \<open>\<^verbatim>\<open>saver.restore\<close>: all global variables of the graph; the batch size is a local one.\<close>

definition restore_model :: "(string \<Rightarrow> exn + 'p checkpoint) \<Rightarrow> string option \<Rightarrow> ('p session, unit) prog" where
  "restore_model load path =
     (case path of
        None \<Rightarrow> ret ()
      | Some p \<Rightarrow>
          bindp (lift_sum (load p)) (\<lambda>ck.
          modifyp (\<lambda>s. s\<lparr>ts_params := ck_params ck, ts_training := ck_training ck, ts_sel := ck_sel ck, ts_step := ck_step ck\<rparr>)))"

definition reset_sums :: "('p session, unit) prog" where
  "reset_sums = modifyp (\<lambda>s. s\<lparr>ts_sums := (\<lambda>m. 0)\<rparr>)"

text \<open>\<^verbatim>\<open>train\<close> and \<^verbatim>\<open>xunet_train\<close>; they differ in the learning rate and the optimizer.\<close>

definition train :: "('p, 'x) learner \<Rightarrow> train_cfg \<Rightarrow> (string \<Rightarrow> exn + 'p checkpoint) \<Rightarrow> 'p
    \<Rightarrow> (exn + unit) \<times> 'p session" where
  "train N cfg load p0 =
     seqp (restore_model load (load_path cfg))
    (bindp (getp ts_step) (\<lambda>start.
     seqp reset_sums
    (seqp (enable_training cfg)
          (forp [start + 1..max_iter cfg] (train_iteration N cfg))))) (init_session p0 cfg)"

text \<open>
  libs/srnet/utils_multistep_lr.py: the queue is selected by the mode of training, there is no test
  set, and the network is evaluated once before the first step.
\<close>

definition by_mode :: "'p session \<Rightarrow> nat" where
  "by_mode s = (if ts_training s then 0 else 1)"

definition srnet_disable_training :: "train_cfg \<Rightarrow> ('p session, unit) prog" where
  "srnet_disable_training cfg =
     modifyp (\<lambda>s. if same_size cfg then s\<lparr>ts_training := False\<rparr>
       else s\<lparr>ts_training := False, ts_batch := valid_batch_size cfg\<rparr>)"

definition srnet_enable_training :: "train_cfg \<Rightarrow> ('p session, unit) prog" where
  "srnet_enable_training cfg =
     modifyp (\<lambda>s. if same_size cfg then s\<lparr>ts_training := True\<rparr>
       else s\<lparr>ts_training := True, ts_batch := train_batch_size cfg\<rparr>)"

definition srnet_validate :: "('p, 'x) learner \<Rightarrow> train_cfg \<Rightarrow> int \<Rightarrow> ('p session, unit) prog" where
  "srnet_validate N cfg i =
     seqp (srnet_disable_training cfg)
    (seqp (evaluate_set N cfg by_mode (valid_ds_size cfg) (valid_batch_size cfg) ValidLoss ValidAccuracy)
    (seqp (add_summary cfg ValidLoss i)
    (seqp (add_summary cfg ValidAccuracy i) (srnet_enable_training cfg))))"

definition srnet_iteration :: "('p, 'x) learner \<Rightarrow> train_cfg \<Rightarrow> int \<Rightarrow> ('p session, unit) prog" where
  "srnet_iteration N cfg i =
     seqp (train_op N cfg by_mode)
    (seqp (on_every (train_interval cfg) i (report_training N cfg i))
    (seqp (on_every (valid_interval cfg) i (srnet_validate N cfg i))
          (on_every (save_interval cfg) i (save_model cfg i))))"

definition srnet_train :: "('p, 'x) learner \<Rightarrow> train_cfg \<Rightarrow> (string \<Rightarrow> exn + 'p checkpoint) \<Rightarrow> 'p
    \<Rightarrow> (exn + unit) \<times> 'p session" where
  "srnet_train N cfg load p0 =
     seqp (restore_model load (load_path cfg))
    (bindp (getp ts_step) (\<lambda>start.
     seqp (srnet_disable_training cfg)
    (seqp reset_sums
    (seqp (evaluate_set N cfg by_mode (valid_ds_size cfg) (valid_batch_size cfg) ValidLoss ValidAccuracy)
    (seqp (add_summary cfg ValidAccuracy start)
    (seqp (add_summary cfg ValidLoss start)
    (seqp (srnet_enable_training cfg)
          (forp [start + 1..max_iter cfg] (srnet_iteration N cfg))))))))) (init_session p0 cfg)"

section \<open>Evaluation of a trained network\<close>

text \<open>Queue 0 is the only one; the sums of the loss and the accuracy are those of \<open>TestLoss\<close> and \<open>TestAccuracy\<close>.\<close>

definition test_cfg :: "int \<Rightarrow> int \<Rightarrow> string \<Rightarrow> train_cfg" where
  "test_cfg batch_size ds_size path =
     \<lparr>train_batch_size = batch_size, valid_batch_size = batch_size, valid_ds_size = ds_size, test_batch_size = batch_size,
      test_ds_size = ds_size, train_interval = 1, valid_interval = 1, test_interval = 1, save_interval = 1, max_iter = 0,
      log_path = [], load_path = Some path\<rparr>"

definition test_session :: "'p checkpoint \<Rightarrow> int \<Rightarrow> 'p session" where
  "test_session ck batch_size =
     \<lparr>ts_params = ck_params ck, ts_training = False, ts_sel = 0, ts_batch = batch_size, ts_step = ck_step ck,
      ts_sums = (\<lambda>m. 0), ts_fed = (\<lambda>q. 0), ts_log = [], ts_rates = [], ts_saved = []\<rparr>"

definition mean_results :: "train_cfg \<Rightarrow> ('p session, pyfloat \<times> pyfloat) prog" where
  "mean_results cfg = getp (\<lambda>s. (mean_variable cfg TestLoss s, mean_variable cfg TestAccuracy s))"

text \<open>\<^verbatim>\<open>test_dataset\<close> and \<^verbatim>\<open>xunet_test\<close>: the mean loss and the mean accuracy.\<close>

definition test_dataset :: "('p, 'x) learner \<Rightarrow> int \<Rightarrow> int \<Rightarrow> (string \<Rightarrow> exn + 'p checkpoint) \<Rightarrow> string
    \<Rightarrow> exn + pyfloat \<times> pyfloat" where
  "test_dataset N batch_size ds_size load path =
     (let cfg = test_cfg batch_size ds_size path
      in case load path of
           Inl e \<Rightarrow> Inl e
         | Inr ck \<Rightarrow> fst (seqp (evaluate_set N cfg ts_sel ds_size batch_size TestLoss TestAccuracy) (mean_results cfg)
                           (test_session ck batch_size)))"

text \<open>
  \<^verbatim>\<open>test_dataset_and_get_csv\<close>: the loss, the labels and the predictions of a round are three runs of the
  graph, so each of them takes a batch of its own. \<open>prob\<close> is the softmax output for stego.
\<close>

definition csv_round :: "('p, 'x) learner \<Rightarrow> (pyfloat \<times> pyfloat \<Rightarrow> pyfloat) \<Rightarrow> train_cfg
    \<Rightarrow> ('p session, pyfloat list \<times> nat list) prog" where
  "csv_round N prob cfg =
     seqp (increment_op N cfg ts_sel TestLoss TestAccuracy)
    (bindp (next_batch N cfg ts_sel) (\<lambda>labelled.
     bindp (next_batch N cfg ts_sel) (\<lambda>batch.
     bindp (getp ts_params) (\<lambda>p.
     ret (map prob (forward N p False batch), map (\<lambda>x. if label_of N x = 1 then 1 else 0) labelled)))))"

definition test_dataset_and_get_csv :: "('p, 'x) learner \<Rightarrow> (pyfloat \<times> pyfloat \<Rightarrow> pyfloat) \<Rightarrow> int \<Rightarrow> int
    \<Rightarrow> (string \<Rightarrow> exn + 'p checkpoint) \<Rightarrow> string \<Rightarrow> exn + (pyfloat list \<times> nat list) \<times> pyfloat \<times> pyfloat" where
  "test_dataset_and_get_csv N prob batch_size ds_size load path =
     (let cfg = test_cfg batch_size ds_size path
      in case load path of
           Inl e \<Rightarrow> Inl e
         | Inr ck \<Rightarrow>
             fst (bindp (lift_sum (range_len ds_size batch_size)) (\<lambda>n.
                  bindp (mapp (\<lambda>_. csv_round N prob cfg) [0..<n]) (\<lambda>rounds.
                  bindp (mean_results cfg) (\<lambda>means.
                  ret ((concat (map fst rounds), concat (map snd rounds)), means)))) (test_session ck batch_size)))"

section \<open>Adamax\<close>

text \<open>One number of a variable with its two slots; the learning rate, the decay rates and the epsilon.\<close>

record adamax =
  am_var :: pyfloat
  am_m :: pyfloat
  am_v :: pyfloat

definition adamax_eps :: "bool \<Rightarrow> pyfloat" where
  "adamax_eps is_float16 = (if is_float16 then 1 / 10000000 else 1 / 100000000)"

definition create_slots :: "pyfloat \<Rightarrow> adamax" where
  "create_slots x = \<lparr>am_var = x, am_m = 0, am_v = 0\<rparr>"

definition apply_dense :: "pyfloat \<Rightarrow> pyfloat \<Rightarrow> pyfloat \<Rightarrow> pyfloat \<Rightarrow> pyfloat \<Rightarrow> adamax \<Rightarrow> adamax" where
  "apply_dense lr beta1 beta2 eps grad s =
     (let v_t = beta1 * am_v s + (1 - beta1) * grad;
          m_t = max (beta2 * am_m s + eps) \<bar>grad\<bar>;
          g_t = v_t / m_t
      in \<lparr>am_var = am_var s - lr * g_t, am_m = m_t, am_v = v_t\<rparr>)"

section \<open>What a run of the loop records\<close>

text \<open>The parameters after \<open>n\<close> steps on consecutive batches of the training queue.\<close>

primrec params_after :: "('p, 'x) learner \<Rightarrow> nat \<Rightarrow> 'p \<Rightarrow> nat \<Rightarrow> 'p" where
  "params_after N b p0 0 = p0"
| "params_after N b p0 (Suc n) =
     minimize N (schedule N (int n)) (params_after N b p0 n) (map (examples N 0) [n * b..<n * b + b])"

text \<open>A network that is not training treats each image alone; its accuracy on a list of examples.\<close>

definition inference_law :: "('p, 'x) learner \<Rightarrow> ('p \<Rightarrow> 'x \<Rightarrow> pyfloat \<times> pyfloat) \<Rightarrow> bool" where
  "inference_law N alone \<longleftrightarrow> (\<forall>p b. forward N p False b = map (alone p) b)"

definition hits :: "('p, 'x) learner \<Rightarrow> ('p \<Rightarrow> 'x \<Rightarrow> pyfloat \<times> pyfloat) \<Rightarrow> 'p \<Rightarrow> 'x list \<Rightarrow> nat" where
  "hits N alone p xs = length (filter (\<lambda>x. predicted (alone p x) = label_of N x) xs)"

definition accuracy_on :: "('p, 'x) learner \<Rightarrow> ('p \<Rightarrow> 'x \<Rightarrow> pyfloat \<times> pyfloat) \<Rightarrow> 'p \<Rightarrow> 'x list \<Rightarrow> pyfloat" where
  "accuracy_on N alone p xs = of_nat (hits N alone p xs) / of_nat (length xs)"

definition recorded :: "metric \<Rightarrow> (metric \<times> pyfloat \<times> int) list \<Rightarrow> (int \<times> pyfloat) list" where
  "recorded m es = map (\<lambda>e. (snd (snd e), fst (snd e))) (filter (\<lambda>e. fst e = m) es)"

definition at_every :: "int \<Rightarrow> nat \<Rightarrow> (int \<Rightarrow> 'b) \<Rightarrow> 'b list" where
  "at_every k n f = map f (filter (\<lambda>i. i mod k = 0) [1..int n])"

lemma recorded_append [simp]: "recorded m (es @ fs) = recorded m es @ recorded m fs"
  by (simp add: recorded_def)

lemma recorded_Cons [simp]: "recorded m ((m', v, i) # es) = (if m' = m then (i, v) # recorded m es else recorded m es)"
  by (simp add: recorded_def)

lemma recorded_Nil [simp]: "recorded m [] = []"
  by (simp add: recorded_def)

lemma at_every_0 [simp]: "at_every k 0 f = []"
  by (simp add: at_every_def)

lemma at_every_Suc:
  "at_every k (Suc n) f = at_every k n f @ (if (int n + 1) mod k = 0 then [f (int n + 1)] else [])"
  using upto_rec2 [of 1 "int n + 1"] by (simp add: at_every_def add.commute)

subsection \<open>One pass over a data set\<close>

lemma hits_append: "hits N alone p (xs @ ys) = hits N alone p xs + hits N alone p ys"
  by (simp add: hits_def)

lemma hits_sum: "sum_list (map (\<lambda>x. if predicted (alone p x) = label_of N x then 1 else 0) xs) = (of_nat (hits N alone p xs) :: rat)"
  by (induction xs) (simp_all add: hits_def)

lemma batch_accuracy:
  assumes "inference_law N alone"
  shows "snd (build_losses N p False b) = of_nat (hits N alone p b) / of_nat (length b)"
proof -
  have "map2 (\<lambda>out l. if predicted out = l then 1 else 0) (map (alone p) b) (map (label_of N) b)
      = map (\<lambda>x. if predicted (alone p x) = label_of N x then 1 else (0 :: rat)) b"
    by (induction b) simp_all
  with assms show ?thesis
    by (simp add: build_losses_def Let_def inference_law_def mean_def hits_sum)
qed

lemma upt_split: "[k..<k + Suc n * b] = [k..<k + b] @ [k + b..<k + b + n * b]"
  using upt_add_eq_append [of k "k + b" "n * b"] by (simp add: add.assoc)

lemma passes_run:
  assumes "inference_law N alone" and "ml \<noteq> ma"
  shows "\<not> ts_training s \<Longrightarrow> same_size cfg \<longrightarrow> ts_batch s = train_batch_size cfg \<Longrightarrow>
    \<exists>l. forp xs (\<lambda>_. increment_op N cfg ts_sel ml ma) s = (Inr (), s\<lparr>
        ts_fed := (ts_fed s)(ts_sel s := ts_fed s (ts_sel s) + length xs * nat (ts_batch s)),
        ts_sums := (ts_sums s)(ml := l, ma := ts_sums s ma
          + of_nat (hits N alone (ts_params s) (map (examples N (ts_sel s))
              [ts_fed s (ts_sel s)..<ts_fed s (ts_sel s) + length xs * nat (ts_batch s)])) / of_nat (nat (ts_batch s)))\<rparr>)"
proof (induction xs arbitrary: s)
  case Nil
  show ?case by (intro exI [of _ "ts_sums s ml"]) (simp add: ret_def hits_def)
next
  case (Cons x xs)
  let ?q = "ts_sel s" and ?b = "nat (ts_batch s)"
  let ?k = "ts_fed s ?q"
  let ?B = "map (examples N ?q) [?k..<?k + ?b]"
  let ?s = "s\<lparr>ts_fed := (ts_fed s)(?q := ?k + ?b), ts_sums := (ts_sums s)(ml := ts_sums s ml + fst (build_losses N (ts_params s) False ?B),
      ma := ts_sums s ma + of_nat (hits N alone (ts_params s) ?B) / of_nat ?b)\<rparr>"
  have cur: "cur_batch_size cfg s = ts_batch s" using Cons.prems(2) by (simp add: cur_batch_size_def)
  have step: "increment_op N cfg ts_sel ml ma s = (Inr (), ?s)"
    using Cons.prems(1) cur batch_accuracy [OF assms(1), of "ts_params s" ?B]
    by (simp add: increment_op_def next_batch_def dequeue_many_def count_losses_def bindp_def getp_def
        modifyp_def Let_def case_prod_beta)
  have nt: "\<not> ts_training ?s" "same_size cfg \<longrightarrow> ts_batch ?s = train_batch_size cfg" using Cons.prems by simp_all
  obtain l where l: "forp xs (\<lambda>_. increment_op N cfg ts_sel ml ma) ?s = (Inr (), ?s\<lparr>
        ts_fed := (ts_fed ?s)(ts_sel ?s := ts_fed ?s (ts_sel ?s) + length xs * nat (ts_batch ?s)),
        ts_sums := (ts_sums ?s)(ml := l, ma := ts_sums ?s ma
          + of_nat (hits N alone (ts_params ?s) (map (examples N (ts_sel ?s))
              [ts_fed ?s (ts_sel ?s)..<ts_fed ?s (ts_sel ?s) + length xs * nat (ts_batch ?s)])) / of_nat (nat (ts_batch ?s)))\<rparr>)"
    using Cons.IH [OF nt] by blast
  have split: "hits N alone (ts_params s) (map (examples N ?q) [?k..<?k + Suc (length xs) * ?b])
      = hits N alone (ts_params s) ?B + hits N alone (ts_params s) (map (examples N ?q) [?k + ?b..<?k + ?b + length xs * ?b])"
    unfolding upt_split by (simp add: hits_append)
  let ?n = "length xs * ?b"
  let ?H = "of_nat (hits N alone (ts_params s) (map (examples N ?q) [?k + ?b..<?k + ?b + ?n])) / of_nat ?b :: pyfloat"
  have fed: "((ts_fed s)(?q := ?k + ?b))(?q := ?k + ?b + ?n) = (ts_fed s)(?q := ?k + Suc (length xs) * ?b)"
    by (simp add: add.assoc)
  have sums: "((ts_sums s)(ml := u, ma := v))(ml := l, ma := v + ?H) = (ts_sums s)(ml := l, ma := v + ?H)" for u v
    using assms(2) by (simp add: fun_eq_iff)
  have "forp (x # xs) (\<lambda>_. increment_op N cfg ts_sel ml ma) s = (Inr (), s\<lparr>
      ts_fed := (ts_fed s)(?q := ?k + Suc (length xs) * ?b),
      ts_sums := (ts_sums s)(ml := l, ma := ts_sums s ma + of_nat (hits N alone (ts_params s) ?B) / of_nat ?b + ?H)\<rparr>)"
    using step l fed sums by (simp add: seqp_def bindp_def)
  then show ?case
    by (intro exI [of _ l]) (simp only: length_Cons split of_nat_add add_divide_distrib add.assoc)
qed

lemma one_cycle:
  assumes "f = cycle_of xs" and "k mod length xs = 0"
  shows "map f [k..<k + length xs] = xs"
proof (rule nth_equalityI)
  fix i
  assume "i < length (map f [k..<k + length xs])"
  then have i: "i < length xs" by simp
  have "(k + i) mod length xs = i" using assms(2) i by (metis add_0 mod_add_left_eq mod_less)
  with i assms(1) show "map f [k..<k + length xs] ! i = xs ! i" by (simp add: cycle_of_def)
qed simp

lemma range_len_dvd:
  assumes "0 < bs" and "bs dvd ds" and "ds = int n"
  shows "\<exists>m. range_len ds bs = Inr m \<and> m * nat bs = n"
proof -
  obtain q where q: "ds = bs * q" using assms(2) by (auto elim: dvdE)
  have q0: "0 \<le> q" using assms q by (metis mult_less_0_iff not_le of_nat_0_le_iff)
  have "(bs * q + bs - 1) div bs = q"
    using assms(1) by (simp add: div_add_self1 flip: add_diff_eq)
  then have "range_len ds bs = Inr (nat q)" using assms(1) q by (simp add: range_len_def)
  moreover have "nat q * nat bs = n"
    using q q0 assms(1,3) by (metis mult.commute nat_int nat_mult_distrib)
  ultimately show ?thesis by blast
qed

lemma evaluate_set_run:
  assumes "inference_law N alone" and "ml \<noteq> ma" and "\<not> ts_training s"
    and "same_size cfg \<longrightarrow> ts_batch s = train_batch_size cfg" and "0 < ts_batch s"
    and "ts_batch s dvd int (length xs)" and "examples N (ts_sel s) = cycle_of xs" and "ts_fed s (ts_sel s) mod length xs = 0"
  shows "\<exists>l. evaluate_set N cfg ts_sel (int (length xs)) (ts_batch s) ml ma s = (Inr (), s\<lparr>
      ts_fed := (ts_fed s)(ts_sel s := ts_fed s (ts_sel s) + length xs),
      ts_sums := (ts_sums s)(ml := l, ma := ts_sums s ma + of_nat (hits N alone (ts_params s) xs) / of_int (ts_batch s))\<rparr>)"
proof -
  obtain m where m: "range_len (int (length xs)) (ts_batch s) = Inr m" "m * nat (ts_batch s) = length xs"
    using range_len_dvd [OF assms(5,6)] by blast
  from passes_run [OF assms(1-4), of "[0..<m]"]
  obtain l where "forp [0..<m] (\<lambda>_. increment_op N cfg ts_sel ml ma) s = (Inr (), s\<lparr>
      ts_fed := (ts_fed s)(ts_sel s := ts_fed s (ts_sel s) + length xs),
      ts_sums := (ts_sums s)(ml := l, ma := ts_sums s ma + of_nat (hits N alone (ts_params s) xs) / of_nat (nat (ts_batch s)))\<rparr>)"
    using one_cycle [OF assms(7,8)] m(2) by auto
  with m(1) assms(5) show ?thesis
    by (intro exI [of _ l]) (simp add: evaluate_set_def bindp_def lift_sum_def)
qed

definition train_ok :: "('p, 'x) learner \<Rightarrow> ('p \<Rightarrow> 'x \<Rightarrow> pyfloat \<times> pyfloat) \<Rightarrow> train_cfg \<Rightarrow> 'x list \<Rightarrow> 'x list \<Rightarrow> bool" where
  "train_ok N alone cfg valid_set test_set \<longleftrightarrow> inference_law N alone \<and> \<not> same_size cfg
     \<and> valid_set \<noteq> [] \<and> examples N 1 = cycle_of valid_set \<and> valid_ds_size cfg = int (length valid_set)
     \<and> 0 < valid_batch_size cfg \<and> valid_batch_size cfg dvd valid_ds_size cfg
     \<and> test_set \<noteq> [] \<and> examples N 2 = cycle_of test_set \<and> test_ds_size cfg = int (length test_set)
     \<and> 0 < test_batch_size cfg \<and> test_batch_size cfg dvd test_ds_size cfg
     \<and> 0 < train_batch_size cfg \<and> 0 < train_interval cfg \<and> 0 < valid_interval cfg \<and> 0 < test_interval cfg
     \<and> 0 < save_interval cfg"

text \<open>The state between two iterations.\<close>

definition ready :: "train_cfg \<Rightarrow> 'p session \<Rightarrow> bool" where
  "ready cfg s \<longleftrightarrow> ts_training s \<and> ts_sel s = 0 \<and> ts_batch s = train_batch_size cfg"

lemma mean_of_hits:
  assumes "0 < bs" and "ds = int (length xs)"
  shows "of_nat (hits N alone p xs) / of_int bs / (of_int ds / of_int bs) = accuracy_on N alone p xs"
  using assms by (simp add: accuracy_on_def)

lemma validate_run:
  assumes ok: "train_ok N alone cfg V T" and s: "ready cfg s" "ts_sums s ValidAccuracy = 0" "ts_fed s 1 mod length V = 0"
  shows "\<exists>l. validate N cfg ts_sel i s = (Inr (), s\<lparr>ts_fed := (ts_fed s)(1 := ts_fed s 1 + length V),
      ts_sums := (ts_sums s)(ValidLoss := 0, ValidAccuracy := 0),
      ts_log := ts_log s @ [(ValidLoss, l, i), (ValidAccuracy, accuracy_on N alone (ts_params s) V, i)]\<rparr>)"
proof -
  let ?s = "s\<lparr>ts_training := False, ts_batch := valid_batch_size cfg, ts_sel := 1\<rparr>"
  have e: "\<exists>l. evaluate_set N cfg ts_sel (int (length V)) (ts_batch ?s) ValidLoss ValidAccuracy ?s = (Inr (), ?s\<lparr>
      ts_fed := (ts_fed ?s)(ts_sel ?s := ts_fed ?s (ts_sel ?s) + length V),
      ts_sums := (ts_sums ?s)(ValidLoss := l, ValidAccuracy := ts_sums ?s ValidAccuracy
        + of_nat (hits N alone (ts_params ?s) V) / of_int (ts_batch ?s))\<rparr>)"
    by (rule evaluate_set_run) (use ok s in \<open>auto simp: train_ok_def\<close>)
  then obtain l where l: "evaluate_set N cfg ts_sel (valid_ds_size cfg) (valid_batch_size cfg) ValidLoss ValidAccuracy ?s
    = (Inr (), ?s\<lparr>ts_fed := (ts_fed s)(1 := ts_fed s 1 + length V),
      ts_sums := (ts_sums s)(ValidLoss := l, ValidAccuracy := of_nat (hits N alone (ts_params s) V) / of_int (valid_batch_size cfg))\<rparr>)"
    using ok s by (auto simp: train_ok_def)
  have m: "of_nat (hits N alone (ts_params s) V) / of_int (valid_batch_size cfg)
      / (of_int (valid_ds_size cfg) / of_int (valid_batch_size cfg)) = accuracy_on N alone (ts_params s) V"
    by (rule mean_of_hits) (use ok in \<open>simp_all add: train_ok_def\<close>)
  have same: "\<not> same_size cfg" using ok by (simp add: train_ok_def)
  show ?thesis
    using l m s same
    by (intro exI [of _ "l / (of_int (valid_ds_size cfg) / of_int (valid_batch_size cfg))"])
      (simp add: validate_def disable_training_def show_batch_size_def add_summary_def enable_training_def ready_def
        mean_variable_def num_iterations_def seqp_def bindp_def modifyp_def ret_def fun_upd_twist)
qed

lemma run_test_run:
  assumes ok: "train_ok N alone cfg V T" and s: "ready cfg s" "ts_sums s TestAccuracy = 0" "ts_fed s 2 mod length T = 0"
  shows "\<exists>l. run_test N cfg ts_sel i s = (Inr (), s\<lparr>ts_fed := (ts_fed s)(2 := ts_fed s 2 + length T),
      ts_sums := (ts_sums s)(TestLoss := 0, TestAccuracy := 0),
      ts_log := ts_log s @ [(TestLoss, l, i), (TestAccuracy, accuracy_on N alone (ts_params s) T, i)]\<rparr>)"
proof -
  let ?s = "s\<lparr>ts_training := False, ts_batch := test_batch_size cfg, ts_sel := 2\<rparr>"
  have e: "\<exists>l. evaluate_set N cfg ts_sel (int (length T)) (ts_batch ?s) TestLoss TestAccuracy ?s = (Inr (), ?s\<lparr>
      ts_fed := (ts_fed ?s)(ts_sel ?s := ts_fed ?s (ts_sel ?s) + length T),
      ts_sums := (ts_sums ?s)(TestLoss := l, TestAccuracy := ts_sums ?s TestAccuracy
        + of_nat (hits N alone (ts_params ?s) T) / of_int (ts_batch ?s))\<rparr>)"
    by (rule evaluate_set_run) (use ok s in \<open>auto simp: train_ok_def\<close>)
  then obtain l where l: "evaluate_set N cfg ts_sel (test_ds_size cfg) (test_batch_size cfg) TestLoss TestAccuracy ?s
    = (Inr (), ?s\<lparr>ts_fed := (ts_fed s)(2 := ts_fed s 2 + length T),
      ts_sums := (ts_sums s)(TestLoss := l, TestAccuracy := of_nat (hits N alone (ts_params s) T) / of_int (test_batch_size cfg))\<rparr>)"
    using ok s by (auto simp: train_ok_def)
  have m: "of_nat (hits N alone (ts_params s) T) / of_int (test_batch_size cfg)
      / (of_int (test_ds_size cfg) / of_int (test_batch_size cfg)) = accuracy_on N alone (ts_params s) T"
    by (rule mean_of_hits) (use ok in \<open>simp_all add: train_ok_def\<close>)
  have same: "\<not> same_size cfg" using ok by (simp add: train_ok_def)
  show ?thesis
    using l m s same
    by (intro exI [of _ "l / (of_int (test_ds_size cfg) / of_int (test_batch_size cfg))"])
      (simp add: run_test_def enable_test_def show_batch_size_def add_summary_def enable_training_def ready_def
        mean_variable_def num_iterations_def seqp_def bindp_def modifyp_def ret_def fun_upd_twist)
qed

lemma on_every_run: "0 < n \<Longrightarrow> on_every n i m s = (if i mod n = 0 then m s else (Inr (), s))"
  by (simp add: on_every_def every_def bindp_def lift_sum_def whenp_def ret_def)

subsection \<open>The whole loop\<close>

text \<open>What holds after \<open>n\<close> iterations.\<close>

definition trained :: "('p, 'x) learner \<Rightarrow> ('p \<Rightarrow> 'x \<Rightarrow> pyfloat \<times> pyfloat) \<Rightarrow> train_cfg \<Rightarrow> 'x list \<Rightarrow> 'x list \<Rightarrow> 'p \<Rightarrow> nat
    \<Rightarrow> 'p session \<Rightarrow> bool" where
  "trained N alone cfg V T p0 n s \<longleftrightarrow>
     (let params = (\<lambda>i. params_after N (nat (train_batch_size cfg)) p0 (nat i))
      in ready cfg s \<and> ts_step s = int n \<and> ts_params s = params (int n)
         \<and> ts_fed s 0 = n * nat (train_batch_size cfg)
         \<and> ts_saved s = at_every (save_interval cfg) n (\<lambda>i. (save_path cfg i,
              \<lparr>ck_params = params i, ck_training = True, ck_sel = 0, ck_step = i\<rparr>))
         \<and> recorded ValidAccuracy (ts_log s) = at_every (valid_interval cfg) n (\<lambda>i. (i, accuracy_on N alone (params i) V))
         \<and> recorded TestAccuracy (ts_log s) = at_every (test_interval cfg) n (\<lambda>i. (i, accuracy_on N alone (params i) T)))"

definition between :: "'x list \<Rightarrow> 'x list \<Rightarrow> 'p session \<Rightarrow> bool" where
  "between V T s \<longleftrightarrow> ts_sums s ValidAccuracy = 0 \<and> ts_sums s TestAccuracy = 0
     \<and> ts_fed s 1 mod length V = 0 \<and> ts_fed s 2 mod length T = 0"

text \<open>What a stage of an iteration may do to the rest of the state.\<close>

definition stage_ok :: "train_cfg \<Rightarrow> 'x list \<Rightarrow> 'x list \<Rightarrow> 'p session \<Rightarrow> 'p session \<Rightarrow> bool" where
  "stage_ok cfg V T s s' \<longleftrightarrow> ready cfg s' \<and> between V T s' \<and> ts_step s' = ts_step s \<and> ts_params s' = ts_params s
     \<and> ts_fed s' 0 = ts_fed s 0"

lemma train_op_run:
  assumes "\<not> same_size cfg" and "ready cfg s"
  shows "\<exists>s'. train_op N cfg ts_sel s = (Inr (), s') \<and> ready cfg s' \<and> (between V T s \<longrightarrow> between V T s')
    \<and> ts_step s' = ts_step s + 1 \<and> ts_fed s' 0 = ts_fed s 0 + nat (train_batch_size cfg)
    \<and> ts_params s' = minimize N (schedule N (ts_step s)) (ts_params s)
        (map (examples N 0) [ts_fed s 0..<ts_fed s 0 + nat (train_batch_size cfg)])
    \<and> ts_log s' = ts_log s \<and> ts_saved s' = ts_saved s"
  using assms
  by (auto simp: train_op_def next_batch_def dequeue_many_def cur_batch_size_def count_losses_def bindp_def getp_def modifyp_def
      Let_def case_prod_beta ready_def between_def)

lemma report_training_run:
  "report_training N cfg i s = (Inr (), s\<lparr>
     ts_log := ts_log s @ [(TrainLoss, mean_variable cfg TrainLoss s, i), (TrainAccuracy, mean_variable cfg TrainAccuracy s, i)],
     ts_sums := (ts_sums s)(TrainLoss := 0, TrainAccuracy := 0), ts_rates := ts_rates s @ [(schedule N (ts_step s), i)]\<rparr>)"
  by (simp add: report_training_def add_summary_def write_rate_def seqp_def bindp_def modifyp_def mean_variable_def)

lemma stage_report:
  assumes "ready cfg s" and "between V T s" and "0 < train_interval cfg"
  shows "\<exists>s'. on_every (train_interval cfg) i (report_training N cfg i) s = (Inr (), s') \<and> stage_ok cfg V T s s'
    \<and> recorded ValidAccuracy (ts_log s') = recorded ValidAccuracy (ts_log s)
    \<and> recorded TestAccuracy (ts_log s') = recorded TestAccuracy (ts_log s) \<and> ts_saved s' = ts_saved s"
  using assms by (auto simp: on_every_run report_training_run stage_ok_def ready_def between_def)

lemma stage_validate:
  assumes "train_ok N alone cfg V T" and "ready cfg s" and "between V T s"
  shows "\<exists>s'. on_every (valid_interval cfg) i (validate N cfg ts_sel i) s = (Inr (), s') \<and> stage_ok cfg V T s s'
    \<and> recorded ValidAccuracy (ts_log s') = recorded ValidAccuracy (ts_log s)
        @ (if i mod valid_interval cfg = 0 then [(i, accuracy_on N alone (ts_params s) V)] else [])
    \<and> recorded TestAccuracy (ts_log s') = recorded TestAccuracy (ts_log s) \<and> ts_saved s' = ts_saved s"
proof -
  have "0 < valid_interval cfg" using assms(1) by (simp add: train_ok_def)
  with validate_run [OF assms(1,2), of i] assms(2,3) show ?thesis
    by (auto simp: on_every_run stage_ok_def ready_def between_def)
qed

lemma stage_test:
  assumes "train_ok N alone cfg V T" and "ready cfg s" and "between V T s"
  shows "\<exists>s'. on_every (test_interval cfg) i (run_test N cfg ts_sel i) s = (Inr (), s') \<and> stage_ok cfg V T s s'
    \<and> recorded TestAccuracy (ts_log s') = recorded TestAccuracy (ts_log s)
        @ (if i mod test_interval cfg = 0 then [(i, accuracy_on N alone (ts_params s) T)] else [])
    \<and> recorded ValidAccuracy (ts_log s') = recorded ValidAccuracy (ts_log s) \<and> ts_saved s' = ts_saved s"
proof -
  have "0 < test_interval cfg" using assms(1) by (simp add: train_ok_def)
  with run_test_run [OF assms(1,2), of i] assms(2,3) show ?thesis
    by (auto simp: on_every_run stage_ok_def ready_def between_def)
qed

lemma stage_save:
  assumes "0 < save_interval cfg" and "ready cfg s" and "between V T s"
  shows "\<exists>s'. on_every (save_interval cfg) i (save_model cfg i) s = (Inr (), s') \<and> stage_ok cfg V T s s'
    \<and> ts_log s' = ts_log s
    \<and> ts_saved s' = ts_saved s @ (if i mod save_interval cfg = 0
        then [(save_path cfg i, \<lparr>ck_params = ts_params s, ck_training = True, ck_sel = 0, ck_step = ts_step s\<rparr>)] else [])"
  using assms by (auto simp: on_every_run save_model_def modifyp_def checkpoint_of_def stage_ok_def ready_def between_def)

lemma iteration_run:
  assumes ok: "train_ok N alone cfg V T" and s: "trained N alone cfg V T p0 n s" "between V T s"
  shows "\<exists>s'. train_iteration N cfg (int n + 1) s = (Inr (), s') \<and> trained N alone cfg V T p0 (Suc n) s' \<and> between V T s'"
proof -
  let ?i = "int n + 1" and ?b = "nat (train_batch_size cfg)"
  let ?P = "\<lambda>i. params_after N ?b p0 (nat i)"
  have same: "\<not> same_size cfg" and pos: "0 < train_interval cfg" "0 < save_interval cfg"
    using ok by (simp_all add: train_ok_def)
  have t: "ready cfg s" "ts_step s = int n" "ts_params s = ?P (int n)" "ts_fed s 0 = n * ?b"
      "ts_saved s = at_every (save_interval cfg) n (\<lambda>i. (save_path cfg i,
              \<lparr>ck_params = ?P i, ck_training = True, ck_sel = 0, ck_step = i\<rparr>))"
      "recorded ValidAccuracy (ts_log s) = at_every (valid_interval cfg) n (\<lambda>i. (i, accuracy_on N alone (?P i) V))"
      "recorded TestAccuracy (ts_log s) = at_every (test_interval cfg) n (\<lambda>i. (i, accuracy_on N alone (?P i) T))"
    using s(1) by (simp_all add: trained_def Let_def)
  obtain s1 where s1: "train_op N cfg ts_sel s = (Inr (), s1)" "ready cfg s1" "between V T s1" "ts_step s1 = ?i"
      "ts_fed s1 0 = Suc n * ?b" "ts_log s1 = ts_log s" "ts_saved s1 = ts_saved s"
      "ts_params s1 = minimize N (schedule N (int n)) (?P (int n)) (map (examples N 0) [n * ?b..<n * ?b + ?b])"
    using train_op_run [OF same t(1), of N V T] s(2) t by auto
  have P: "ts_params s1 = ?P ?i" using s1(8) by (simp add: nat_add_distrib)
  obtain s2 where s2: "on_every (train_interval cfg) ?i (report_training N cfg ?i) s1 = (Inr (), s2)" "stage_ok cfg V T s1 s2"
      "recorded ValidAccuracy (ts_log s2) = recorded ValidAccuracy (ts_log s)"
      "recorded TestAccuracy (ts_log s2) = recorded TestAccuracy (ts_log s)" "ts_saved s2 = ts_saved s"
    using stage_report [OF s1(2,3) pos(1), of ?i N] s1(6,7) by auto
  have r2: "ready cfg s2" "between V T s2" "ts_params s2 = ?P ?i" using s2(2) P by (simp_all add: stage_ok_def)
  obtain s3 where s3: "on_every (valid_interval cfg) ?i (validate N cfg ts_sel ?i) s2 = (Inr (), s3)" "stage_ok cfg V T s2 s3"
      "recorded ValidAccuracy (ts_log s3) = recorded ValidAccuracy (ts_log s)
         @ (if ?i mod valid_interval cfg = 0 then [(?i, accuracy_on N alone (?P ?i) V)] else [])"
      "recorded TestAccuracy (ts_log s3) = recorded TestAccuracy (ts_log s)" "ts_saved s3 = ts_saved s"
    using stage_validate [OF ok r2(1,2), of ?i] s2 r2(3) by auto
  have r3: "ready cfg s3" "between V T s3" "ts_params s3 = ?P ?i" using s3(2) r2(3) by (simp_all add: stage_ok_def)
  obtain s4 where s4: "on_every (test_interval cfg) ?i (run_test N cfg ts_sel ?i) s3 = (Inr (), s4)" "stage_ok cfg V T s3 s4"
      "recorded TestAccuracy (ts_log s4) = recorded TestAccuracy (ts_log s)
         @ (if ?i mod test_interval cfg = 0 then [(?i, accuracy_on N alone (?P ?i) T)] else [])"
      "recorded ValidAccuracy (ts_log s4) = recorded ValidAccuracy (ts_log s3)" "ts_saved s4 = ts_saved s"
    using stage_test [OF ok r3(1,2), of ?i] s3 r3(3) by auto
  have r4: "ready cfg s4" "between V T s4" "ts_params s4 = ?P ?i" "ts_step s4 = ?i"
    using s4(2) s3(2) s2(2) r3(3) s1(4) by (simp_all add: stage_ok_def)
  obtain s5 where s5: "on_every (save_interval cfg) ?i (save_model cfg ?i) s4 = (Inr (), s5)" "stage_ok cfg V T s4 s5"
      "ts_log s5 = ts_log s4" "ts_saved s5 = ts_saved s @ (if ?i mod save_interval cfg = 0
        then [(save_path cfg ?i, \<lparr>ck_params = ?P ?i, ck_training = True, ck_sel = 0, ck_step = ?i\<rparr>)] else [])"
    using stage_save [OF pos(2) r4(1,2), of ?i] s4(5) r4(3,4) by auto
  have run: "train_iteration N cfg ?i s = (Inr (), s5)"
    using s1(1) s2(1) s3(1) s4(1) s5(1) by (simp add: train_iteration_def seqp_def bindp_def)
  have "ready cfg s5" "between V T s5" "ts_step s5 = ?i" "ts_params s5 = ?P ?i" "ts_fed s5 0 = Suc n * ?b"
    using s5(2) s4(2) s3(2) s2(2) r4(3,4) s1(5) by (simp_all add: stage_ok_def)
  moreover have "recorded ValidAccuracy (ts_log s5) = at_every (valid_interval cfg) (Suc n) (\<lambda>i. (i, accuracy_on N alone (?P i) V))"
    using s5(3) s4(4) s3(3) t(6) by (simp add: at_every_Suc)
  moreover have "recorded TestAccuracy (ts_log s5) = at_every (test_interval cfg) (Suc n) (\<lambda>i. (i, accuracy_on N alone (?P i) T))"
    using s5(3) s4(3) t(7) by (simp add: at_every_Suc)
  moreover have "ts_saved s5 = at_every (save_interval cfg) (Suc n) (\<lambda>i. (save_path cfg i,
      \<lparr>ck_params = ?P i, ck_training = True, ck_sel = 0, ck_step = i\<rparr>))"
    using s5(4) t(5) by (simp add: at_every_Suc)
  ultimately have "trained N alone cfg V T p0 (Suc n) s5" by (simp add: trained_def Let_def add.commute)
  with run \<open>between V T s5\<close> show ?thesis by blast
qed

lemma iterations_run:
  assumes "train_ok N alone cfg V T"
  shows "trained N alone cfg V T p0 n s \<Longrightarrow> between V T s \<Longrightarrow>
    \<exists>s'. forp [int n + 1..int (n + k)] (train_iteration N cfg) s = (Inr (), s') \<and> trained N alone cfg V T p0 (n + k) s'"
proof (induction k arbitrary: n s)
  case 0
  then show ?case by (simp add: ret_def)
next
  case (Suc k)
  obtain s1 where s1: "train_iteration N cfg (int n + 1) s = (Inr (), s1)" "trained N alone cfg V T p0 (Suc n) s1" "between V T s1"
    using iteration_run [OF assms Suc.prems] by blast
  obtain s2 where s2: "forp [int (Suc n) + 1..int (Suc n + k)] (train_iteration N cfg) s1 = (Inr (), s2)"
      "trained N alone cfg V T p0 (Suc n + k) s2"
    using Suc.IH [OF s1(2,3)] by blast
  have "[int n + 1..int (n + Suc k)] = (int n + 1) # [int (Suc n) + 1..int (Suc n + k)]"
    using upto_rec1 [of "int n + 1" "int (n + Suc k)"] by (simp add: add.commute add.left_commute)
  with s1(1) s2 show ?case by (simp add: seqp_def bindp_def)
qed

lemma train_from_scratch:
  assumes "train_ok N alone cfg V T" and "trained N alone cfg V T p0 0 (init_session p0 cfg)"
    and "between V T (init_session p0 cfg)" and "load_path cfg = None" and "max_iter cfg = int n"
  shows "\<exists>s. train N cfg load p0 = (Inr (), s) \<and> trained N alone cfg V T p0 n s"
proof -
  let ?s = "init_session p0 cfg"
  from iterations_run [OF assms(1-3), of n] obtain s where
    s: "forp [1..int n] (train_iteration N cfg) ?s = (Inr (), s)" "trained N alone cfg V T p0 n s"
    by auto
  have "enable_training cfg ?s = (Inr (), ?s)" "reset_sums ?s = (Inr (), ?s)"
    by (simp_all add: enable_training_def reset_sums_def modifyp_def init_session_def)
  with s assms(4,5) show ?thesis
    by (simp add: train_def restore_model_def seqp_def bindp_def getp_def ret_def) (simp add: init_session_def)
qed

lemma trained_init:
  "train_ok N alone cfg V T \<Longrightarrow> trained N alone cfg V T p0 0 (init_session p0 cfg)" "between V T (init_session p0 cfg)"
  by (simp_all add: trained_def ready_def init_session_def between_def Let_def)

definition toy_learner :: "(int, int) learner" where
  "toy_learner = \<lparr>forward = (\<lambda>p t b. map (\<lambda>x. (0, if x < p then 1 else 0)) b), label_of = (\<lambda>x. if x < 2 then 1 else 0),
     cross_entropy = (\<lambda>out l. 0), reg_loss = (\<lambda>p. 0), minimize = (\<lambda>lr p b. p + 1), schedule = (\<lambda>i. 1 / 1000),
     examples = (\<lambda>q k. int (k mod 4))\<rparr>"

definition toy_cfg :: train_cfg where
  "toy_cfg = \<lparr>train_batch_size = 1, valid_batch_size = 2, valid_ds_size = 4, test_batch_size = 4, test_ds_size = 4,
     train_interval = 1, valid_interval = 1, test_interval = 2, save_interval = 2, max_iter = 2, log_path = ''o'', load_path = None\<rparr>"

definition toy_alone :: "int \<Rightarrow> int \<Rightarrow> pyfloat \<times> pyfloat" where
  "toy_alone p x = (0, if x < p then 1 else 0)"

lemma toy_examples: "examples toy_learner q = cycle_of [0, 1, 2, 3]"
proof -
  have "int (k mod 4) = [0, 1, 2, 3 :: int] ! (k mod 4)" for k
  proof -
    consider "k mod 4 = 0" | "k mod 4 = 1" | "k mod 4 = 2" | "k mod 4 = 3" by linarith
    then show ?thesis by cases simp_all
  qed
  then show ?thesis by (simp add: toy_learner_def cycle_of_def fun_eq_iff)
qed

lemma toy_ok: "train_ok toy_learner toy_alone toy_cfg [0, 1, 2, 3] [0, 1, 2, 3]"
  unfolding train_ok_def toy_examples
  by (auto simp: inference_law_def toy_learner_def toy_alone_def toy_cfg_def same_size_def)

lemma toy_trained:
  assumes "trained toy_learner toy_alone toy_cfg [0, 1, 2, 3] [0, 1, 2, 3] 0 2 s"
  shows "recorded ValidAccuracy (ts_log s) = [(1, 3 / 4), (2, 1)]"
    and "ts_saved s = [(''o/Model_2.ckpt'', \<lparr>ck_params = 2, ck_training = True, ck_sel = 0, ck_step = 2\<rparr>)]"
proof -
  have path: "save_path toy_cfg 2 = ''o/Model_2.ckpt''" by (simp add: save_path_def toy_cfg_def print_defs)
  have "[1..2] = [1, 2 :: int]" by (simp add: upto.simps)
  with assms path show "recorded ValidAccuracy (ts_log s) = [(1, 3 / 4), (2, 1)]"
    and "ts_saved s = [(''o/Model_2.ckpt'', \<lparr>ck_params = 2, ck_training = True, ck_sel = 0, ck_step = 2\<rparr>)]"
    by (auto simp: trained_def Let_def at_every_def toy_cfg_def accuracy_on_def hits_def predicted_def toy_learner_def
        toy_alone_def numeral_2_eq_2)
qed

section \<open>Testing a checkpoint\<close>

lemma test_dataset_run:
  assumes "inference_law N alone" and "examples N 0 = cycle_of xs" and "xs \<noteq> []" and "0 < bs" and "bs dvd int (length xs)"
    and "load path = Inr ck"
  shows "\<exists>l. test_dataset N bs (int (length xs)) load path = Inr (l, accuracy_on N alone (ck_params ck) xs)"
proof -
  let ?cfg = "test_cfg bs (int (length xs)) path" and ?s = "test_session ck bs"
  have "\<exists>l. evaluate_set N ?cfg ts_sel (int (length xs)) (ts_batch ?s) TestLoss TestAccuracy ?s = (Inr (), ?s\<lparr>
      ts_fed := (ts_fed ?s)(ts_sel ?s := ts_fed ?s (ts_sel ?s) + length xs),
      ts_sums := (ts_sums ?s)(TestLoss := l, TestAccuracy := ts_sums ?s TestAccuracy
        + of_nat (hits N alone (ts_params ?s) xs) / of_int (ts_batch ?s))\<rparr>)"
    by (rule evaluate_set_run) (use assms in \<open>simp_all add: test_session_def test_cfg_def\<close>)
  then obtain l where l: "evaluate_set N ?cfg ts_sel (int (length xs)) bs TestLoss TestAccuracy ?s = (Inr (), ?s\<lparr>
      ts_fed := (\<lambda>q. 0)(0 := length xs),
      ts_sums := (\<lambda>m. 0)(TestLoss := l, TestAccuracy := of_nat (hits N alone (ck_params ck) xs) / of_int bs)\<rparr>)"
    by (auto simp: test_session_def)
  have "of_nat (hits N alone (ck_params ck) xs) / of_int bs / (of_int (int (length xs)) / of_int bs)
      = accuracy_on N alone (ck_params ck) xs"
    by (rule mean_of_hits) (use assms in simp_all)
  with l assms(6) show ?thesis
    by (simp add: test_dataset_def Let_def seqp_def bindp_def mean_results_def getp_def mean_variable_def num_iterations_def
        test_cfg_def)
qed

lemma at_every_in: "x \<in> set (at_every k n f) \<longleftrightarrow> (\<exists>i. 1 \<le> i \<and> i \<le> int n \<and> i mod k = 0 \<and> x = f i)"
  by (auto simp: at_every_def)



section \<open>Equal batch sizes\<close>

lemma on_every_raises: "0 < n \<Longrightarrow> i mod n = 0 \<Longrightarrow> m s = (Inl e, s') \<Longrightarrow> on_every n i m s = (Inl e, s')"
  by (simp add: on_every_run)

definition intervals_ok :: "train_cfg \<Rightarrow> bool" where
  "intervals_ok cfg \<longleftrightarrow> 0 < train_interval cfg \<and> 0 < valid_interval cfg \<and> 0 < test_interval cfg \<and> 0 < save_interval cfg"

text \<open>A state in which nothing has been evaluated.\<close>

definition not_evaluated :: "int \<Rightarrow> 'p session \<Rightarrow> bool" where
  "not_evaluated i s \<longleftrightarrow> ts_step s = i \<and> recorded ValidAccuracy (ts_log s) = [] \<and> recorded TestAccuracy (ts_log s) = []"

lemma validate_same_size:
  assumes "same_size cfg"
  shows "\<exists>e s'. validate N cfg ts_sel i s = (Inl e, s') \<and> ts_log s' = ts_log s \<and> ts_step s' = ts_step s"
  using assms by (simp add: validate_def disable_training_def show_batch_size_def seqp_def bindp_def modifyp_def raise_def)

lemma run_test_same_size: "same_size cfg \<Longrightarrow> run_test N cfg ts_sel i s = (Inl name_error, s)"
  by (simp add: run_test_def enable_test_def seqp_def bindp_def raise_def)

lemma first_stages_same_size:
  assumes "intervals_ok cfg" and "not_evaluated i s"
  shows "\<exists>s'. seqp (train_op N cfg ts_sel) (on_every (train_interval cfg) (i + 1) (report_training N cfg (i + 1))) s = (Inr (), s')
    \<and> not_evaluated (i + 1) s'"
proof -
  obtain s1 where s1: "train_op N cfg ts_sel s = (Inr (), s1)" "ts_step s1 = ts_step s + 1" "ts_log s1 = ts_log s"
    by (simp add: train_op_def next_batch_def dequeue_many_def count_losses_def bindp_def getp_def modifyp_def Let_def case_prod_beta)
  with assms show ?thesis
    by (auto simp: seqp_def bindp_def on_every_run intervals_ok_def report_training_run not_evaluated_def)
qed

lemma seqp_assoc: "seqp m (seqp n k) = seqp (seqp m n) k"
  by (simp add: seqp_def bindp_assoc)

lemma iteration_same_size:
  assumes "same_size cfg" and "intervals_ok cfg" and "not_evaluated i s"
  shows "if (i + 1) mod valid_interval cfg = 0 \<or> (i + 1) mod test_interval cfg = 0
    then \<exists>e s'. train_iteration N cfg (i + 1) s = (Inl e, s') \<and> not_evaluated (i + 1) s'
    else \<exists>s'. train_iteration N cfg (i + 1) s = (Inr (), s') \<and> not_evaluated (i + 1) s'"
proof -
  obtain s1 where s1: "seqp (train_op N cfg ts_sel) (on_every (train_interval cfg) (i + 1) (report_training N cfg (i + 1))) s = (Inr (), s1)"
      "not_evaluated (i + 1) s1"
    using first_stages_same_size [OF assms(2,3)] by blast
  have it: "train_iteration N cfg (i + 1) s =
      seqp (on_every (valid_interval cfg) (i + 1) (validate N cfg ts_sel (i + 1)))
     (seqp (on_every (test_interval cfg) (i + 1) (run_test N cfg ts_sel (i + 1)))
           (on_every (save_interval cfg) (i + 1) (save_model cfg (i + 1)))) s1"
    using s1(1) unfolding train_iteration_def seqp_assoc [of "train_op N cfg ts_sel"]
    by (simp add: seqp_def [of "seqp (train_op N cfg ts_sel) _"] bindp_def)
  obtain e s2 where v: "validate N cfg ts_sel (i + 1) s1 = (Inl e, s2)" "ts_log s2 = ts_log s1" "ts_step s2 = ts_step s1"
    using validate_same_size [OF assms(1)] by blast
  show ?thesis
    using v s1(2) assms(2) run_test_same_size [OF assms(1), of N "i + 1" s1]
    by (auto simp: it seqp_def bindp_def on_every_run intervals_ok_def not_evaluated_def save_model_def modifyp_def)
qed

lemma iterations_same_size:
  assumes "same_size cfg" and "intervals_ok cfg"
  shows "not_evaluated i s \<Longrightarrow> i < m \<Longrightarrow> (\<And>j. i < j \<Longrightarrow> j < m \<Longrightarrow> j mod valid_interval cfg \<noteq> 0 \<and> j mod test_interval cfg \<noteq> 0)
    \<Longrightarrow> m mod valid_interval cfg = 0 \<or> m mod test_interval cfg = 0 \<Longrightarrow> m \<le> k
    \<Longrightarrow> \<exists>e s'. forp [i + 1..k] (train_iteration N cfg) s = (Inl e, s') \<and> not_evaluated m s'"
proof (induction "nat (m - i)" arbitrary: i s)
  case 0
  then show ?case by simp
next
  case (Suc n)
  have l: "[i + 1..k] = (i + 1) # [i + 1 + 1..k]" using Suc.prems upto_rec1 [of "i + 1" k] by simp
  note it = iteration_same_size [OF assms Suc.prems(1), of N]
  show ?case
  proof (cases "i + 1 = m")
    case True
    with it Suc.prems(4) l show ?thesis by (auto simp: seqp_def bindp_def)
  next
    case False
    with Suc.prems(2) have lt: "i + 1 < m" by simp
    then have "(i + 1) mod valid_interval cfg \<noteq> 0 \<and> (i + 1) mod test_interval cfg \<noteq> 0" by (intro Suc.prems(3)) simp_all
    then obtain s1 where s1: "train_iteration N cfg (i + 1) s = (Inr (), s1)" "not_evaluated (i + 1) s1"
      using it by auto
    have "\<exists>e s'. forp [i + 1 + 1..k] (train_iteration N cfg) s1 = (Inl e, s') \<and> not_evaluated m s'"
      using Suc.hyps(2) lt s1(2) Suc.prems(3-5) by (intro Suc.hyps(1)) auto
    with l s1(1) show ?thesis by (auto simp: seqp_def bindp_def)
  qed
qed

text \<open>
Equal batch sizes break the evaluation. When the batch sizes of training and validation are equal, a run
from scratch whose number of iterations reaches the first validation or test ends there with an exception:
the steps up to it have been made, and no validation or test accuracy is ever recorded.
\<close>

theorem equal_batch_sizes_fail:
  assumes "same_size cfg" and "intervals_ok cfg" and "load_path cfg = None"
    and "min (valid_interval cfg) (test_interval cfg) \<le> max_iter cfg"
  shows "\<exists>e s. train N cfg load p0 = (Inl e, s) \<and> ts_step s = min (valid_interval cfg) (test_interval cfg)
    \<and> recorded ValidAccuracy (ts_log s) = [] \<and> recorded TestAccuracy (ts_log s) = []"
proof -
  let ?s = "init_session p0 cfg" and ?m = "min (valid_interval cfg) (test_interval cfg)"
  have "not_evaluated 0 ?s" by (simp add: not_evaluated_def init_session_def)
  moreover have "0 < ?m" using assms(2) by (simp add: intervals_ok_def)
  moreover have "j mod valid_interval cfg \<noteq> 0 \<and> j mod test_interval cfg \<noteq> 0" if "0 < j" "j < ?m" for j
    using that by simp
  moreover have "?m mod valid_interval cfg = 0 \<or> ?m mod test_interval cfg = 0" by (simp add: min_def)
  ultimately obtain e s where s: "forp [1..max_iter cfg] (train_iteration N cfg) ?s = (Inl e, s)" "not_evaluated ?m s"
    using iterations_same_size [OF assms(1,2), of 0 ?s ?m "max_iter cfg" N] assms(4) by auto
  have "enable_training cfg ?s = (Inr (), ?s)" "reset_sums ?s = (Inr (), ?s)"
    using assms(1) by (simp_all add: enable_training_def reset_sums_def modifyp_def init_session_def)
  with s assms(3) have "train N cfg load p0 = (Inl e, s)"
    by (simp add: train_def restore_model_def seqp_def bindp_def getp_def ret_def) (simp add: init_session_def)
  with s(2) show ?thesis by (auto simp: not_evaluated_def)
qed

theorem equal_batch_sizes_fail_witness:
  "\<exists>e s. train toy_learner (toy_cfg\<lparr>train_batch_size := 2\<rparr>) (\<lambda>p. Inl (Exn OSErr p)) 0 = (Inl e, s) \<and> ts_step s = 1"
  using equal_batch_sizes_fail [of "toy_cfg\<lparr>train_batch_size := 2\<rparr>" toy_learner "\<lambda>p. Inl (Exn OSErr p)" 0]
  by (auto simp: toy_cfg_def same_size_def intervals_ok_def)

section \<open>The step size of Adamax\<close>

definition adamax_run :: "pyfloat \<Rightarrow> pyfloat \<Rightarrow> pyfloat \<Rightarrow> pyfloat \<Rightarrow> pyfloat list \<Rightarrow> adamax \<Rightarrow> adamax" where
  "adamax_run lr beta1 beta2 eps grads s = foldl (\<lambda>s g. apply_dense lr beta1 beta2 eps g s) s grads"

definition step_bound :: "pyfloat \<Rightarrow> pyfloat \<Rightarrow> pyfloat" where
  "step_bound beta1 beta2 = (1 - beta1) / (1 - beta1 / beta2)"

lemma adamax_slots_step:
  assumes b: "0 \<le> beta1" "beta1 < beta2" "beta2 \<le> 1" "0 < eps"
    and s: "0 \<le> am_m s" "\<bar>am_v s\<bar> \<le> step_bound beta1 beta2 * am_m s"
    and s': "s' = apply_dense lr beta1 beta2 eps g s"
  shows "0 < am_m s' \<and> \<bar>am_v s'\<bar> \<le> step_bound beta1 beta2 * am_m s'"
proof -
  let ?C = "step_bound beta1 beta2" and ?m = "max (beta2 * am_m s + eps) \<bar>g\<bar>"
  have b2: "0 < beta2" using b by linarith
  have C0: "0 \<le> ?C" using b b2 by (simp add: step_bound_def)
  have Ceq: "?C * (beta1 / beta2) + (1 - beta1) = ?C"
    using b b2 by (simp add: step_bound_def field_simps)
  have "0 < beta2 * am_m s + eps" using b(4) s(1) b2 by (simp add: add_nonneg_pos)
  then have m0: "0 < ?m" by (simp add: less_max_iff_disj)
  have "\<bar>beta1 * am_v s + (1 - beta1) * g\<bar> \<le> \<bar>beta1 * am_v s\<bar> + \<bar>(1 - beta1) * g\<bar>" by (rule abs_triangle_ineq)
  also have "\<dots> = beta1 * \<bar>am_v s\<bar> + (1 - beta1) * \<bar>g\<bar>"
    using b by (simp add: abs_mult)
  also have "\<dots> \<le> beta1 * (?C * am_m s) + (1 - beta1) * ?m"
    using b s(2) by (intro add_mono mult_left_mono) simp_all
  also have "beta1 * (?C * am_m s) \<le> ?C * (beta1 / beta2) * ?m"
  proof -
    have "am_m s \<le> ?m / beta2" using b(4) b2 by (simp add: pos_le_divide_eq le_max_iff_disj mult.commute)
    then have "beta1 * ?C * am_m s \<le> beta1 * ?C * (?m / beta2)" using b(1) C0 by (intro mult_left_mono) simp_all
    then show ?thesis by (simp add: ac_simps)
  qed
  finally have "\<bar>beta1 * am_v s + (1 - beta1) * g\<bar> \<le> (?C * (beta1 / beta2) + (1 - beta1)) * ?m"
    by (simp add: algebra_simps)
  with m0 Ceq show ?thesis by (simp add: s' apply_dense_def Let_def)
qed

lemma adamax_slots_run:
  assumes b: "0 \<le> beta1" "beta1 < beta2" "beta2 \<le> 1" "0 < eps"
  shows "0 \<le> am_m s \<Longrightarrow> \<bar>am_v s\<bar> \<le> step_bound beta1 beta2 * am_m s \<Longrightarrow>
    0 \<le> am_m (adamax_run lr beta1 beta2 eps gs s)
    \<and> \<bar>am_v (adamax_run lr beta1 beta2 eps gs s)\<bar> \<le> step_bound beta1 beta2 * am_m (adamax_run lr beta1 beta2 eps gs s)"
proof (induction gs arbitrary: s)
  case Nil
  then show ?case by (simp add: adamax_run_def)
next
  case (Cons g gs)
  have "0 < am_m (apply_dense lr beta1 beta2 eps g s)
      \<and> \<bar>am_v (apply_dense lr beta1 beta2 eps g s)\<bar> \<le> step_bound beta1 beta2 * am_m (apply_dense lr beta1 beta2 eps g s)"
    by (rule adamax_slots_step [OF b Cons.prems refl])
  then show ?case using Cons.IH [of "apply_dense lr beta1 beta2 eps g s"] by (simp add: adamax_run_def)
qed

text \<open>
The optimizer's step is bounded. Whatever the gradients were and are, the divisor of the next Adamax step
is positive, and the step changes the variable by at most the learning rate times
\<^verbatim>\<open>(1 - beta1) / (1 - beta1 / beta2)\<close>, which for the default decay rates is less than 1.01.
\<close>

theorem adamax_step_bounded:
  assumes "0 \<le> beta1" and "beta1 < beta2" and "beta2 \<le> 1" and "0 < eps" and "0 \<le> lr"
    and s: "s = adamax_run lr beta1 beta2 eps grads (create_slots x)"
  shows "0 < am_m (apply_dense lr beta1 beta2 eps g s)
    \<and> \<bar>am_var (apply_dense lr beta1 beta2 eps g s) - am_var s\<bar> \<le> lr * step_bound beta1 beta2
    \<and> step_bound (9/10) (999/1000) < 101/100"
proof -
  let ?s' = "apply_dense lr beta1 beta2 eps g s"
  have "0 \<le> am_m s \<and> \<bar>am_v s\<bar> \<le> step_bound beta1 beta2 * am_m s"
    unfolding s by (rule adamax_slots_run [OF assms(1-4)]) (simp_all add: create_slots_def)
  then have m: "0 < am_m ?s'" "\<bar>am_v ?s'\<bar> \<le> step_bound beta1 beta2 * am_m ?s'"
    using adamax_slots_step [OF assms(1-4) _ _ refl] by blast+
  have "am_var ?s' - am_var s = - (lr * (am_v ?s' / am_m ?s'))" by (simp add: apply_dense_def Let_def)
  then have "\<bar>am_var ?s' - am_var s\<bar> = lr * (\<bar>am_v ?s'\<bar> / am_m ?s')"
    using assms(5) m(1) by (simp add: abs_mult)
  also have "\<dots> \<le> lr * step_bound beta1 beta2"
    using assms(5) m by (intro mult_left_mono) (simp_all add: pos_divide_le_eq)
  finally show ?thesis using m(1) by (simp add: step_bound_def)
qed

theorem adamax_step_bounded_witness:
  "\<bar>am_var (apply_dense (1/1000) (9/10) (999/1000) (adamax_eps False) 1000000
       (adamax_run (1/1000) (9/10) (999/1000) (adamax_eps False) [3, -5] (create_slots 2)))
     - am_var (adamax_run (1/1000) (9/10) (999/1000) (adamax_eps False) [3, -5] (create_slots 2))\<bar>
     \<le> 1/1000 * step_bound (9/10) (999/1000)"
  using adamax_step_bounded [of "9/10" "999/1000" "adamax_eps False" "1/1000" _ "[3, -5]" 2 1000000, OF _ _ _ _ _ refl]
  by (simp add: adamax_eps_def)

end
