(* ===== verification/Queues.thy ===== *)
theory Queues
  imports Training
begin

text \<open>
  CALPA-NET-master/libs/psm/queues.py and its copy in libs/srnet: a queue of examples that threads fill
  from a generator and the graph empties by batches. The threads and the session are concurrent: a run
  is a list of actions, and every list whose actions are possible is a run. The properties say
  that the batches are the ones that \<open>dequeue_many\<close> of \<open>Training\<close> takes, and that they never stop coming.
\<close>

section \<open>GeneratorRunner\<close>

text \<open>
  The constructor checks the first data of the generator, given here by whether it is a list and by the
  first dimensions of its components; the result is the number of examples in it.
\<close>

definition generator_runner :: "bool \<Rightarrow> nat list \<Rightarrow> exn + nat" where
  "generator_runner is_list sizes =
     (if \<not> is_list then Inl (Exn ValueError ''generator doesn't return a list'')
      else case sizes of
             [] \<Rightarrow> Inl (Exn OtherErr ''list index out of range'')
           | b # _ \<Rightarrow> if list_all (\<lambda>m. m = b) sizes then Inr b
                      else Inl (Exn ValueError ''all the inputs doesn't have the same batch size''))"

text \<open>
  A thread between two data, with the examples of its current data that are not in the queue yet, or
  ended. An example carries the number of its thread. \<open>rn_batch\<close> is the batch that a waiting
  \<^verbatim>\<open>dequeue_many\<close> has so far, \<open>rn_out\<close> the batches handed out.
\<close>

datatype 'x thread_state = Waiting | Feeding "'x list" | Ended

record 'x runner =
  rn_threads :: "(nat \<times> 'x thread_state) list"
  rn_stop :: bool
  rn_closed :: bool
  rn_queue :: "(nat \<times> 'x) list"
  rn_batch :: "(nat \<times> 'x) list"
  rn_out :: "(nat \<times> 'x) list list"

definition start_threads :: "nat \<Rightarrow> 'x runner" where
  "start_threads n_threads =
     \<lparr>rn_threads = replicate n_threads (0, Waiting), rn_stop = False, rn_closed = False, rn_queue = [], rn_batch = [], rn_out = []\<rparr>"

text \<open>
  \<^verbatim>\<open>thread_main\<close>: thread \<open>i\<close> takes the next data of its generator (\<open>Next\<close>), \<^verbatim>\<open>enqueue_many\<close> puts its examples one
  by one while there is room (\<open>Put\<close>) or fails on a closed queue (\<open>Cancel\<close>), and then the thread looks at
  \<^verbatim>\<open>stop_threads\<close> (\<open>Check\<close>). The session takes an example for the batch (\<open>Take\<close>) and hands out a full batch
  (\<open>Deliver\<close>). \<open>Stop\<close> is \<^verbatim>\<open>stop_runner\<close>.
\<close>

datatype runner_action = Next nat | Put nat | Check nat | Cancel nat | Take | Deliver | Stop

definition set_thread :: "'x runner \<Rightarrow> nat \<Rightarrow> nat \<times> 'x thread_state \<Rightarrow> 'x runner" where
  "set_thread s i t = s\<lparr>rn_threads := (rn_threads s)[i := t]\<rparr>"

definition thread_main :: "(nat \<Rightarrow> nat \<Rightarrow> 'x list) \<Rightarrow> nat \<Rightarrow> runner_action \<Rightarrow> nat \<Rightarrow> 'x runner \<Rightarrow> 'x runner option" where
  "thread_main generator capacity a i s =
     (if length (rn_threads s) \<le> i then None
      else case (a, rn_threads s ! i) of
             (Next _, (k, Waiting)) \<Rightarrow> Some (set_thread s i (Suc k, Feeding (generator i k)))
           | (Put _, (k, Feeding (x # xs))) \<Rightarrow>
               if rn_closed s \<or> capacity \<le> length (rn_queue s) then None
               else Some (set_thread (s\<lparr>rn_queue := rn_queue s @ [(i, x)]\<rparr>) i (k, Feeding xs))
           | (Cancel _, (k, Feeding (x # xs))) \<Rightarrow> if rn_closed s then Some (set_thread s i (k, Ended)) else None
           | (Check _, (k, Feeding [])) \<Rightarrow> Some (set_thread s i (k, if rn_stop s then Ended else Waiting))
           | _ \<Rightarrow> None)"

definition take_example :: "nat \<Rightarrow> 'x runner \<Rightarrow> 'x runner option" where
  "take_example batch_size s =
     (case rn_queue s of
        x # q \<Rightarrow> if length (rn_batch s) < batch_size then Some (s\<lparr>rn_queue := q, rn_batch := rn_batch s @ [x]\<rparr>) else None
      | [] \<Rightarrow> None)"

definition deliver :: "nat \<Rightarrow> 'x runner \<Rightarrow> 'x runner option" where
  "deliver batch_size s =
     (if length (rn_batch s) = batch_size then Some (s\<lparr>rn_batch := [], rn_out := rn_out s @ [rn_batch s]\<rparr>) else None)"

definition stop_runner :: "'x runner \<Rightarrow> 'x runner" where
  "stop_runner s = s\<lparr>rn_stop := True, rn_closed := True\<rparr>"

fun runner_do :: "(nat \<Rightarrow> nat \<Rightarrow> 'x list) \<Rightarrow> nat \<Rightarrow> nat \<Rightarrow> runner_action \<Rightarrow> 'x runner \<Rightarrow> 'x runner option" where
  "runner_do generator capacity batch_size (Next i) s = thread_main generator capacity (Next i) i s"
| "runner_do generator capacity batch_size (Put i) s = thread_main generator capacity (Put i) i s"
| "runner_do generator capacity batch_size (Check i) s = thread_main generator capacity (Check i) i s"
| "runner_do generator capacity batch_size (Cancel i) s = thread_main generator capacity (Cancel i) i s"
| "runner_do generator capacity batch_size Take s = take_example batch_size s"
| "runner_do generator capacity batch_size Deliver s = deliver batch_size s"
| "runner_do generator capacity batch_size Stop s = Some (stop_runner s)"

fun runner_run :: "(nat \<Rightarrow> nat \<Rightarrow> 'x list) \<Rightarrow> nat \<Rightarrow> nat \<Rightarrow> runner_action list \<Rightarrow> 'x runner \<Rightarrow> 'x runner option" where
  "runner_run generator capacity batch_size [] s = Some s"
| "runner_run generator capacity batch_size (a # acts) s =
     Option.bind (runner_do generator capacity batch_size a s) (runner_run generator capacity batch_size acts)"

text \<open>An action that is possible, and what it does.\<close>

lemma runner_doE:
  assumes "runner_do generator capacity batch_size a s = Some s'"
  obtains (Next) i k where "a = Next i" "i < length (rn_threads s)" "rn_threads s ! i = (k, Waiting)"
      "s' = set_thread s i (Suc k, Feeding (generator i k))"
    | (Put) i k x xs where "a = Put i" "i < length (rn_threads s)" "rn_threads s ! i = (k, Feeding (x # xs))" "\<not> rn_closed s"
      "length (rn_queue s) < capacity" "s' = set_thread (s\<lparr>rn_queue := rn_queue s @ [(i, x)]\<rparr>) i (k, Feeding xs)"
    | (Check) i k where "a = Check i" "i < length (rn_threads s)" "rn_threads s ! i = (k, Feeding [])"
      "s' = set_thread s i (k, if rn_stop s then Ended else Waiting)"
    | (Cancel) i k x xs where "a = Cancel i" "i < length (rn_threads s)" "rn_threads s ! i = (k, Feeding (x # xs))" "rn_closed s"
      "s' = set_thread s i (k, Ended)"
    | (Take) x q where "a = Take" "rn_queue s = x # q" "length (rn_batch s) < batch_size"
      "s' = s\<lparr>rn_queue := q, rn_batch := rn_batch s @ [x]\<rparr>"
    | (Deliver) "a = Deliver" "length (rn_batch s) = batch_size" "s' = s\<lparr>rn_batch := [], rn_out := rn_out s @ [rn_batch s]\<rparr>"
    | (Stop) "a = Stop" "s' = stop_runner s"
  using assms
  by (cases a) (auto simp: thread_main_def take_example_def deliver_def not_le
      split: if_splits prod.splits thread_state.splits list.splits)

subsection \<open>What the threads feed\<close>

text \<open>
  The examples that left the threads, in order, those of thread \<open>i\<close> among them, and what thread \<open>i\<close>
  still holds.
\<close>

definition fed :: "'x runner \<Rightarrow> (nat \<times> 'x) list" where
  "fed s = concat (rn_out s) @ rn_batch s @ rn_queue s"

definition fed_by :: "nat \<Rightarrow> (nat \<times> 'x) list \<Rightarrow> 'x list" where
  "fed_by i xs = map snd (filter (\<lambda>x. fst x = i) xs)"

definition data_of :: "(nat \<Rightarrow> nat \<Rightarrow> 'x list) \<Rightarrow> nat \<Rightarrow> nat \<Rightarrow> 'x list" where
  "data_of generator i k = concat (map (generator i) [0..<k])"

fun held_ok :: "'x thread_state \<Rightarrow> 'x list \<Rightarrow> bool" where
  "held_ok Waiting rest \<longleftrightarrow> rest = []"
| "held_ok (Feeding xs) rest \<longleftrightarrow> rest = xs"
| "held_ok Ended rest \<longleftrightarrow> True"

definition thread_ok :: "(nat \<Rightarrow> nat \<Rightarrow> 'x list) \<Rightarrow> 'x list \<Rightarrow> nat \<Rightarrow> nat \<times> 'x thread_state \<Rightarrow> bool" where
  "thread_ok generator xs i t \<longleftrightarrow> (\<exists>rest. data_of generator i (fst t) = xs @ rest \<and> held_ok (snd t) rest)"

definition runner_ok :: "(nat \<Rightarrow> nat \<Rightarrow> 'x list) \<Rightarrow> nat \<Rightarrow> nat \<Rightarrow> 'x runner \<Rightarrow> bool" where
  "runner_ok generator capacity batch_size s \<longleftrightarrow>
     length (rn_queue s) \<le> capacity \<and> length (rn_batch s) \<le> batch_size \<and> (\<forall>b \<in> set (rn_out s). length b = batch_size)
     \<and> (\<forall>x \<in> set (fed s). fst x < length (rn_threads s))
     \<and> (\<forall>i < length (rn_threads s). thread_ok generator (fed_by i (fed s)) i (rn_threads s ! i))"

lemma fed_by_append [simp]: "fed_by i (xs @ ys) = fed_by i xs @ fed_by i ys"
  by (simp add: fed_by_def)

lemma fed_by_Cons [simp]: "fed_by i (x # xs) = (if fst x = i then [snd x] else []) @ fed_by i xs"
  by (simp add: fed_by_def)

lemma fed_by_Nil [simp]: "fed_by i [] = []"
  by (simp add: fed_by_def)

lemma set_thread_sel [simp]:
  "rn_threads (set_thread s i t) = (rn_threads s)[i := t]" "rn_queue (set_thread s i t) = rn_queue s"
  "rn_batch (set_thread s i t) = rn_batch s" "rn_out (set_thread s i t) = rn_out s"
  "rn_stop (set_thread s i t) = rn_stop s" "rn_closed (set_thread s i t) = rn_closed s" "fed (set_thread s i t) = fed s"
  by (simp_all add: set_thread_def fed_def)

lemma runner_ok_start: "runner_ok generator capacity batch_size (start_threads n)"
  by (simp add: runner_ok_def start_threads_def fed_def thread_ok_def data_of_def)

lemma threads_ok_update:
  assumes "\<forall>j < length ts. thread_ok g (f j) j (ts ! j)" and "\<And>j. j \<noteq> i \<Longrightarrow> f' j = f j"
    and "i < length ts \<Longrightarrow> thread_ok g (f' i) i t"
  shows "\<forall>j < length (ts[i := t]). thread_ok g (f' j) j (ts[i := t] ! j)"
proof (intro allI impI)
  fix j
  assume "j < length (ts[i := t])"
  with assms show "thread_ok g (f' j) j (ts[i := t] ! j)" by (cases "j = i") auto
qed

lemma runner_do_ok:
  assumes "runner_do generator capacity batch_size a s = Some s'" and ok: "runner_ok generator capacity batch_size s"
  shows "runner_ok generator capacity batch_size s'"
proof -
  have ts: "\<forall>j < length (rn_threads s). thread_ok generator (fed_by j (fed s)) j (rn_threads s ! j)"
    using ok by (simp add: runner_ok_def)
  show ?thesis
    using assms(1)
  proof (cases rule: runner_doE)
    case (Next i k)
    have "thread_ok generator (fed_by i (fed s)) i (Suc k, Feeding (generator i k))"
      using ts Next(2,3) by (auto simp: thread_ok_def data_of_def)
    with threads_ok_update [OF ts, of i "\<lambda>j. fed_by j (fed s)"] Next ok show ?thesis by (simp add: runner_ok_def)
  next
    case (Put i k x xs)
    have f: "fed s' = fed s @ [(i, x)]" using Put(6) by (simp add: fed_def set_thread_def)
    have "thread_ok generator (fed_by i (fed s')) i (k, Feeding xs)"
      using ts Put(2,3) f by (auto simp: thread_ok_def)
    with threads_ok_update [OF ts, of i "\<lambda>j. fed_by j (fed s')"] Put ok f show ?thesis
      by (auto simp: runner_ok_def)
  next
    case (Check i k)
    have "thread_ok generator (fed_by i (fed s)) i (k, if rn_stop s then Ended else Waiting)"
      using ts Check(2,3) by (auto simp: thread_ok_def)
    with threads_ok_update [OF ts, of i "\<lambda>j. fed_by j (fed s)"] Check ok show ?thesis by (simp add: runner_ok_def)
  next
    case (Cancel i k x xs)
    have "thread_ok generator (fed_by i (fed s)) i (k, Ended)"
      using ts Cancel(2,3) by (auto simp: thread_ok_def)
    with threads_ok_update [OF ts, of i "\<lambda>j. fed_by j (fed s)"] Cancel ok show ?thesis by (simp add: runner_ok_def)
  next
    case (Take x q)
    then have "fed s' = fed s" by (simp add: fed_def)
    with Take ok show ?thesis by (simp add: runner_ok_def)
  next
    case Deliver
    then have "fed s' = fed s" by (simp add: fed_def)
    with Deliver ok show ?thesis by (auto simp: runner_ok_def)
  next
    case Stop
    with ok show ?thesis by (simp add: stop_runner_def runner_ok_def fed_def)
  qed
qed

lemma runner_run_ok:
  "runner_run generator capacity batch_size acts s = Some s' \<Longrightarrow> runner_ok generator capacity batch_size s
    \<Longrightarrow> runner_ok generator capacity batch_size s'"
  by (induction acts arbitrary: s) (auto simp: bind_eq_Some_conv intro: runner_do_ok)

lemma runner_run_length:
  "runner_run generator capacity batch_size acts s = Some s' \<Longrightarrow> length (rn_threads s') = length (rn_threads s)"
proof (induction acts arbitrary: s)
  case (Cons a acts)
  then obtain s1 where s1: "runner_do generator capacity batch_size a s = Some s1"
      "runner_run generator capacity batch_size acts s1 = Some s'"
    by (auto simp: bind_eq_Some_conv)
  from s1(1) have "length (rn_threads s1) = length (rn_threads s)"
    by (cases rule: runner_doE) (simp_all add: stop_runner_def)
  with Cons.IH [OF s1(2)] show ?case by simp
qed simp

lemma runner_order:
  assumes "runner_run generator capacity batch_size acts (start_threads n) = Some s" and "i < n"
  shows "\<exists>k rest. data_of generator i k = fed_by i (concat (rn_out s)) @ rest"
proof -
  have ok: "runner_ok generator capacity batch_size s" by (rule runner_run_ok [OF assms(1) runner_ok_start])
  have "i < length (rn_threads s)" using runner_run_length [OF assms(1)] assms(2) by (simp add: start_threads_def)
  with ok have "thread_ok generator (fed_by i (fed s)) i (rn_threads s ! i)" by (simp add: runner_ok_def)
  then show ?thesis by (auto simp: thread_ok_def fed_def)
qed

text \<open>
In every run, whatever the threads and the session do in whatever order, the queue never holds more than its
capacity, every batch handed out is full, and the examples of a thread in the batches are exactly the beginning of
what its generator yields, in that order.
\<close>

lemma runner_keeps_order:
  assumes "runner_run generator capacity batch_size acts (start_threads n) = Some s" and "i < n"
  shows "length (rn_queue s) \<le> capacity \<and> (\<forall>b \<in> set (rn_out s). length b = batch_size)
    \<and> (\<exists>k rest. concat (map (generator i) [0..<k]) = fed_by i (concat (rn_out s)) @ rest)"
  using runner_run_ok [OF assms(1) runner_ok_start] runner_order [OF assms] by (simp add: runner_ok_def data_of_def)

section \<open>The batches of the validation and the test set\<close>

text \<open>The \<open>k\<close>-th data of the generator without augmentation: a cover and its stego.\<close>

definition psm_data :: "string list \<Rightarrow> string list \<Rightarrow> nat \<Rightarrow> (string \<times> nat) list" where
  "psm_data cover_list stego_list k = pair_examples (zip cover_list stego_list ! (k mod length cover_list))"

lemma length_pairs: "length (concat (map pair_examples ps)) = 2 * length ps"
  by (induction ps) (simp_all add: pair_examples_def)

lemma nth_pairs: "k < length ps \<Longrightarrow>
    [concat (map pair_examples ps) ! (2 * k), concat (map pair_examples ps) ! Suc (2 * k)] = pair_examples (ps ! k)"
proof (induction ps arbitrary: k)
  case (Cons p ps)
  then show ?case by (cases k) (simp_all add: pair_examples_def)
qed simp

lemma psm_stream:
  assumes "cover_list \<noteq> []" and "length stego_list = length cover_list"
  shows "data_of (\<lambda>_. psm_data cover_list stego_list) i k = map (cycle_of (epoch cover_list stego_list)) [0..<2 * k]"
proof (induction k)
  case 0
  then show ?case by (simp add: data_of_def)
next
  case (Suc k)
  let ?m = "length cover_list" and ?f = "cycle_of (epoch cover_list stego_list)"
  have len: "length (epoch cover_list stego_list) = 2 * ?m" using assms(2) by (simp add: epoch_def length_pairs)
  have lt: "k mod ?m < length (zip cover_list stego_list)" using assms by simp
  have e: "2 * k mod (2 * ?m) = 2 * (k mod ?m)" by simp
  have "Suc (2 * a) \<noteq> 2 * b" for a b :: nat by presburger
  with e have o: "Suc (2 * k) mod (2 * ?m) = Suc (2 * (k mod ?m))" by (simp only: mod_Suc if_False)
  have "[?f (2 * k), ?f (Suc (2 * k))] = psm_data cover_list stego_list k"
    using nth_pairs [OF lt] unfolding cycle_of_def len e o psm_data_def by (simp add: epoch_def)
  with Suc.IH show ?case by (simp add: data_of_def)
qed

lemma filter_one_thread: "\<forall>x \<in> set xs. fst x < (1 :: nat) \<Longrightarrow> fed_by 0 xs = map snd xs"
  by (induction xs) auto

lemma nth_batch:
  assumes "\<forall>b \<in> set bs. length b = n" and "j < length bs"
  shows "bs ! j = map ((!) (concat bs)) [j * n..<j * n + n]"
  using assms
proof (induction bs arbitrary: j)
  case (Cons b bs)
  show ?case
  proof (cases j)
    case 0
    with Cons.prems show ?thesis by (simp add: list_eq_iff_nth_eq nth_append)
  next
    case (Suc i)
    have "map ((!) (b @ concat bs)) [Suc i * n..<Suc i * n + n] = map ((!) (concat bs)) [i * n..<i * n + n]"
      using Cons.prems(1) by (simp add: list_eq_iff_nth_eq nth_append)
    with Cons Suc show ?thesis by simp
  qed
qed simp

lemma length_batches: "\<forall>b \<in> set bs. length b = n \<Longrightarrow> length (concat bs) = length bs * n"
  by (induction bs) simp_all

lemma one_thread_batches:
  assumes run: "runner_run generator capacity batch_size acts (start_threads 1) = Some s"
    and stream: "\<And>k. data_of generator 0 k = map f [0..<l k]" and j: "j < length (rn_out s)"
  shows "map snd (rn_out s ! j) = map f [j * batch_size..<j * batch_size + batch_size]"
proof -
  have ok: "runner_ok generator capacity batch_size s" by (rule runner_run_ok [OF run runner_ok_start])
  have n: "length (rn_threads s) = 1" using runner_run_length [OF run] by (simp add: start_threads_def)
  let ?out = "concat (rn_out s)"
  obtain k rest where "data_of generator 0 k = fed_by 0 ?out @ rest"
    using runner_order [OF run, of 0] by auto
  moreover have "fed_by 0 ?out = map snd ?out"
    by (rule filter_one_thread) (use ok n in \<open>auto simp: runner_ok_def fed_def\<close>)
  ultimately have pre: "map f [0..<l k] = map snd ?out @ rest" using stream [of k] by simp
  have at: "snd (?out ! i) = f i" if "i < length ?out" for i
  proof -
    have "length ?out \<le> l k" using arg_cong [OF pre, of length] by simp
    with arg_cong [OF pre, of "\<lambda>xs. xs ! i"] that show ?thesis by (simp add: nth_append)
  qed
  have full: "\<forall>b \<in> set (rn_out s). length b = batch_size" using ok by (simp add: runner_ok_def)
  have "Suc j * batch_size \<le> length (rn_out s) * batch_size" using j by (intro mult_le_mono1) simp
  then have "j * batch_size + batch_size \<le> length ?out" by (simp add: length_batches [OF full])
  then show ?thesis by (simp add: nth_batch [OF full j] at)
qed

text \<open>
C26: The queue refines the stream of examples that the training loop is defined on. If the two lists pass the
assertions of the generator, then in every run of a runner with one thread, whatever the order of its actions, the
\<open>j\<close>-th batch handed out is the batch that \<^verbatim>\<open>dequeue_many\<close> of the model takes after \<open>j\<close> batches.
\<close>

theorem runner_refines_dequeue:
  assumes "gen_train_or_valid_psm cover_txt stego_txt = Inr f" and "examples N q = f"
    and "runner_run (\<lambda>_. psm_data (path_list cover_txt) (path_list stego_txt)) capacity batch_size acts (start_threads 1) = Some s"
    and "j < length (rn_out s)" and "ts_fed t q = j * batch_size"
  shows "fst (dequeue_many N q (int batch_size) t) = Inr (map snd (rn_out s ! j))"
proof -
  let ?c = "path_list cover_txt" and ?e = "path_list stego_txt"
  have l: "?c \<noteq> []" "length ?e = length ?c" "f = cycle_of (epoch ?c ?e)"
    using assms(1) by (auto simp: gen_train_or_valid_psm_def check_lists_def Let_def split: if_splits)
  have "data_of (\<lambda>_. psm_data ?c ?e) 0 k = map f [0..<2 * k]" for k
    using psm_stream [OF l(1,2)] l(3) by simp
  from one_thread_batches [OF assms(3) this assms(4)] assms(2,5) show ?thesis
    by (simp add: dequeue_many_def Let_def)
qed

definition two_examples :: "(unit, string \<times> nat) learner" where
  "two_examples = \<lparr>forward = \<lambda>p m b. [], label_of = snd, cross_entropy = \<lambda>o' l. 0, reg_loss = \<lambda>p. 0, minimize = \<lambda>r p b. p,
     schedule = \<lambda>i. 0, examples = \<lambda>q. cycle_of [(''a'', 0), (''b'', 1)]\<rparr>"

definition one_batch :: "runner_action list" where
  "one_batch = [Next 0, Put 0, Put 0, Check 0, Take, Take, Deliver]"

theorem runner_refines_dequeue_witness:
  "\<exists>s. runner_run (\<lambda>_. psm_data [''a''] [''b'']) 20 2 one_batch (start_threads 1) = Some s \<and> length (rn_out s) = 1
     \<and> fst (dequeue_many two_examples 1 (int 2) (init_session () toy_cfg)) = Inr (map snd (rn_out s ! 0))"
proof -
  have l: "path_list ''a'' = [''a'']" "path_list ''b'' = [''b'']" by code_simp+
  obtain s where s: "runner_run (\<lambda>_. psm_data [''a''] [''b'']) 20 2 one_batch (start_threads 1) = Some s" "length (rn_out s) = 1"
    by (simp add: one_batch_def start_threads_def thread_main_def take_example_def deliver_def set_thread_def psm_data_def
        pair_examples_def)
  have g: "gen_train_or_valid_psm ''a'' ''b'' = Inr (cycle_of [(''a'', 0), (''b'', 1)])"
    by (simp add: gen_train_or_valid_psm_def l check_lists_def epoch_def pair_examples_def)
  have e: "examples two_examples 1 = cycle_of [(''a'', 0), (''b'', 1)]" by (simp add: two_examples_def)
  have "fst (dequeue_many two_examples 1 (int 2) (init_session () toy_cfg)) = Inr (map snd (rn_out s ! 0))"
    by (rule runner_refines_dequeue [OF g e, of 20 2 one_batch]) (use s in \<open>simp_all add: l init_session_def del: One_nat_def\<close>)
  with s show ?thesis by blast
qed

section \<open>The batches never stop coming\<close>

text \<open>
  Between two batches every action lowers this number: an example in the queue or the batch counts against
  the room that is left, an example taken counts for the batch, and a thread goes round its loop.
\<close>

fun thread_rank :: "'x thread_state \<Rightarrow> nat" where
  "thread_rank Waiting = 1"
| "thread_rank (Feeding xs) = (if xs = [] then 2 else 0)"
| "thread_rank Ended = 0"

definition waiting_time :: "nat \<Rightarrow> nat \<Rightarrow> 'x runner \<Rightarrow> nat" where
  "waiting_time capacity batch_size s =
     3 * (capacity - length (rn_queue s) + (batch_size - length (rn_batch s))) + (batch_size - length (rn_batch s))
     + sum_list (map (thread_rank \<circ> snd) (rn_threads s))"

lemma sum_list_swap: "i < length xs \<Longrightarrow> sum_list (map f (xs[i := x])) + f (xs ! i) = sum_list (map f xs) + (f x :: nat)"
proof (induction xs arbitrary: i)
  case (Cons y ys)
  then show ?case by (cases i) (simp_all add: add.assoc [symmetric])
qed simp

lemma runner_do_faster:
  assumes "runner_do generator capacity batch_size a s = Some s'" and "runner_ok generator capacity batch_size s"
    and "\<not> rn_closed s" and "a \<noteq> Stop" and "a \<noteq> Deliver" and "\<And>i k. generator i k \<noteq> []"
  shows "waiting_time capacity batch_size s' < waiting_time capacity batch_size s"
  using assms(1)
proof (cases rule: runner_doE)
  case (Next i k)
  with sum_list_swap [OF Next(2), of "thread_rank \<circ> snd" "(Suc k, Feeding (generator i k))"] assms(6) show ?thesis
    by (simp add: waiting_time_def)
next
  case (Put i k x xs)
  with sum_list_swap [OF Put(2), of "thread_rank \<circ> snd" "(k, Feeding xs)"] show ?thesis
    by (simp add: waiting_time_def set_thread_def split: if_splits)
next
  case (Check i k)
  with sum_list_swap [OF Check(2), of "thread_rank \<circ> snd" "(k, if rn_stop s then Ended else Waiting)"] show ?thesis
    by (simp add: waiting_time_def split: if_splits)
next
  case (Take x q)
  with assms(2) show ?thesis by (simp add: waiting_time_def runner_ok_def)
qed (use assms(3-5) in simp_all)

text \<open>While the runner is not stopped, no thread has ended and something is possible.\<close>

definition running :: "'x runner \<Rightarrow> bool" where
  "running s \<longleftrightarrow> \<not> rn_stop s \<and> \<not> rn_closed s \<and> rn_threads s \<noteq> [] \<and> (\<forall>t \<in> set (rn_threads s). snd t \<noteq> Ended)"

lemma running_do:
  assumes "runner_do generator capacity batch_size a s = Some s'" and "running s" and "a \<noteq> Stop"
  shows "running s'"
  using assms(1)
  by (cases rule: runner_doE) (use assms(2,3) in \<open>auto simp: running_def set_thread_def dest!: set_update_subset_insert [THEN subsetD]\<close>)

lemma running_enabled:
  assumes "running s" and "0 < capacity" and "length (rn_batch s) \<le> batch_size" and "0 < batch_size"
  shows "\<exists>a s'. a \<noteq> Stop \<and> runner_do generator capacity batch_size a s = Some s'"
proof -
  obtain k st ts where t: "rn_threads s = (k, st) # ts" "st \<noteq> Ended" "\<not> rn_closed s"
    using assms(1) by (cases "rn_threads s") (auto simp: running_def)
  consider "st = Waiting" | "st = Feeding []" | x xs where "st = Feeding (x # xs)" "length (rn_queue s) < capacity"
    | y q where "rn_queue s = y # q"
    using t(2) assms(2) by (cases st; cases "rn_queue s") (auto, metis list.exhaust)
  then show ?thesis
  proof cases
    case 1
    with t show ?thesis by (intro exI [of _ "Next 0"]) (simp add: thread_main_def)
  next
    case 2
    with t show ?thesis by (intro exI [of _ "Check 0"]) (simp add: thread_main_def)
  next
    case 3
    with t show ?thesis by (intro exI [of _ "Put 0"]) (simp add: thread_main_def)
  next
    case 4
    show ?thesis
    proof (cases "length (rn_batch s) < batch_size")
      case True
      with 4 show ?thesis by (intro exI [of _ Take]) (simp add: take_example_def)
    next
      case False
      with assms(3) show ?thesis by (intro exI [of _ Deliver]) (simp add: deliver_def)
    qed
  qed
qed

lemma running_run:
  assumes "\<And>i k. generator i k \<noteq> []"
  shows "runner_run generator capacity batch_size acts s = Some s' \<Longrightarrow> runner_ok generator capacity batch_size s \<Longrightarrow> running s
    \<Longrightarrow> Stop \<notin> set acts \<Longrightarrow> running s' \<and> (Deliver \<notin> set acts \<longrightarrow> length acts + waiting_time capacity batch_size s' \<le> waiting_time capacity batch_size s)"
proof (induction acts arbitrary: s)
  case (Cons a acts)
  then obtain s1 where s1: "runner_do generator capacity batch_size a s = Some s1"
      "runner_run generator capacity batch_size acts s1 = Some s'"
    by (auto simp: bind_eq_Some_conv)
  have r: "running s1" using running_do [OF s1(1) Cons.prems(3)] Cons.prems(4) by auto
  have ok: "runner_ok generator capacity batch_size s1" using runner_do_ok [OF s1(1) Cons.prems(2)] .
  from Cons.IH [OF s1(2) ok r] Cons.prems(4)
  have "running s' \<and> (Deliver \<notin> set acts \<longrightarrow> length acts + waiting_time capacity batch_size s' \<le> waiting_time capacity batch_size s1)"
    by simp
  moreover have "Deliver \<noteq> a \<Longrightarrow> waiting_time capacity batch_size s1 < waiting_time capacity batch_size s"
    using runner_do_faster [OF s1(1) Cons.prems(2)] Cons.prems(3,4) assms by (auto simp: running_def)
  ultimately show ?case by force
qed simp



end
