(* ===== verification/Dataset.thy ===== *)
theory Dataset
  imports Training
begin

text \<open>
  CALPA-NET-master/prep/divide_dataset/split_dataset.py: the lists of files for training, validation and test.
  The listing of the directory and the shuffle are parameters; the files are a map from their paths to
  their text. The creation of the directory is left out.
\<close>

definition psm_input_dir :: string where
  "psm_input_dir = ''qf75/seed123/juniward20''"

definition embedding_algorithm :: string where
  "embedding_algorithm = ''juniward20''"

definition cover_path_base :: string where
  "cover_path_base = ''/data1/dataset/wuwl/psm_dataset/jpeg_domain/qf75/jpeg-mat-floats/cover''"

definition stego_path_base :: string where
  "stego_path_base = ''/data1/dataset/wuwl/psm_dataset/jpeg_domain/qf75/jpeg-mat-floats/'' @ embedding_algorithm @ ''/''"

definition list_path :: "string \<Rightarrow> string" where
  "list_path name = psm_input_dir @ ''/'' @ name @ ''.txt''"

type_synonym text_files = "string \<rightharpoonup> string"

text \<open>\<^verbatim>\<open>open(path, 'a')\<close> and \<^verbatim>\<open>open(path, 'w')\<close> with the text written to it.\<close>

definition append_text :: "string \<Rightarrow> string \<Rightarrow> text_files \<Rightarrow> text_files" where
  "append_text path t fs = fs(path \<mapsto> (case fs path of None \<Rightarrow> [] | Some u \<Rightarrow> u) @ t)"

definition write_text :: "string \<Rightarrow> string \<Rightarrow> text_files \<Rightarrow> text_files" where
  "write_text path t fs = fs(path \<mapsto> t)"

definition path_lines :: "string \<Rightarrow> string list \<Rightarrow> string" where
  "path_lines base names = concat (map (\<lambda>nm. base @ nm @ [newline]) names)"

text \<open>\<^verbatim>\<open>key[a:b]\<close> indexes the shuffled list.\<close>

definition chosen :: "string list \<Rightarrow> nat \<Rightarrow> nat \<Rightarrow> string list" where
  "chosen boss a b = map ((!) boss) (take (b - a) (drop a [0..<length boss]))"

definition split_main :: "(string list \<Rightarrow> string list) \<Rightarrow> string list \<Rightarrow> text_files \<Rightarrow> text_files" where
  "split_main shuffle image_name fs =
     (let bows2 = take 10000 image_name;
          boss = shuffle (drop 10000 image_name);
          s = nat \<lfloor>of_nat (length boss) * (2 / 5 :: pyfloat)\<rfloor>;
          s2 = s + nat \<lfloor>of_nat (length boss) * (1 / 2 :: pyfloat)\<rfloor>;
          n = length boss;
          fs1 = append_text (list_path ''train_cover'')
                  (path_lines cover_path_base (chosen boss 0 s) @ path_lines cover_path_base bows2) fs;
          fs2 = append_text (list_path ''train_stego'')
                  (path_lines stego_path_base (chosen boss 0 s) @ path_lines stego_path_base bows2) fs1;
          fs3 = write_text (list_path ''test_cover'') (path_lines cover_path_base (chosen boss s s2)) fs2;
          fs4 = write_text (list_path ''test_stego'') (path_lines stego_path_base (chosen boss s s2)) fs3;
          fs5 = write_text (list_path ''val_cover'') (path_lines cover_path_base (chosen boss s2 n)) fs4
      in write_text (list_path ''val_stego'') (path_lines stego_path_base (chosen boss s2 n)) fs5)"

section \<open>What the lists hold\<close>

definition name_ok :: "string \<Rightarrow> bool" where
  "name_ok nm \<longleftrightarrow> nm \<noteq> [] \<and> newline \<notin> set nm \<and> \<not> is_space (last nm)"

definition base_ok :: "string \<Rightarrow> bool" where
  "base_ok base \<longleftrightarrow> base \<noteq> [] \<and> newline \<notin> set base \<and> \<not> is_space (hd base)"

lemma bases_ok [simp]: "base_ok cover_path_base" "base_ok stego_path_base"
  by code_simp+

lemma split_path_lines:
  assumes "base_ok base" and "\<forall>nm \<in> set names. name_ok nm"
  shows "split_on newline (path_lines base names) = map ((@) base) names @ [[]]"
  using assms(2)
proof (induction names)
  case (Cons nm names)
  have "split_on newline ((base @ nm) @ newline # path_lines base names) = (base @ nm) # split_on newline (path_lines base names)"
    by (rule split_on_append_sep) (use assms(1) Cons.prems in \<open>simp add: base_ok_def name_ok_def\<close>)
  with Cons show ?case by (simp add: path_lines_def)
qed (simp add: path_lines_def)

lemma path_list_lines:
  assumes "base_ok base" and "\<forall>nm \<in> set names. name_ok nm"
  shows "path_list (path_lines base names) = map ((@) base) names"
proof -
  have "strip (base @ nm) = base @ nm" if "nm \<in> set names" for nm
    using assms that by (intro strip_id) (auto simp: base_ok_def name_ok_def)
  then show ?thesis by (simp add: path_list_def split_path_lines [OF assms])
qed

lemma path_lines_append: "path_lines base (xs @ ys) = path_lines base xs @ path_lines base ys"
  by (simp add: path_lines_def)

lemma chosen_slice: "b \<le> length boss \<Longrightarrow> chosen boss a b = take (b - a) (drop a boss)"
  by (rule nth_equalityI) (auto simp: chosen_def)

lemma chosen_all:
  assumes "s \<le> s2" and "s2 \<le> length boss"
  shows "chosen boss 0 s @ chosen boss s s2 @ chosen boss s2 (length boss) = boss"
proof -
  have "drop s boss = take (s2 - s) (drop s boss) @ drop s2 boss"
    using assms(1) by (metis append_take_drop_id drop_drop le_add_diff_inverse2)
  with assms show ?thesis by (simp add: chosen_slice)
qed

lemma set_chosen: "b \<le> length boss \<Longrightarrow> set (chosen boss a b) \<subseteq> set boss"
  by (metis chosen_slice set_drop_subset set_take_subset subset_trans)

lemma shares:
  "nat \<lfloor>of_nat n * (2 / 5 :: pyfloat)\<rfloor> + nat \<lfloor>of_nat n * (1 / 2 :: pyfloat)\<rfloor> \<le> n"
proof -
  have "of_int \<lfloor>of_nat n * (2 / 5 :: pyfloat)\<rfloor> + of_int \<lfloor>of_nat n * (1 / 2 :: pyfloat)\<rfloor> \<le> (of_nat n * (2 / 5) + of_nat n * (1 / 2) :: pyfloat)"
    by (intro add_mono of_int_floor_le)
  also have "\<dots> \<le> of_nat n" by simp
  finally have "\<lfloor>of_nat n * (2 / 5 :: pyfloat)\<rfloor> + \<lfloor>of_nat n * (1 / 2 :: pyfloat)\<rfloor> \<le> int n"
    by (metis of_int_add of_int_le_iff of_int_of_nat_eq)
  then show ?thesis by (simp add: nat_add_distrib [symmetric])
qed

lemma list_paths [simp]: "list_path a = list_path b \<longleftrightarrow> a = b"
  by (simp add: list_path_def)

text \<open>The covers and the stegos of a set are the same images in the same order.\<close>

definition lists_set :: "text_files \<Rightarrow> string \<Rightarrow> string list \<Rightarrow> bool" where
  "lists_set fs name names \<longleftrightarrow>
     (\<exists>c e. fs (list_path (name @ ''_cover'')) = Some c \<and> fs (list_path (name @ ''_stego'')) = Some e
        \<and> path_list c = map ((@) cover_path_base) names \<and> path_list e = map ((@) stego_path_base) names)"

lemma lists_setI:
  assumes "fs (list_path (name @ ''_cover'')) = Some (path_lines cover_path_base names)"
    and "fs (list_path (name @ ''_stego'')) = Some (path_lines stego_path_base names)" and "\<forall>nm \<in> set names. name_ok nm"
  shows "lists_set fs name names"
  using assms by (auto simp: lists_set_def path_list_lines)

lemma split_main_sets:
  assumes boss: "boss = shuffle (drop 10000 image_name)" and "mset boss = mset (drop 10000 image_name)" and "\<forall>nm \<in> set image_name. name_ok nm"
    and "fs (list_path ''train_cover'') = None" and "fs (list_path ''train_stego'') = None"
  shows "\<exists>s s2. s \<le> s2 \<and> s2 \<le> length boss
    \<and> lists_set (split_main shuffle image_name fs) ''train'' (chosen boss 0 s @ take 10000 image_name)
    \<and> lists_set (split_main shuffle image_name fs) ''test'' (chosen boss s s2)
    \<and> lists_set (split_main shuffle image_name fs) ''val'' (chosen boss s2 (length boss))"
proof -
  let ?s = "nat \<lfloor>of_nat (length boss) * (2 / 5 :: pyfloat)\<rfloor>"
  let ?s2 = "?s + nat \<lfloor>of_nat (length boss) * (1 / 2 :: pyfloat)\<rfloor>"
  have "set boss = set (drop 10000 image_name)" using assms(2) by (rule mset_eq_setD)
  then have ok: "\<forall>nm \<in> set boss. name_ok nm" using assms(3) set_drop_subset by fastforce
  have le: "?s \<le> ?s2" "?s2 \<le> length boss" using shares [of "length boss"] by simp_all
  note run = split_main_def Let_def boss [symmetric] append_text_def write_text_def assms(4,5)
  have "lists_set (split_main shuffle image_name fs) ''train'' (chosen boss 0 ?s @ take 10000 image_name)"
    by (rule lists_setI) (use ok assms(3) set_chosen [of ?s boss 0] le set_take_subset [of 10000 image_name] in
      \<open>auto simp: run path_lines_append\<close>)
  moreover have "lists_set (split_main shuffle image_name fs) ''test'' (chosen boss ?s ?s2)"
    by (rule lists_setI) (use ok set_chosen [of ?s2 boss ?s] le in \<open>auto simp: run\<close>)
  moreover have "lists_set (split_main shuffle image_name fs) ''val'' (chosen boss ?s2 (length boss))"
    by (rule lists_setI) (use ok set_chosen [of "length boss" boss ?s2] in \<open>auto simp: run\<close>)
  ultimately show ?thesis using le by blast
qed



text \<open>The training lists are opened for appending: a second run with the same shuffle lists every training image twice.\<close>

lemma split_twice:
  assumes "fs (list_path ''train_cover'') = None"
  shows "\<exists>t. split_main shuffle image_name fs (list_path ''train_cover'') = Some t
    \<and> split_main shuffle image_name (split_main shuffle image_name fs) (list_path ''train_cover'') = Some (t @ t)"
  using assms by (simp add: split_main_def Let_def append_text_def write_text_def)

end
