(* ===== verification/Lifecycle.thy ===== *)
theory Lifecycle
  imports RoutingWriters DataLayer
begin

text \<open>
  Start and end of the server processes: \<^verbatim>\<open>serve\<close> of routing-system/main.py, mitm-gateway/main.py and
  data-layer/main.py, with the operations that open and close what they share. \<open>StopSignal\<close> is the wait
  for SIGTERM or SIGINT. The tasks that run beside \<^verbatim>\<open>serve\<close> (requests, reaper, settings) are not part
  of these programs; the consumer of the data layer is, because \<^verbatim>\<open>serve\<close> waits for its end.
\<close>

section \<open>Programs that only call\<close>

text \<open>A sequence of calls, whose answers nobody reads, ends at the first that fails.\<close>

abbreviation calls :: "env \<Rightarrow> call list \<Rightarrow> ('z world_scheme, unit) prog" where
  "calls E cs \<equiv> forp cs (do_call E)"

section \<open>routing-system/main.py\<close>

definition cache_close :: "env \<Rightarrow> bool \<Rightarrow> ('z world_scheme, unit) prog" where
  "cache_close E client = whenp client (do_call E (Redis RClose))"

definition close_pool :: "env \<Rightarrow> bool \<Rightarrow> ('z world_scheme, unit) prog" where
  "close_pool E pool = whenp pool (do_call E (Pg PgClose))"

definition dispatcher_close :: "env \<Rightarrow> bool \<Rightarrow> ('z world_scheme, unit) prog" where
  "dispatcher_close E channel = whenp channel (do_call E (Grpc GrpcChannelClose))"

text \<open>
  The \<^verbatim>\<open>connect\<close> methods of the cache, the limiter and the queue only store the client, that of the
  dispatcher opens a channel without a connection. The result is whether the server was reached within the
  attempts of \<open>init_pool\<close>.
\<close>

definition router_serve :: "env \<Rightarrow> nat \<Rightarrow> string \<Rightarrow> ('z world_scheme, bool) prog" where
  "router_serve E attempts listen_addr =
     seqp (do_call E (Redis RPing))
    (bindp (init_pool E attempts) (\<lambda>pool.
     if \<not> pool then ret False
     else
       seqp (do_call E (Grpc (GrpcServerStart listen_addr)))
      (seqp (do_call E StopSignal)
      (seqp (do_call E (Grpc (GrpcServerStop 5)))
      (seqp (dispatcher_close E True)
      (seqp (cache_close E True)
      (seqp (close_pool E pool)
      (seqp (do_call E (Redis RClose)) (ret True)))))))))"

section \<open>mitm-gateway/main.py\<close>

definition gateway_serve :: "env \<Rightarrow> string \<Rightarrow> ('z world_scheme, unit) prog" where
  "gateway_serve E listen_addr =
     seqp (do_call E (Grpc (GrpcServerStart listen_addr)))
    (seqp (do_call E StopSignal) (do_call E (Grpc (GrpcServerStop 5))))"

section \<open>data-layer/main.py\<close>

definition pg_close :: "env \<Rightarrow> bool \<Rightarrow> ('z world_scheme, unit) prog" where
  "pg_close E pool = whenp pool (do_call E (Pg PgClose))"

text \<open>
  The task of the consumer makes its passes while \<^verbatim>\<open>serve\<close> waits for the signal; its exception is raised
  where \<^verbatim>\<open>serve\<close> awaits the task. The signal is placed after the consumer's last pass.
\<close>

definition data_serve :: "env \<Rightarrow> pylib \<Rightarrow> string \<Rightarrow> nat \<Rightarrow> nat \<Rightarrow> ('z world_scheme, bool) prog" where
  "data_serve E L redis_stream attempts passes =
     seqp (do_call E (Redis RPing))
    (bindp (dl_connect E attempts) (\<lambda>pool.
     if \<not> pool then ret False
     else
       bindp (catchp (seqp (consume_loop E L redis_stream passes) (ret None)) (\<lambda>e. ret (Some e))) (\<lambda>consumer_task.
       seqp (do_call E StopSignal)
      (seqp (case consumer_task of None \<Rightarrow> ret () | Some e \<Rightarrow> raise e)
      (seqp (pg_close E pool)
      (seqp (do_call E (Redis RClose)) (ret True)))))))"

section \<open>Lemmas\<close>

lemma calls_Cons:
  "calls E (c # cs) w = (case E (trace w) c of
     Inl e \<Rightarrow> (Inl e, w\<lparr>trace := trace w @ [(c, Inl e)]\<rparr>)
   | Inr v \<Rightarrow> calls E cs (w\<lparr>trace := trace w @ [(c, Inr v)]\<rparr>))"
  by (simp add: seqp_def bindp_def [of "do_call E c"]) (simp add: do_call_def bindp_def call_def ret_def Let_def split: sum.split)

lemma calls_run:
  "\<exists>es. trace (snd (calls E cs w)) = trace w @ es \<and> map fst es = take (length es) cs
    \<and> (fst (calls E cs w) = Inr () \<longrightarrow> length es = length cs)"
proof (induction cs arbitrary: w)
  case Nil
  show ?case by (simp add: ret_def)
next
  case (Cons c cs)
  let ?w = "w\<lparr>trace := trace w @ [(c, E (trace w) c)]\<rparr>"
  obtain es where es: "trace (snd (calls E cs ?w)) = trace ?w @ es" "map fst es = take (length es) cs"
      "fst (calls E cs ?w) = Inr () \<longrightarrow> length es = length cs"
    using Cons.IH by blast
  show ?case
  proof (cases "E (trace w) c")
    case (Inl e)
    then show ?thesis
      by (intro exI [of _ "[(c, Inl e)]"]) (simp add: calls_Cons del: forp.simps)
  next
    case (Inr v)
    with es show ?thesis
      by (intro exI [of _ "(c, Inr v) # es"]) (simp add: calls_Cons del: forp.simps)
  qed
qed

lemma dl_connect_init_pool: "dl_connect E n = init_pool E n"
  by (induction n) (simp_all cong: if_cong)

text \<open>The attempts to connect: each but the last one fails and is followed by a pause.\<close>

definition attempts_of :: "nat \<Rightarrow> call list" where
  "attempts_of n = concat (replicate n [Pg PgConnect, Sleep 3])"

lemma set_attempts: "set (attempts_of n) \<subseteq> {Pg PgConnect, Sleep 3}"
  by (induction n) (auto simp: attempts_of_def)

lemma init_pool_run:
  "\<exists>es. trace (snd (init_pool E n w)) = trace w @ es
    \<and> (if fst (init_pool E n w) = Inr True
       then \<exists>k v. map fst es = attempts_of k @ [Pg PgConnect] \<and> snd (last es) = Inr v
       else \<exists>k. map fst es = take (length es) (attempts_of k))"
proof (induction n arbitrary: w)
  case 0
  show ?case by (simp add: ret_def)
next
  case (Suc n)
  let ?r = "E (trace w) (Pg PgConnect)"
  let ?w1 = "w\<lparr>trace := trace w @ [(Pg PgConnect, ?r)]\<rparr>"
  let ?s = "E (trace ?w1) (Sleep 3)"
  let ?w2 = "?w1\<lparr>trace := trace ?w1 @ [(Sleep 3, ?s)]\<rparr>"
  note run = bindp_def seqp_def catchp_def do_call_def call_def ret_def Let_def
  show ?case
  proof (cases ?r)
    case (Inr v)
    then have "init_pool E (Suc n) w = (Inr True, ?w1)" by (simp add: run)
    with Inr show ?thesis
      by (intro exI [of _ "[(Pg PgConnect, Inr v)]"]) (auto simp: attempts_of_def intro!: exI [of _ 0])
  next
    case (Inl e)
    show ?thesis
    proof (cases ?s)
      case s: (Inl e')
      with Inl have "init_pool E (Suc n) w = (Inl e', ?w2)" by (simp add: run)
      with Inl s show ?thesis
        by (intro exI [of _ "[(Pg PgConnect, Inl e), (Sleep 3, Inl e')]"])
          (auto simp: attempts_of_def intro!: exI [of _ 1])
    next
      case s: (Inr u)
      with Inl have eq: "init_pool E (Suc n) w = init_pool E n ?w2" by (simp add: run)
      obtain es where es: "trace (snd (init_pool E n ?w2)) = trace ?w2 @ es"
          "if fst (init_pool E n ?w2) = Inr True
           then \<exists>k v. map fst es = attempts_of k @ [Pg PgConnect] \<and> snd (last es) = Inr v
           else \<exists>k. map fst es = take (length es) (attempts_of k)"
        using Suc.IH by blast
      have more: "attempts_of (Suc k) = Pg PgConnect # Sleep 3 # attempts_of k" for k by (simp add: attempts_of_def)
      have "es \<noteq> []" if "map fst es = attempts_of k @ [Pg PgConnect]" for k using that by auto
      then show ?thesis
        using es unfolding eq
        by (intro exI [of _ "(Pg PgConnect, ?r) # (Sleep 3, ?s) # es"])
          (auto split: if_splits simp: more intro!: exI [of _ "Suc k" for k])
    qed
  qed
qed

definition close_down :: "string \<Rightarrow> call list" where
  "close_down listen_addr =
     [Grpc (GrpcServerStart listen_addr), StopSignal, Grpc (GrpcServerStop 5), Grpc GrpcChannelClose, Redis RClose, Pg PgClose,
      Redis RClose]"

definition router_schedule :: "nat \<Rightarrow> string \<Rightarrow> call list" where
  "router_schedule n listen_addr = Redis RPing # attempts_of n @ Pg PgConnect # close_down listen_addr"

lemma router_body_calls:
  "(if \<not> pool then ret False else
       seqp (do_call E (Grpc (GrpcServerStart listen_addr)))
      (seqp (do_call E StopSignal)
      (seqp (do_call E (Grpc (GrpcServerStop 5)))
      (seqp (dispatcher_close E True)
      (seqp (cache_close E True)
      (seqp (close_pool E pool)
      (seqp (do_call E (Redis RClose)) (ret True))))))))
    = (if \<not> pool then ret False else seqp (calls E (close_down listen_addr)) (ret True))"
  by (cases pool) (simp_all add: close_down_def dispatcher_close_def cache_close_def close_pool_def whenp_def seqp_def
    bindp_assoc bindp_ret bindp_ret_right)

lemma router_serve_calls:
  "router_serve E attempts listen_addr = seqp (do_call E (Redis RPing)) (bindp (init_pool E attempts) (\<lambda>pool.
     if \<not> pool then ret False else seqp (calls E (close_down listen_addr)) (ret True)))"
  by (simp only: router_serve_def router_body_calls)

lemma first_call:
  "seqp (do_call E c) m w = (case E (trace w) c of
     Inl e \<Rightarrow> (Inl e, w\<lparr>trace := trace w @ [(c, Inl e)]\<rparr>)
   | Inr v \<Rightarrow> m (w\<lparr>trace := trace w @ [(c, Inr v)]\<rparr>))"
  by (simp add: seqp_def bindp_def do_call_def call_def ret_def Let_def split: sum.split)

lemma take_longer:
  assumes "map f xs = take (length xs) ys"
  shows "map f xs = take (length xs) (ys @ zs)"
proof -
  have "length xs = min (length ys) (length xs)" using arg_cong [OF assms, of length] by simp
  then have "length xs \<le> length ys" by linarith
  with assms show ?thesis by simp
qed

text \<open>
  Both servers ping Redis and get a pool before their body: either the body never runs, or it runs after
  the pings and attempts.
\<close>

definition start_up :: "env \<Rightarrow> nat \<Rightarrow> ('z world_scheme, bool) prog \<Rightarrow> ('z world_scheme, bool) prog" where
  "start_up E attempts body = seqp (do_call E (Redis RPing)) (bindp (init_pool E attempts) (\<lambda>pool.
     if \<not> pool then ret False else body))"

lemma start_upE:
  obtains (failed) es n where "fst (start_up E attempts body w) \<noteq> Inr True"
      "trace (snd (start_up E attempts body w)) = trace w @ es" "map fst es = take (length es) (Redis RPing # attempts_of n)"
    | (started) v es n v' w1 where "start_up E attempts body w = body w1"
      "trace w1 = trace w @ (Redis RPing, Inr v) # es @ [(Pg PgConnect, Inr v')]" "map fst es = attempts_of n"
proof (cases "E (trace w) (Redis RPing)")
  case (Inl e)
  then show ?thesis by (intro failed [of "[(Redis RPing, Inl e)]"]) (simp_all add: start_up_def first_call)
next
  case (Inr v)
  let ?w = "w\<lparr>trace := trace w @ [(Redis RPing, Inr v)]\<rparr>"
  obtain es where es: "trace (snd (init_pool E attempts ?w)) = trace ?w @ es"
      "if fst (init_pool E attempts ?w) = Inr True
       then \<exists>k v. map fst es = attempts_of k @ [Pg PgConnect] \<and> snd (last es) = Inr v
       else \<exists>k. map fst es = take (length es) (attempts_of k)"
    using init_pool_run [of E attempts ?w] by blast
  obtain r w1 where i: "init_pool E attempts ?w = (r, w1)" by fastforce
  have run: "start_up E attempts body w = bindp (init_pool E attempts) (\<lambda>pool. if \<not> pool then ret False else body) ?w"
    by (simp add: start_up_def first_call Inr)
  show ?thesis
  proof (cases "r = Inr True")
    case False
    then obtain n where n: "map fst es = take (length es) (attempts_of n)" using i es(2) by auto
    show ?thesis
    proof (rule failed)
      show "fst (start_up E attempts body w) \<noteq> Inr True"
        using False i by (auto simp: run bindp_def ret_def split: sum.split)
      show "trace (snd (start_up E attempts body w)) = trace w @ (Redis RPing, Inr v) # es"
        using False i es(1) by (auto simp: run bindp_def ret_def split: sum.split)
      show "map fst ((Redis RPing, Inr v) # es) = take (length ((Redis RPing, Inr v) # es)) (Redis RPing # attempts_of n)"
        using n by simp
    qed
  next
    case True
    with i es obtain n v' where n: "map fst es = attempts_of n @ [Pg PgConnect]" "snd (last es) = Inr v'" by auto
    then obtain es1 where e1: "es = es1 @ [(Pg PgConnect, Inr v')]" "map fst es1 = attempts_of n"
      by (cases es rule: rev_cases) auto
    from True i have "start_up E attempts body w = body w1" by (simp add: run bindp_def)
    with i es(1) e1 show ?thesis by (intro started [of w1 v es1 v' n]) simp_all
  qed
qed

lemma router_serve_start_up:
  "router_serve E attempts addr = start_up E attempts (seqp (calls E (close_down addr)) (ret True))"
  by (simp only: router_serve_calls start_up_def)

lemma calls_then:
  "\<exists>es. trace (snd (seqp (calls E cs) (ret True) w)) = trace w @ es \<and> map fst es = take (length es) cs
    \<and> (fst (seqp (calls E cs) (ret True) w) = Inr True \<longrightarrow> length es = length cs)"
proof -
  obtain r w' where c: "calls E cs w = (r, w')" by fastforce
  with calls_run [of cs E w] show ?thesis by (auto simp: seqp_def bindp_def ret_def split: sum.split simp del: forp.simps)
qed

text \<open>
C16: The router opens in order and closes everything. The calls of \<^verbatim>\<open>serve\<close> are the beginning of one schedule: ping of
Redis, attempts to get the pool, start of the server, wait for the signal, stop of the server, and then the channel, the
cache's client, the pool and the client are closed. The server is only started when Redis has answered and the pool
is there, and a run that returns made the whole schedule.
\<close>

theorem router_lifecycle:
  fixes w :: "'z world_scheme"
  assumes es: "es = new_events (router_serve E attempts addr) w"
  shows "(\<exists>n. map fst es = take (length es) (router_schedule n addr))
    \<and> (fst (router_serve E attempts addr w) = Inr True \<longrightarrow> (\<exists>n. map fst es = router_schedule n addr))
    \<and> (Grpc (GrpcServerStart addr) \<in> fst ` set es \<longrightarrow>
         (\<exists>v v' es' es''. es = (Redis RPing, Inr v) # es' @ (Pg PgConnect, Inr v') # es'' \<and> Grpc (GrpcServerStart addr) \<notin> fst ` set es'))"
proof (rule start_upE [of E attempts "seqp (calls E (close_down addr)) (ret True) :: ('z world_scheme, bool) prog" w], goal_cases)
  case (1 es' n)
  then have e: "es = es'" by (simp add: es new_events_def router_serve_start_up)
  have "Grpc (GrpcServerStart addr) \<notin> fst ` set es"
  proof -
    have "set (map fst es) \<subseteq> insert (Redis RPing) (set (attempts_of n))"
      unfolding e 1(3) using set_take_subset [of _ "Redis RPing # attempts_of n"] by simp
    then show ?thesis using set_attempts [of n] by auto
  qed
  moreover have "map fst es = take (length es) (router_schedule n addr)"
    using take_longer [OF 1(3), of "Pg PgConnect # close_down addr"] by (simp add: e router_schedule_def)
  ultimately show ?thesis using 1(1) unfolding router_serve_start_up by blast
next
  case (2 v es1 n v' w1)
  obtain es2 where e2: "trace (snd (seqp (calls E (close_down addr)) (ret True) w1)) = trace w1 @ es2"
      "map fst es2 = take (length es2) (close_down addr)"
      "fst (seqp (calls E (close_down addr)) (ret True) w1) = Inr True \<longrightarrow> length es2 = length (close_down addr)"
    using calls_then by blast
  have e: "es = (Redis RPing, Inr v) # es1 @ (Pg PgConnect, Inr v') # es2"
    using 2(1,2) e2(1) by (simp add: es new_events_def router_serve_start_up)
  have l: "length es1 = length (attempts_of n)" using 2(3) by (metis length_map)
  have "map fst es = take (length es) (router_schedule n addr)"
    using 2(3) e2(2) l by (simp add: e router_schedule_def)
  moreover have "fst (router_serve E attempts addr w) = Inr True \<Longrightarrow> map fst es = router_schedule n addr"
    using 2(1,3) e2(2,3) by (simp add: e router_schedule_def router_serve_start_up)
  moreover have "Grpc (GrpcServerStart addr) \<notin> fst ` set es1"
    using set_attempts [of n] arg_cong [OF 2(3), of set] by auto
  ultimately show ?thesis using e by blast
qed

theorem router_lifecycle_witness:
  "\<exists>n. map fst (new_events (router_serve (\<lambda>h c. Inr PNone) 1 ''a'') \<lparr>trace = []\<rparr>) = router_schedule n ''a''"
proof -
  have "fst (router_serve (\<lambda>h c. Inr PNone) 1 ''a'' \<lparr>trace = []\<rparr>) = Inr True"
    by (simp add: router_serve_def first_call)
      (simp add: bindp_def catchp_def first_call ret_def dispatcher_close_def cache_close_def close_pool_def whenp_def)
  with router_lifecycle [OF refl, of "\<lambda>h c. Inr PNone" 1 "''a''" "\<lparr>trace = []\<rparr>"] show ?thesis by blast
qed

section \<open>The data layer\<close>

fun consumer_call :: "call \<Rightarrow> bool" where
  "consumer_call (Redis (XGroupCreate _ _ _)) = True"
| "consumer_call (Redis (XReadGroup _ _ _ _ _)) = True"
| "consumer_call (Redis (XAck _ _ _)) = True"
| "consumer_call (Pg (PgExecute _ _)) = True"
| "consumer_call Clock = True"
| "consumer_call (Sleep _) = True"
| "consumer_call _ = False"

lemma adds_consumer_calls: "adds (list_all (\<lambda>e. consumer_call (fst e))) (consume_loop E L s n)"
  unfolding consume_loop_def ensure_group_def consume_pass_def consume_message_def insert_event_def
  by (auto intro!: all_events.adds_intros split: prod.split)

lemma consume_loop_run:
  obtains r w' es where "consume_loop E L s n w = (r, w')" and "trace w' = trace w @ es"
    and "acks_follow False es" and "list_all (\<lambda>e. consumer_call (fst e)) es"
proof -
  obtain r w' where rw: "consume_loop E L s n w = (r, w')" by fastforce
  obtain es where es: "trace w' = trace w @ es" "acks_follow False es"
    using addsD [OF adds_consume_loop rw] by blast
  moreover obtain es' where "trace w' = trace w @ es'" "list_all (\<lambda>e. consumer_call (fst e)) es'"
    using addsD [OF adds_consumer_calls rw] by blast
  ultimately show ?thesis using that rw by simp
qed

text \<open>After the pool: the consumer, the signal, and the end.\<close>

definition data_body :: "env \<Rightarrow> pylib \<Rightarrow> string \<Rightarrow> nat \<Rightarrow> ('z world_scheme, bool) prog" where
  "data_body E L redis_stream passes =
     bindp (catchp (seqp (consume_loop E L redis_stream passes) (ret None)) (\<lambda>e. ret (Some e))) (\<lambda>consumer_task.
     seqp (do_call E StopSignal)
    (seqp (case consumer_task of None \<Rightarrow> ret () | Some e \<Rightarrow> raise e)
          (seqp (calls E [Pg PgClose, Redis RClose]) (ret True))))"

lemma data_body_if:
  "(if \<not> pool then ret False else
       bindp (catchp (seqp (consume_loop E L s passes) (ret None)) (\<lambda>e. ret (Some e))) (\<lambda>consumer_task.
       seqp (do_call E StopSignal)
      (seqp (case consumer_task of None \<Rightarrow> ret () | Some e \<Rightarrow> raise e)
      (seqp (pg_close E pool)
      (seqp (do_call E (Redis RClose)) (ret True)))))) = (if \<not> pool then ret False else data_body E L s passes)"
  by (cases pool) (simp_all add: data_body_def pg_close_def whenp_def seqp_def bindp_assoc bindp_ret bindp_ret_right)

lemma data_serve_start_up: "data_serve E L s attempts passes = start_up E attempts (data_body E L s passes)"
  by (simp only: data_serve_def dl_connect_init_pool data_body_if start_up_def)

lemma data_body_returns:
  assumes "fst (data_body E L s passes w) = Inr True"
  shows "\<exists>consumed es. trace (snd (data_body E L s passes w)) = trace w @ consumed @ es
    \<and> map fst es = [StopSignal, Pg PgClose, Redis RClose]
    \<and> acks_follow False consumed \<and> list_all (\<lambda>e. consumer_call (fst e)) consumed"
proof -
  obtain r w1 consumed where c: "consume_loop E L s passes w = (r, w1)" "trace w1 = trace w @ consumed"
      "acks_follow False consumed" "list_all (\<lambda>e. consumer_call (fst e)) consumed"
    by (rule consume_loop_run)
  obtain u v where r: "r = Inr u" and v: "E (trace w1) StopSignal = Inr v"
    using assms c(1)
    by (cases r; cases "E (trace w1) StopSignal")
      (simp_all add: data_body_def bindp_def [of "catchp _ _"] catchp_def seqp_def [of "consume_loop _ _ _ _"]
        bindp_def [of "consume_loop _ _ _ _"] ret_def [of None] ret_def [of "Some _"] first_call seqp_def [of "raise _"]
        bindp_def [of "raise _"] raise_def del: forp.simps)
  let ?w2 = "w1\<lparr>trace := trace w1 @ [(StopSignal, Inr v)]\<rparr>"
  have run: "data_body E L s passes w = seqp (calls E [Pg PgClose, Redis RClose]) (ret True) ?w2"
    using c(1) r v
    by (simp add: data_body_def bindp_def [of "catchp _ _"] catchp_def seqp_def [of "consume_loop _ _ _ _"]
        bindp_def [of "consume_loop _ _ _ _"] ret_def [of None] first_call seqp_def [of "ret ()"] bindp_ret bindp_ret_right del: forp.simps)
  obtain es where "trace (snd (seqp (calls E [Pg PgClose, Redis RClose]) (ret True) ?w2)) = trace ?w2 @ es"
      "map fst es = take (length es) [Pg PgClose, Redis RClose]" "length es = length [Pg PgClose, Redis RClose]"
    using calls_then [of "[Pg PgClose, Redis RClose]" E ?w2] assms unfolding run by blast
  then have "trace (snd (data_body E L s passes w)) = trace w @ consumed @ (StopSignal, Inr v) # es"
      "map fst ((StopSignal, Inr v) # es) = [StopSignal, Pg PgClose, Redis RClose]"
    using c(2) by (simp_all add: run del: forp.simps)
  with c(3,4) show ?thesis by (intro exI [of _ consumed] exI [of _ "(StopSignal, Inr v) # es"]) simp
qed

text \<open>
The data layer ends in order. A run of \<^verbatim>\<open>serve\<close> that returns pinged Redis, got the pool, let the consumer end, and
only then closed the pool and the client: between the pool and the signal there are only calls of the consumer, in
which every acknowledgement directly follows a successful insert, and after the pool is closed nothing is inserted.
\<close>

lemma data_layer_lifecycle:
  fixes w :: "'z world_scheme"
  assumes "fst (data_serve E L redis_stream attempts passes w) = Inr True"
  shows "\<exists>n started consumed ended. new_events (data_serve E L redis_stream attempts passes) w = started @ consumed @ ended
    \<and> map fst started = Redis RPing # attempts_of n @ [Pg PgConnect]
    \<and> acks_follow False consumed \<and> list_all (\<lambda>e. consumer_call (fst e)) consumed
    \<and> map fst ended = [StopSignal, Pg PgClose, Redis RClose]"
proof (rule start_upE [of E attempts "data_body E L redis_stream passes :: ('z world_scheme, bool) prog" w], goal_cases)
  case (1 es n)
  with assms show ?case by (simp add: data_serve_start_up)
next
  case (2 v es n v' w1)
  have "fst (data_body E L redis_stream passes w1) = Inr True" using assms unfolding data_serve_start_up 2(1) .
  then obtain consumed ended where b: "trace (snd (data_body E L redis_stream passes w1)) = trace w1 @ consumed @ ended"
      "map fst ended = [StopSignal, Pg PgClose, Redis RClose]"
      "acks_follow False consumed" "list_all (\<lambda>e. consumer_call (fst e)) consumed"
    using data_body_returns [of E L redis_stream passes w1] by auto
  let ?started = "(Redis RPing, Inr v) # es @ [(Pg PgConnect, Inr v')]"
  have "new_events (data_serve E L redis_stream attempts passes) w = ?started @ consumed @ ended"
    unfolding new_events_def data_serve_start_up 2(1) b(1) 2(2) by simp
  moreover have "map fst ?started = Redis RPing # attempts_of n @ [Pg PgConnect]" using 2(3) by simp
  ultimately show ?case using b(2-4) by (intro exI conjI)
qed

lemma data_layer_lifecycle_witness:
  "\<exists>started consumed ended. new_events (data_serve (\<lambda>h c. Inr PNone) ref_lib ''q'' 1 1) \<lparr>trace = []\<rparr> = started @ consumed @ ended
    \<and> map fst ended = [StopSignal, Pg PgClose, Redis RClose]"
proof -
  have "fst (data_serve (\<lambda>h c. Inr PNone) ref_lib ''q'' 1 1 \<lparr>trace = []\<rparr>) = Inr True"
    by (simp add: data_serve_def first_call)
      (simp add: consume_loop_def ensure_group_def consume_pass_def pg_close_def run_defs)
  from data_layer_lifecycle [OF this] show ?thesis by (elim exE conjE) (intro exI conjI)
qed



section \<open>The gateway\<close>

lemma gateway_serve_calls:
  "gateway_serve E addr = calls E [Grpc (GrpcServerStart addr), StopSignal, Grpc (GrpcServerStop 5)]"
  by (simp add: gateway_serve_def seqp_def fun_eq_iff bindp_def ret_def split: prod.split sum.split)

end
