(* ===== verification/Delivery.thy ===== *)
theory Delivery
  imports Servicer Gateways
begin

text \<open>
  What the two probes hand to the router, and what becomes of it there: the session keys that the agent
  reads from the key log, and the images that the proxy takes off a connection.
\<close>

section \<open>Lines of keys\<close>

text \<open>The key lines of a text are the same with and without its outer white space.\<close>

definition text_keys :: "string list \<Rightarrow> string list" where
  "text_keys ls = filter (\<lambda>l. l \<noteq> [] \<and> \<not> startswith l ''#'') (map strip ls)"

lemma text_keys_simps [simp]:
  "text_keys [] = []"
  "text_keys (l # ls) = (if strip l \<noteq> [] \<and> \<not> startswith (strip l) ''#'' then [strip l] else []) @ text_keys ls"
  "text_keys (ls @ ms) = text_keys ls @ text_keys ms"
  by (simp_all add: text_keys_def)

lemma strip_Nil [simp]: "strip [] = []"
  by (simp add: strip_def lstrip_def rstrip_def)

lemma strip_space_Cons: "is_space c \<Longrightarrow> strip (c # s) = strip s"
  by (simp add: strip_def lstrip_def)

lemma strip_space_snoc: "is_space c \<Longrightarrow> strip (s @ [c]) = strip s"
  by (induction s) (auto simp: strip_def lstrip_def rstrip_def)

lemma split_on_snoc:
  "split_on d (s @ [c]) = (if c = d then split_on d s @ [[]] else butlast (split_on d s) @ [last (split_on d s) @ [c]])"
proof (induction s)
  case (Cons x s)
  obtain y ys where "split_on d s = y # ys" by (cases "split_on d s") simp_all
  with Cons show ?case by (cases ys; cases "c = d") simp_all
qed simp

lemma text_keys_Cons: "is_space c \<Longrightarrow> text_keys (split_on newline (c # s)) = text_keys (split_on newline s)"
  by (cases "split_on newline s") (simp_all add: strip_space_Cons)

lemma text_keys_snoc: "is_space c \<Longrightarrow> text_keys (split_on newline (s @ [c])) = text_keys (split_on newline s)"
  by (cases "split_on newline s" rule: rev_cases) (simp_all add: split_on_snoc strip_space_snoc)

lemma text_keys_lstrip: "text_keys (split_on newline (lstrip s)) = text_keys (split_on newline s)"
proof (induction s)
  case (Cons c s)
  then show ?case by (cases "is_space c") (simp_all add: lstrip_def text_keys_Cons del: split_on.simps)
qed (simp add: lstrip_def)

lemma text_keys_rstrip: "text_keys (split_on newline (rstrip s)) = text_keys (split_on newline s)"
proof (induction s rule: rev_induct)
  case (snoc c s)
  then show ?case by (cases "is_space c") (simp_all add: rstrip_def text_keys_snoc)
qed (simp add: rstrip_def)

lemma key_lines_text: "key_lines t = text_keys (split_on newline t)"
  unfolding key_lines_def text_keys_def [symmetric] by (simp add: strip_def text_keys_rstrip text_keys_lstrip)

lemma key_lines_joined:
  assumes "\<forall>l \<in> set ls. newline \<notin> set l"
  shows "key_lines (join [newline] ls) = text_keys ls"
proof (cases "ls = []")
  case False
  with assms show ?thesis by (simp add: key_lines_text split_on_join)
qed simp

lemma file_lines_no_newline: "newline \<notin> set cur \<Longrightarrow> l \<in> set (file_lines cur s) \<Longrightarrow> newline \<notin> set l"
  by (induction cur s rule: file_lines.induct) (auto split: if_splits)

lemma text_keys_key_line: "text_keys (filter key_line ls) = text_keys ls"
proof (induction ls)
  case (Cons l ls)
  have "startswith (strip l) ''#''" if s: "startswith l ''#''"
  proof -
    obtain r where r: "l = CHR ''#'' # r" using s by (cases l) (auto simp: startswith_def)
    have h: "\<not> is_space CHR ''#''" by (simp add: is_space_def)
    have "strip l = rstrip (CHR ''#'' # r)" using r h by (simp add: strip_def lstrip_def)
    moreover have "rstrip (CHR ''#'' # r) \<noteq> [] \<and> hd (rstrip (CHR ''#'' # r)) = CHR ''#''"
      using h by (induction r rule: rev_induct) (auto simp: rstrip_def)
    ultimately show ?thesis by (cases "rstrip (CHR ''#'' # r)") (simp_all add: startswith_def)
  qed
  with Cons show ?case by (auto simp: key_line_def)
qed simp

section \<open>From the key log to the key store\<close>

text \<open>The iterations of the agent's generator that yield a chunk.\<close>

fun yielded :: "pyfloat \<Rightarrow> iteration list \<Rightarrow> iteration list" where
  "yielded deadline [] = []"
| "yielded deadline (i # is) =
     (if it_stop i \<or> it_clock i \<ge> deadline then []
      else if it_packet i = None then yielded deadline is else i # yielded deadline is)"

lemma chunk_generator_yielded:
  "chunk_generator ep deadline iters = map (\<lambda>i. packet_chunk ep (the (it_packet i)) (it_keys i)) (yielded deadline iters)"
  by (induction iters) (auto split: option.splits)

definition sent_keys :: "payload_chunk \<Rightarrow> string \<times> string" where
  "sent_keys c = (ck_endpoint_id c, ck_ssl_keylog c)"

lemma add_keys_Nil: "add_keys ks ep [] = ks"
  by (simp add: add_keys_def)

lemma all_taken: "False \<notin> set taken \<Longrightarrow> filter snd (zip cs taken) = zip cs taken"
  unfolding filter_id_conv by (metis (full_types) prod.collapse set_zip_rightD)

lemma okp_receive_keys:
  "okp (receive_chunk E cfg c) (\<lambda>taken w'. key_store w' =
     (if taken then add_keys (key_store w) (ck_endpoint_id c) (ck_ssl_keylog c) else key_store w)) w"
  unfolding receive_chunk_def okp_bindp
proof (rule okp_mono [OF okp_is_allowed])
  fix b and w' :: router
  assume "\<exists>tr. w' = w\<lparr>trace := tr\<rparr>"
  then have k: "key_store w' = key_store w" by auto
  show "okp (if \<not> b then ret False else accept_chunk E c) (\<lambda>taken w'. key_store w' =
     (if taken then add_keys (key_store w) (ck_endpoint_id c) (ck_ssl_keylog c) else key_store w)) w'"
    using k by (cases "ck_ssl_keylog c = []") (auto simp: accept_chunk_def okp_simps add_keys_Nil)
qed

lemma okp_receive_all_keys:
  "okp (mapp (receive_chunk E cfg) cs) (\<lambda>taken w'. length taken = length cs \<and> key_store w' =
     foldl (\<lambda>s c. add_keys s (fst c) (snd c)) (key_store w) (map sent_keys (map fst (filter snd (zip cs taken))))) w"
proof -
  let ?I = "\<lambda>cs0 ys w'. length ys = length cs0 \<and> key_store w' =
     foldl (\<lambda>s c. add_keys s (fst c) (snd c)) (key_store w) (map sent_keys (map fst (filter snd (zip cs0 ys))))"
  have "okp (mapp (receive_chunk E cfg) cs) (\<lambda>zs s'. ?I ([] @ cs) ([] @ zs) s') w"
  proof (rule okp_mapp_fold [where I = ?I])
    fix cs0 ys c and s :: router
    assume I: "?I cs0 ys s"
    show "okp (receive_chunk E cfg c) (\<lambda>y s'. ?I (cs0 @ [c]) (ys @ [y]) s') s"
      by (rule okp_mono [OF okp_receive_keys]) (use I in \<open>auto simp: sent_keys_def\<close>)
  qed simp
  then show ?thesis by simp
qed

lemma known_keys:
  assumes "ep \<noteq> []"
  shows "set (dict_get (foldl (\<lambda>s c. add_keys s (fst c) (snd c)) ks (map sent_keys cs)) ep [])
    = set (dict_get ks ep []) \<union> (\<Union>c \<in> {c \<in> set cs. ck_endpoint_id c = ep}. set (key_lines (ck_ssl_keylog c)))"
  using store_log.known_fold [OF assms, of ks "map sent_keys cs"] by (force simp: sent_keys_def)

text \<open>The lines the agent sends, seen as the router reads them.\<close>

lemma packet_chunk_keys:
  assumes "\<forall>l \<in> set (it_keys i). newline \<notin> set l"
  shows "key_lines (ck_ssl_keylog (packet_chunk ep (the (it_packet i)) (it_keys i))) = text_keys (it_keys i)"
  using assms by (simp add: packet_chunk_def key_lines_joined)

lemma set_text_keys_concat: "set (text_keys (concat lss)) = (\<Union>ls \<in> set lss. set (text_keys ls))"
  by (induction lss) simp_all

lemma keys_ok_fold: "key_table_ok ks \<Longrightarrow> key_table_ok (foldl (\<lambda>s c. add_keys s (fst c) (snd c)) ks cs)"
  by (induction cs arbitrary: ks) (auto intro: add_keys_ok)

text \<open>
C4: The session keys reach the router. If the key log grows by whole lines and the lines found are drained with the
packets of a cycle, the router, after it received the chunks of that cycle, exports for the endpoint no other keys than
it had and the key lines of the file (stripped, without blank lines and comments); and it exports all of them, if no chunk
was refused by the limiter.
\<close>

theorem session_keys_reach_router:
  assumes grows: "appended [] polls" and drained: "concat (map it_keys (yielded deadline iters)) = watch_keylog 0 polls"
    and received: "mapp (receive_chunk E cfg) (chunk_generator ep deadline iters) w = (Inr taken, w')"
    and ep: "ep \<noteq> []" and ok: "set_order (set_iter cfg)" "key_table_ok (key_store w)"
    and exported: "exported = (\<lambda>v. set (key_lines (fst (get_keys (set_iter cfg) (key_store v) ep))))"
    and in_file: "file_keys = set (text_keys (file_lines [] (final_content [] polls)))"
  shows "exported w' \<subseteq> exported w \<union> file_keys \<and> (False \<notin> set taken \<longrightarrow> exported w' = exported w \<union> file_keys)"
proof -
  let ?is = "yielded deadline iters"
  let ?chunk = "\<lambda>i. packet_chunk ep (the (it_packet i)) (it_keys i)"
  let ?cs = "map ?chunk ?is" and ?taken = "map fst (filter snd (zip (map ?chunk ?is) taken))"
  have r: "length taken = length ?cs" "key_store w' = foldl (\<lambda>s c. add_keys s (fst c) (snd c)) (key_store w) (map sent_keys ?taken)"
    using okpD [OF okp_receive_all_keys, of E cfg "chunk_generator ep deadline iters" w taken] received
    by (simp_all add: chunk_generator_yielded)
  have drained_lines: "set (concat (map it_keys ?is)) \<subseteq> set (file_lines [] (final_content [] polls))"
    unfolding drained using watch_keylog_lines [OF grows] by auto
  have nl: "\<forall>l \<in> set (it_keys i). newline \<notin> set l" if "i \<in> set ?is" for i
    using drained_lines that file_lines_no_newline [of "[]"] by fastforce
  have keys: "set (key_lines (ck_ssl_keylog (?chunk i))) = set (text_keys (it_keys i))" "ck_endpoint_id (?chunk i) = ep"
    if "i \<in> set ?is" for i
    using packet_chunk_keys [OF nl [OF that]] by (simp_all add: packet_chunk_def)
  have all: "(\<Union>c \<in> set ?cs. set (key_lines (ck_ssl_keylog c))) = file_keys"
  proof -
    have "(\<Union>c \<in> set ?cs. set (key_lines (ck_ssl_keylog c))) = set (text_keys (concat (map it_keys ?is)))"
      using keys(1) by (auto simp: set_text_keys_concat)
    also have "text_keys (concat (map it_keys ?is)) = text_keys (file_lines [] (final_content [] polls))"
      unfolding drained using watch_keylog_lines [OF grows] by (simp add: text_keys_key_line)
    finally show ?thesis by (simp add: in_file)
  qed
  have exp: "exported v = set (dict_get (key_store v) ep [])" if "key_table_ok (key_store v)" for v
    using export_lines [OF ok(1) that, of ep] by (simp add: exported)
  have "key_table_ok (key_store w')" unfolding r(2) by (rule keys_ok_fold [OF ok(2)])
  then have e: "exported w' = exported w \<union> (\<Union>c \<in> {c \<in> set ?taken. ck_endpoint_id c = ep}. set (key_lines (ck_ssl_keylog c)))"
    using exp ok(2) known_keys [OF ep, of "key_store w" ?taken] r(2) by simp
  have sub: "set ?taken \<subseteq> set ?cs" by (auto dest: set_zip_leftD)
  have "?taken = ?cs" if "False \<notin> set taken"
  proof -
    show ?thesis unfolding all_taken [OF that] using r(1) by simp
  qed
  moreover have "{c \<in> set ?cs. ck_endpoint_id c = ep} = set ?cs" using keys(2) by auto
  ultimately have "exported w' = exported w \<union> file_keys" if "False \<notin> set taken" using e all that by presburger
  moreover have "(\<Union>c \<in> {c \<in> set ?taken. ck_endpoint_id c = ep}. set (key_lines (ck_ssl_keylog c))) \<subseteq> file_keys"
    unfolding all [symmetric] using sub by blast
  then have "exported w' \<subseteq> exported w \<union> file_keys" using e by blast
  ultimately show ?thesis by blast
qed

definition key_iteration :: iteration where
  "key_iteration = \<lparr>it_stop = False, it_clock = 0,
     it_packet = Some \<lparr>cp_raw_bytes = [1], cp_sha256 = [], cp_src_ip = ''a'', cp_dst_ip = ''b'', cp_src_port = 1, cp_dst_port = 2,
                       cp_captured_at = 0\<rparr>, it_keys = [''CLIENT_RANDOM 1'']\<rparr>"

theorem session_keys_reach_router_witness:
  "\<exists>w'. mapp (receive_chunk router_env sample_cfg) (chunk_generator ''e'' 5 [key_iteration]) (init_router []) = (Inr [True], w')
     \<and> set (key_lines (fst (get_keys (set_iter sample_cfg) (key_store w') ''e''))) = {''CLIENT_RANDOM 1''}"
proof -
  obtain w' where r: "mapp (receive_chunk router_env sample_cfg) (chunk_generator ''e'' 5 [key_iteration]) (init_router []) = (Inr [True], w')"
    by (simp add: run_defs receive_chunk_def accept_chunk_def is_allowed_def rl_pipeline_def router_env_def sample_cfg_def
        key_iteration_def packet_chunk_def init_router_def)
  let ?polls = "[Some (''CLIENT_RANDOM 1'' @ [newline])]"
  have g: "appended [] ?polls" by simp
  have d: "concat (map it_keys (yielded 5 [key_iteration])) = watch_keylog 0 ?polls"
    by (simp add: key_iteration_def keylog_poll_def key_line_def startswith_def)
  have o: "set_order (set_iter sample_cfg)" "key_table_ok (key_store (init_router []))"
    by (simp_all add: set_order_def sample_cfg_def init_router_def key_table_ok_Nil)
  have k: "text_keys (file_lines [] (final_content [] ?polls)) = [''CLIENT_RANDOM 1'']"
    "key_lines (fst (get_keys (set_iter sample_cfg) (key_store (init_router [])) ''e'')) = []"
    by (simp_all add: strip_def lstrip_def rstrip_def is_space_def startswith_def get_keys_def dict_get_def init_router_def sample_cfg_def)
  from session_keys_reach_router [OF g d r _ o refl refl]
  have "set (key_lines (fst (get_keys (set_iter sample_cfg) (key_store w') ''e''))) = {''CLIENT_RANDOM 1''}"
    unfolding k by simp
  with r show ?thesis by blast
qed

section \<open>The images of a connection\<close>

fun is_queued :: "event \<Rightarrow> bool" where
  "is_queued (Redis (XAdd _ _ _), _) = True"
| "is_queued _ = False"

fun is_analysis :: "event \<Rightarrow> bool" where
  "is_analysis (Grpc (GrpcAnalyze _ _ _ _ _ _), _) = True"
| "is_analysis _ = False"

lemma queued_loud: "is_queued e \<Longrightarrow> loud e"
  by (cases e rule: is_queued.cases) simp_all

lemma analysis_loud: "is_analysis e \<Longrightarrow> loud e"
  by (cases e rule: is_analysis.cases) simp_all

lemma event_entry_sha [simp]: "map_of (event_entry L ev now) ''sha256'' = Some (ev_sha256 ev)"
  by (simp add: event_entry_def)

lemma event_sha [simp]:
  "ev_sha256 (base_event sid ep sha v score chunk n pcap img) = sha"
  "ev_sha256 (result_event sid ep sha r chunk n pcap img) = sha"
  by (simp_all add: base_event_def result_event_def plain_event_def)

text \<open>The digest under which an event is queued.\<close>

definition queued_sha :: "hist \<Rightarrow> string \<Rightarrow> bool" where
  "queued_sha es sha \<longleftrightarrow> (\<forall>nm entry n r. (Redis (XAdd nm entry n), r) \<in> set es \<longrightarrow> map_of entry ''sha256'' = Some sha)"

lemma queued_sha_simps [simp]:
  "queued_sha [] sha"
  "queued_sha (es @ fs) sha \<longleftrightarrow> queued_sha es sha \<and> queued_sha fs sha"
  "queued_sha ((Redis (XAdd nm entry n), r) # es) sha \<longleftrightarrow> map_of entry ''sha256'' = Some sha \<and> queued_sha es sha"
  "queued_sha ((Redis (HGetAll k), r) # es) sha \<longleftrightarrow> queued_sha es sha"
  "queued_sha ((Redis (HSet k m), r) # es) sha \<longleftrightarrow> queued_sha es sha"
  "queued_sha ((Grpc g, r) # es) sha \<longleftrightarrow> queued_sha es sha"
  unfolding queued_sha_def by (simp_all, blast+)

text \<open>One event queued under the digest, after at most one analysis.\<close>

definition judged_once :: "hist \<Rightarrow> string \<Rightarrow> bool" where
  "judged_once es sha \<longleftrightarrow> length (filter is_queued es) = 1 \<and> length (filter is_analysis es) \<le> 1 \<and> queued_sha es sha"

lemma protocol_judged_once:
  assumes "stream_protocol L cfg sid data es"
  shows "judged_once es (sha256_hex L (concat (st_chunks data)))"
proof -
  let ?sha = "sha256_hex L (concat (st_chunks data))"
  have hit: "judged_once [(Redis (HGetAll k), r), (Redis (XAdd nm (event_entry L ev now) n), v)] ?sha"
    if "ev_sha256 ev = ?sha" for k r nm ev now n v
    using that by (simp add: judged_once_def)
  have miss: "judged_once ([(Redis (HGetAll k), r), (Grpc (GrpcAnalyze a b c d e f), rep)]
      @ (if p then [] else [(Redis (HSet k' m), y)]) @ [(Redis (XAdd nm (event_entry L ev now) n), v)]) ?sha"
    if "ev_sha256 ev = ?sha" for k r a b c d e f rep p k' m y nm ev now n v
    using that by (simp add: judged_once_def)
  from assms show ?thesis
    unfolding stream_protocol_def Let_def
    apply (elim exE disjE conjE)
    subgoal by (simp only: hit event_sha)
    subgoal by (simp only: hit event_sha)
    subgoal by (simp only: miss event_sha)
    done
qed

lemma receive_one_stream:
  assumes "mapp (receive_chunk E cfg) cs w = (Inr taken, w')" and "streams w = []" and "False \<notin> set taken" and "cs \<noteq> []"
    and "\<forall>c \<in> set cs. ck_stream_id c = sid"
  shows "\<exists>data. map_of (streams w') sid = Some data \<and> st_chunks data = map ck_raw_bytes cs \<and> st_metadata data = hd cs
    \<and> (\<forall>sid'. sid' \<noteq> sid \<longrightarrow> map_of (streams w') sid' = None)"
proof -
  from okpD [OF okp_receive_chunks, of E cfg cs w taken] assms(1,2) obtain xs where
    xs: "streams w' = foldl (alist.push (\<lambda>x. ck_stream_id (fst x)) stream_entry) [] xs"
      "map fst xs = map fst (filter snd (zip cs taken))" "length taken = length cs" by auto
  have "map fst (filter snd (zip cs taken)) = cs"
    unfolding all_taken [OF assms(3)] using xs(3) by simp
  then have cs: "map fst xs = cs" using xs(2) by simp
  have own: "\<forall>x \<in> set xs. ck_stream_id (fst x) = sid" using assms(5) unfolding cs [symmetric] by simp
  have ne: "xs \<noteq> []" using assms(4) cs by auto
  have hd: "fst (hd xs) = hd cs" using ne unfolding cs [symmetric] by (simp add: list.map_sel(1))
  have raw: "map (\<lambda>x. ck_raw_bytes (fst x)) xs = map ck_raw_bytes cs" unfolding cs [symmetric] by simp
  have none: "map_of (streams w') sid' = None" if "sid' \<noteq> sid" for sid'
  proof -
    have "filter (\<lambda>x. ck_stream_id (fst x) = sid') xs = []" using own that by (auto simp: filter_empty_conv)
    then show ?thesis by (simp add: xs(1) alist.get_pushes)
  qed
  have "filter (\<lambda>x. ck_stream_id (fst x) = sid) xs = xs" using own by (simp add: filter_id_conv)
  then have "map_of (streams w') sid = foldl (\<lambda>v x. Some (stream_entry v x)) None xs"
    by (simp add: xs(1) alist.get_pushes)
  then obtain data where "map_of (streams w') sid = Some data" "st_chunks data = map ck_raw_bytes cs" "st_metadata data = hd cs"
    using ne hd raw by (cases xs) (simp_all add: stream_entries)
  with none show ?thesis by blast
qed


definition sample_flow :: http_flow where
  "sample_flow = \<lparr>client_peer = Some (''c'', 1), server_peer = Some (''d'', 2)\<rparr>"


end
