(* ===== verification/ProxyWorker.thy ===== *)
theory ProxyWorker
  imports Gateways "HOL-Library.Sublist"
begin

text \<open>
  The worker of stegnar-proxy/addon.py beside the hooks: \<^verbatim>\<open>stream_worker\<close> opens a channel and hands gRPC a
  generator that takes chunks off the queue; when the call ends it opens the next, after an exception 5 seconds
  later. gRPC decides when it asks which generator for a chunk, and may still ask that of a call which has ended; a
  generator hands on the oldest chunk of the queue. The hooks run in between, so all of this is one step relation on
  the state of the addon.
\<close>

section \<open>The worker\<close>

text \<open>
  Where the loop is. \<open>Stopped\<close> is a cancelled task: \<^verbatim>\<open>CancelledError\<close> is no \<^verbatim>\<open>Exception\<close>.
\<close>

datatype worker_phase = Connecting | Streaming | Sleeping | Stopped

text \<open>
  \<open>calls\<close> counts the generators made so far, \<open>handed\<close> has the chunks they gave to gRPC with the number of the
  generator, in order.
\<close>

record addon = proxy +
  worker_phase :: worker_phase
  calls :: nat
  handed :: "(nat \<times> payload_chunk) list"

definition init_addon :: addon where
  "init_addon = \<lparr>trace = [], proxy_queue = [], worker_phase = Connecting, calls = 0, handed = []\<rparr>"

datatype worker_action = Open | Pull nat | Return | Fail | Wake | Cancel

fun worker_do :: "worker_action \<Rightarrow> addon \<Rightarrow> addon option" where
  "worker_do Open s =
     (if worker_phase s = Connecting then Some (s\<lparr>worker_phase := Streaming, calls := calls s + 1\<rparr>) else None)"
| "worker_do (Pull i) s =
     (case proxy_queue s of [] \<Rightarrow> None
      | c # rest \<Rightarrow> if i < calls s then Some (s\<lparr>proxy_queue := rest, handed := handed s @ [(i, c)]\<rparr>) else None)"
| "worker_do Return s = (if worker_phase s = Streaming then Some (s\<lparr>worker_phase := Connecting\<rparr>) else None)"
| "worker_do Fail s =
     (if worker_phase s \<in> {Connecting, Streaming} then Some (s\<lparr>worker_phase := Sleeping\<rparr>) else None)"
| "worker_do Wake s = (if worker_phase s = Sleeping then Some (s\<lparr>worker_phase := Connecting\<rparr>) else None)"
| "worker_do Cancel s = (if worker_phase s \<noteq> Stopped then Some (s\<lparr>worker_phase := Stopped\<rparr>) else None)"

text \<open>One step of the process: a hook, or an action of the worker. The label has the images that the hook saw.\<close>

inductive addon_step :: "env \<Rightarrow> pylib \<Rightarrow> addon \<Rightarrow> bytes list \<Rightarrow> addon \<Rightarrow> bool" for E L where
  request: "proxy_request E L fl req mime s = (r, s') \<Longrightarrow> addon_step E L s (request_images req mime) s'"
| response: "proxy_response E L fl resp s = (r, s') \<Longrightarrow> addon_step E L s (response_images resp) s'"
| worker: "worker_do a s = Some s' \<Longrightarrow> addon_step E L s [] s'"

inductive_cases addon_stepE: "addon_step E L s bs s'"

inductive addon_run :: "env \<Rightarrow> pylib \<Rightarrow> addon \<Rightarrow> bytes list \<Rightarrow> addon \<Rightarrow> bool" for E L where
  start: "addon_run E L s [] s"
| more: "addon_run E L s bs s' \<Longrightarrow> addon_step E L s' cs s'' \<Longrightarrow> addon_run E L s (bs @ cs) s''"

fun worker_acts :: "worker_action list \<Rightarrow> addon \<Rightarrow> addon option" where
  "worker_acts [] s = Some s"
| "worker_acts (a # as) s = (case worker_do a s of None \<Rightarrow> None | Some s' \<Rightarrow> worker_acts as s')"

section \<open>Lemmas\<close>

text \<open>The images that went through the queue: those handed on and those that wait.\<close>

definition through :: "addon \<Rightarrow> bytes list" where
  "through s = map (\<lambda>x. ck_raw_bytes (snd x)) (handed s) @ queued s"

text \<open>No generator hands on a chunk before the worker made it.\<close>

definition own_calls :: "addon \<Rightarrow> bool" where
  "own_calls s \<longleftrightarrow> list_all (\<lambda>x. fst x < calls s) (handed s)"

lemma own_calls_Suc: "list_all (\<lambda>x. fst x < n) xs \<Longrightarrow> list_all (\<lambda>x. fst x < Suc n) xs"
  by (induction xs) auto

lemma worker_do_keeps:
  assumes "worker_do a s = Some s'"
  shows "through s' = through s \<and> (own_calls s \<longrightarrow> own_calls s')"
  using assms
  by (cases a) (auto simp: through_def queued_def own_calls_def own_calls_Suc split: if_splits list.splits)

lemma queues_frame:
  fixes s :: addon
  assumes "queues bs s s'"
  shows "handed s' = handed s \<and> calls s' = calls s \<and> worker_phase s' = worker_phase s"
  using assms by (cases s; cases s') (simp add: queues_def)

lemma queues_keeps: "queues bs s s' \<Longrightarrow> through s' = through s @ big bs \<and> (own_calls s \<longrightarrow> own_calls s')"
  using queues_frame [of bs s s'] by (simp add: through_def own_calls_def queues_def)

lemma addon_step_keeps:
  assumes clock: "\<And>h. \<exists>t. E h Clock = Inr (PFloat t)" and "addon_step E L s bs s'"
  shows "through s' = through s @ big bs \<and> (own_calls s \<longrightarrow> own_calls s')"
  using assms(2)
proof cases
  case (request fl req mime r)
  with request_queues [of E L fl req mime s, OF clock] show ?thesis by (auto dest: queues_keeps)
next
  case (response fl resp r)
  with response_queues [of E L fl resp s, OF clock] show ?thesis by (auto dest: queues_keeps)
next
  case (worker a)
  with worker_do_keeps show ?thesis by simp
qed

lemma big_append [simp]: "big (bs @ cs) = big bs @ big cs"
  by (simp add: big_def)

lemma addon_run_keeps:
  assumes "\<And>h. \<exists>t. E h Clock = Inr (PFloat t)" and "addon_run E L s bs s'"
  shows "through s' = through s @ big bs \<and> (own_calls s \<longrightarrow> own_calls s')"
  using assms(2)
proof induction
  case (more s bs s' cs s'')
  from addon_step_keeps [of E, OF assms(1) more(2)] more(3) show ?case by simp
qed (simp add: big_def)

lemma addon_run_acts:
  "addon_run E L s bs s' \<Longrightarrow> worker_acts as s' = Some s'' \<Longrightarrow> addon_run E L s bs s''"
proof (induction as arbitrary: s')
  case (Cons a as)
  then obtain s1 where "worker_do a s' = Some s1" "worker_acts as s1 = Some s''" by (auto split: option.splits)
  with Cons.IH [of s1] addon_run.more [OF Cons.prems(1) addon_step.worker] show ?case by fastforce
qed simp

lemma worker_acts_append:
  "worker_acts (as @ bs) s = (case worker_acts as s of None \<Rightarrow> None | Some s' \<Rightarrow> worker_acts bs s')"
  by (induction as arbitrary: s) (simp_all split: option.split)

lemma pull_all:
  assumes "i < calls s"
  shows "worker_acts (replicate (length (proxy_queue s)) (Pull i)) s
    = Some (s\<lparr>proxy_queue := [], handed := handed s @ map (Pair i) (proxy_queue s)\<rparr>)"
  using assms
proof (induction "proxy_queue s" arbitrary: s)
  case (Cons c q)
  from Cons(1) [of "s\<lparr>proxy_queue := q, handed := handed s @ [(i, c)]\<rparr>"] Cons(2,3) show ?case
    by (simp flip: Cons(2))
qed simp

text \<open>The way back to an open call.\<close>

fun reopen :: "worker_phase \<Rightarrow> worker_action list" where
  "reopen Connecting = [Open]"
| "reopen Streaming = [Return, Open]"
| "reopen Sleeping = [Wake, Open]"
| "reopen Stopped = []"

lemma worker_reopens:
  "worker_phase s \<noteq> Stopped \<Longrightarrow> worker_acts (reopen (worker_phase s)) s = Some (s\<lparr>worker_phase := Streaming, calls := calls s + 1\<rparr>)"
  by (cases "worker_phase s") simp_all

lemma subseq_filter_map: "subseq (map f (filter P xs)) (map f xs)"
  by (intro subseq_map subseq_filter_left)

section \<open>Properties\<close>

text \<open>
C37: The proxy hands every image on once and in order. With a working clock, whatever the order of hooks, reconnections,
failures and requests for chunks: the images of more than 1000 bytes that the hooks saw are, in their order, those that
were handed to gRPC followed by those in the queue; every call gets a subsequence of them, and only calls that were opened
get any. As long as the worker is not cancelled it can open a new call that gets all that wait, and nothing else.
\<close>

theorem worker_hands_images_in_order:
  assumes "\<And>h. \<exists>t. E h Clock = Inr (PFloat t)" and "addon_run E L init_addon bs s"
  shows "map (\<lambda>x. ck_raw_bytes (snd x)) (handed s) @ map ck_raw_bytes (proxy_queue s) = filter (\<lambda>b. 1000 < length b) bs
    \<and> (\<forall>i. subseq (map (\<lambda>x. ck_raw_bytes (snd x)) (filter (\<lambda>x. fst x = i) (handed s))) (filter (\<lambda>b. 1000 < length b) bs))
    \<and> fst ` set (handed s) \<subseteq> {..<calls s}
    \<and> (worker_phase s \<noteq> Stopped \<longrightarrow> (\<exists>as s'. worker_acts as s = Some s' \<and> proxy_queue s' = []
         \<and> handed s' = handed s @ map (Pair (calls s)) (proxy_queue s)))"
proof -
  have t: "through s = big bs" and o: "own_calls s"
    using addon_run_keeps [OF assms] by (simp_all add: init_addon_def through_def queued_def own_calls_def)
  let ?f = "\<lambda>x. ck_raw_bytes (snd x)"
  have "subseq (map ?f (filter (\<lambda>x. fst x = i) (handed s))) (big bs)" for i
    unfolding t [symmetric] through_def by (rule subseq_order.trans [OF subseq_filter_map subseq_rev_drop_many]) (rule subseq_order.refl)
  moreover have "\<exists>as s'. worker_acts as s = Some s' \<and> proxy_queue s' = []
      \<and> handed s' = handed s @ map (Pair (calls s)) (proxy_queue s)" if "worker_phase s \<noteq> Stopped"
    using worker_reopens [OF that] pull_all [of "calls s" "s\<lparr>worker_phase := Streaming, calls := calls s + 1\<rparr>"]
    by (intro exI [of _ "reopen (worker_phase s) @ replicate (length (proxy_queue s)) (Pull (calls s))"])
      (simp add: worker_acts_append)
  moreover have "fst ` set (handed s) \<subseteq> {..<calls s}" using o by (auto simp: own_calls_def list_all_iff)
  ultimately show ?thesis using t by (simp add: through_def queued_def big_def)
qed

text \<open>A mail with an image, the call it is handed to, which fails, and a second image that waits for the next call.\<close>

lemma sample_looks:
  "looks_like_image (Some \<lparr>content = Some [1], content_type = Some ''message/rfc822''\<rparr>) = False"
  "contains (lower ''message/rfc822'') ''message/rfc822''" "contains (lower ''image/bmp'') ''image/''"
  by code_simp+

lemma looks_page: "looks_like_image (Some \<lparr>content = Some b, content_type = Some ''image/bmp''\<rparr>)"
  by (simp add: looks_like_image_def type_of_def sample_looks)

theorem worker_hands_images_in_order_witness:
  "\<exists>s. addon_run (\<lambda>h c. Inr (PFloat 1)) ref_lib init_addon [replicate 1001 7, replicate 2000 66] s \<and> worker_phase s = Sleeping
     \<and> map (\<lambda>x. ck_raw_bytes (snd x)) (handed s) = [replicate 1001 7] \<and> map ck_raw_bytes (proxy_queue s) = [replicate 2000 66]"
proof -
  let ?E = "\<lambda>h c. Inr (PFloat 1)" and ?fl = "\<lparr>client_peer = None, server_peer = None\<rparr>"
  let ?mail = "Some \<lparr>content = Some [1], content_type = Some ''message/rfc822''\<rparr>"
  let ?parts = "Inr [Inr (''text'', Inr [1]), Inr (''image'', Inr (replicate 1001 7)), Inl (Exn OtherErr ''mime'')]"
  let ?page = "Some \<lparr>content = Some (replicate 2000 66), content_type = Some ''image/bmp''\<rparr>"
  have clock: "\<exists>t. ?E h Clock = Inr (PFloat t)" for h :: hist by simp
  have im: "request_images ?mail ?parts = [replicate 1001 7]" "response_images ?page = [replicate 2000 66]"
    by (simp_all add: request_images_def response_images_def sample_looks looks_page has_content_def type_of_def body_of_def)
  obtain s1 where s1: "proxy_request ?E ref_lib ?fl ?mail ?parts init_addon = (Inr (), s1)" "queues [replicate 1001 7] init_addon s1"
    using request_queues [of ?E ref_lib ?fl ?mail ?parts init_addon, OF clock] im by auto
  from s1(2) queues_frame [OF s1(2)] obtain c where c: "proxy_queue s1 = [c]" "handed s1 = []" "worker_phase s1 = Connecting" "calls s1 = 0"
    by (auto simp: queues_def queued_def init_addon_def big_def)
  define s2 where "s2 = s1\<lparr>worker_phase := Sleeping, calls := 1, proxy_queue := [], handed := [(0, c)]\<rparr>"
  have acts: "worker_acts [Open, Pull 0, Fail] s1 = Some s2" by (simp add: s2_def c)
  have "addon_run ?E ref_lib init_addon [replicate 1001 7] s1"
    using addon_run.more [OF addon_run.start addon_step.request [OF s1(1)]] by (simp add: im)
  then have r2: "addon_run ?E ref_lib init_addon [replicate 1001 7] s2" by (rule addon_run_acts [OF _ acts])
  obtain s3 where s3: "proxy_response ?E ref_lib ?fl ?page s2 = (Inr (), s3)" "queues [replicate 2000 66] s2 s3"
    using response_queues [of ?E ref_lib ?fl ?page s2, OF clock] im by auto
  have r3: "addon_run ?E ref_lib init_addon [replicate 1001 7, replicate 2000 66] s3"
    using addon_run.more [OF r2 addon_step.response [OF s3(1)]] by (simp add: im)
  have h3: "handed s3 = [(0, c)]" "worker_phase s3 = Sleeping" using queues_frame [OF s3(2)] by (simp_all add: s2_def)
  from worker_hands_images_in_order [of ?E, OF clock r3] h3
  have "ck_raw_bytes c = replicate 1001 7" "map ck_raw_bytes (proxy_queue s3) = [replicate 2000 66]" by simp_all
  with r3 h3 show ?thesis by auto
qed

end
