(* ===== verification/CsvReport.thy ===== *)
theory CsvReport
  imports Training
begin

text \<open>
  Which images the table of \<^verbatim>\<open>test_dataset_and_get_csv\<close> (CALPA-NET-master/libs/psm) is about: each round
  takes three batches off the queue, the second gives the labels and the third the predictions.
\<close>

definition batch_of :: "'x list \<Rightarrow> nat \<Rightarrow> nat \<Rightarrow> 'x list" where
  "batch_of xs b i = take b (drop (i * b) xs)"

lemma cycle_batch:
  assumes "n * b = length xs" and "0 < n" and "0 < b"
  shows "map (cycle_of xs) [k * b..<k * b + b] = batch_of xs b (k mod n)"
proof -
  have room: "(k mod n) * b + b \<le> length xs"
    using mod_less_divisor [OF assms(2), of k] assms(1) by (metis Suc_leI add.commute mult_Suc mult_le_mono1)
  show ?thesis
  proof (rule nth_equalityI)
    show "length (map (cycle_of xs) [k * b..<k * b + b]) = length (batch_of xs b (k mod n))"
      using room by (simp add: batch_of_def)
    fix i
    assume "i < length (map (cycle_of xs) [k * b..<k * b + b])"
    then have i: "i < b" by simp
    have "(k * b + i) mod (b * n) = b * (k mod n) + i"
      using i by (simp add: mod_mult2_eq)
    then have "(k * b + i) mod length xs = (k mod n) * b + i" using assms(1) by (simp add: mult.commute)
    with i room show "map (cycle_of xs) [k * b..<k * b + b] ! i = batch_of xs b (k mod n) ! i"
      by (simp add: cycle_of_def batch_of_def)
  qed
qed

lemma cycle_map:
  assumes "n * b = length xs" and "0 < n" and "0 < b" and "k * b = a"
  shows "map f (batch_of xs b (k mod n)) = map (\<lambda>i. f (cycle_of xs i)) [a..<a + b]"
  unfolding assms(4) [symmetric] cycle_batch [OF assms(1-3), symmetric] by simp

text \<open>The session before round \<open>j\<close>.\<close>

definition csv_at :: "'p \<Rightarrow> nat \<Rightarrow> nat \<Rightarrow> 'p session \<Rightarrow> bool" where
  "csv_at p b j s \<longleftrightarrow> ts_params s = p \<and> \<not> ts_training s \<and> ts_sel s = 0 \<and> ts_batch s = int b \<and> ts_fed s 0 = 3 * j * b"

definition stego_label :: "('p, 'x) learner \<Rightarrow> 'x \<Rightarrow> nat" where
  "stego_label N x = (if label_of N x = 1 then 1 else 0)"

text \<open>What round \<open>j\<close> adds to the table.\<close>

definition csv_row :: "('p, 'x) learner \<Rightarrow> (pyfloat \<times> pyfloat \<Rightarrow> pyfloat) \<Rightarrow> ('p \<Rightarrow> 'x \<Rightarrow> pyfloat \<times> pyfloat) \<Rightarrow> 'p \<Rightarrow> 'x list
    \<Rightarrow> nat \<Rightarrow> nat \<Rightarrow> nat \<Rightarrow> pyfloat list \<times> nat list" where
  "csv_row N prob alone p xs b n j =
     (map (\<lambda>x. prob (alone p x)) (batch_of xs b ((3 * j + 2) mod n)),
      map (stego_label N) (batch_of xs b ((3 * j + 1) mod n)))"

lemma csv_round_run:
  assumes "inference_law N alone" and "examples N 0 = cycle_of xs" and "n * b = length xs" and "0 < n" and "0 < b"
    and "csv_at p b j s"
  shows "\<exists>s'. csv_round N prob (test_cfg (int b) ds path) s =
      (Inr (csv_row N prob alone p xs b n j), s') \<and> csv_at p b (Suc j) s'"
proof -
  have "map f (batch_of xs b ((3 * j + 1) mod n)) = map (\<lambda>i. f (cycle_of xs i)) [3 * j * b + b..<3 * j * b + b + b]"
    "map g (batch_of xs b ((3 * j + 2) mod n)) = map (\<lambda>i. g (cycle_of xs i)) [3 * j * b + b + b..<3 * j * b + b + b + b]"
    for f :: "_ \<Rightarrow> nat" and g :: "_ \<Rightarrow> pyfloat"
    by (rule cycle_map [OF assms(3-5)], simp add: algebra_simps)+
  with assms(1,2,6) show ?thesis
    by (simp add: csv_row_def csv_round_def increment_op_def next_batch_def dequeue_many_def count_losses_def build_losses_def
        cur_batch_size_def test_cfg_def run_defs csv_at_def inference_law_def stego_label_def Let_def case_prod_beta comp_def distrib_right)
qed

lemma csv_rounds_run:
  assumes "inference_law N alone" and "examples N 0 = cycle_of xs" and "n * b = length xs" and "0 < n" and "0 < b"
  shows "csv_at p b j s \<Longrightarrow> \<exists>s'. mapp (\<lambda>_. csv_round N prob (test_cfg (int b) ds path)) js s =
      (Inr (map (csv_row N prob alone p xs b n) [j..<j + length js]), s')"
proof (induction js arbitrary: j s)
  case Nil
  then show ?case by (simp add: run_defs)
next
  case (Cons x js)
  obtain s1 where s1: "csv_round N prob (test_cfg (int b) ds path) s = (Inr (csv_row N prob alone p xs b n j), s1)"
      "csv_at p b (Suc j) s1"
    using csv_round_run [OF assms Cons.prems] by blast
  obtain s2 where "mapp (\<lambda>_. csv_round N prob (test_cfg (int b) ds path)) js s1 =
      (Inr (map (csv_row N prob alone p xs b n) [Suc j..<Suc j + length js]), s2)"
    using Cons.IH [OF s1(2)] by blast
  moreover have "[j..<j + length (x # js)] = j # [Suc j..<Suc j + length js]"
    by (subst upt_conv_Cons) simp_all
  ultimately show ?case using s1(1) by (simp add: bindp_def ret_def del: upt_Suc)
qed

text \<open>Every third batch is every batch, if the number of batches is no multiple of 3.\<close>

lemma coprime_3: "\<not> 3 dvd n \<Longrightarrow> coprime n (3 :: nat)"
proof -
  assume n: "\<not> 3 dvd n"
  let ?g = "gcd n 3"
  have g: "?g dvd 3" "?g dvd n" by simp_all
  then have "?g \<le> 3" by (auto dest: dvd_imp_le)
  moreover have "?g \<noteq> 0" by simp
  moreover have "?g \<noteq> 2"
  proof
    assume "?g = 2"
    with g(1) have "2 dvd (3 :: nat)" by metis
    then show False by simp
  qed
  moreover have "?g \<noteq> 3" using g(2) n by metis
  ultimately have "?g = 1" by linarith
  then show ?thesis by (simp add: coprime_iff_gcd_eq_1)
qed

lemma third_inj:
  assumes "\<not> 3 dvd n" and "i \<le> j" and "j < n" and "(3 * i + c) mod n = (3 * j + c) mod n"
  shows "i = (j :: nat)"
proof -
  have "n dvd (3 * j + c) - (3 * i + c)"
    using assms(2) by (subst mod_eq_dvd_iff_nat [symmetric]) (simp_all add: assms(4))
  then have "n dvd 3 * (j - i)" by (simp add: diff_mult_distrib2)
  then have "n dvd j - i" using coprime_3 [OF assms(1)] by (simp add: coprime_dvd_mult_right_iff)
  with assms(2,3) show ?thesis by (metis dvd_imp_le le_antisym not_le less_imp_diff_less zero_less_diff)
qed

lemma third_batches:
  assumes "0 < n" and "\<not> 3 dvd n"
  shows "mset (map (\<lambda>j. (3 * j + c) mod n) [0..<n]) = mset [0..<n]"
proof -
  let ?f = "\<lambda>j. (3 * j + c) mod n"
  have inj: "inj_on ?f {0..<n}"
  proof (rule inj_onI)
    fix i j
    assume "i \<in> {0..<n}" "j \<in> {0..<n}" "?f i = ?f j"
    then show "i = j"
      using third_inj [OF assms(2), of i j c] third_inj [OF assms(2), of j i c] by (cases "i \<le> j") auto
  qed
  then have "?f ` {0..<n} = {0..<n}" using assms(1) by (intro endo_inj_surj) auto
  with inj have "mset_set {0..<n} = image_mset ?f (mset_set {0..<n})"
    using image_mset_mset_set [OF inj] by simp
  then show ?thesis by simp
qed

lemma concat_batches: "n * b = length xs \<Longrightarrow> concat (map (batch_of xs b) [0..<n]) = xs"
proof (induction n arbitrary: xs)
  case (Suc n)
  have "batch_of xs b (Suc i) = batch_of (drop b xs) b i" for i by (simp add: batch_of_def add.commute)
  then have "map (batch_of xs b) [0..<Suc n] = take b xs # map (batch_of (drop b xs) b) [0..<n]"
    by (simp add: upt_conv_Cons map_Suc_upt [symmetric] batch_of_def del: upt_Suc)
  moreover have "n * b = length (drop b xs)" using Suc.prems by simp
  ultimately show ?case using Suc.IH [of "drop b xs"] by simp
qed simp

section \<open>Property\<close>

lemma csv_table:
  assumes "inference_law N alone" and "examples N 0 = cycle_of xs" and "n * b = length xs" and "0 < n" and "0 < b"
    and "load path = Inr ck"
  shows "\<exists>means. test_dataset_and_get_csv N prob (int b) (int (length xs)) load path =
    Inr ((concat (map (\<lambda>j. map (\<lambda>x. prob (alone (ck_params ck) x)) (batch_of xs b ((3 * j + 2) mod n))) [0..<n]),
          concat (map (\<lambda>j. map (stego_label N) (batch_of xs b ((3 * j + 1) mod n))) [0..<n])), means)"
proof -
  let ?cfg = "test_cfg (int b) (int (length xs)) path" and ?s = "test_session ck (int b)"
  have r: "range_len (int (length xs)) (int b) = Inr n"
    using range_len_dvd [of "int b" "int (length xs)" "length xs"] assms(3,5) by (auto simp flip: of_nat_mult dest!: sym [of _ "length xs"])
  have "csv_at (ck_params ck) b 0 ?s" by (simp add: csv_at_def test_session_def)
  from csv_rounds_run [OF assms(1-5) this, of prob "int (length xs)" path "[0..<n]"] obtain s' where
    "mapp (\<lambda>_. csv_round N prob ?cfg) [0..<n] ?s = (Inr (map (csv_row N prob alone (ck_params ck) xs b n) [0..<n]), s')"
    by auto
  with assms(6) r show ?thesis
    by (auto simp: test_dataset_and_get_csv_def Let_def bindp_def lift_sum_def ret_def mean_results_def getp_def csv_row_def comp_def)
qed

lemma alternating_batch:
  assumes "\<forall>i < length xs. label_of N (xs ! i) = i mod 2" and "n * b = length xs" and "even b" and "i < n"
  shows "map (label_of N) (batch_of xs b i) = map (\<lambda>k. k mod 2) [0..<b]"
    and "map (stego_label N) (batch_of xs b i) = map (\<lambda>k. k mod 2) [0..<b]"
proof -
  have room: "i * b + b \<le> length xs" using assms(2,4) by (metis Suc_leI add.commute mult_Suc mult_le_mono1)
  have l: "label_of N (xs ! (i * b + k)) = k mod 2" if "k < b" for k
  proof -
    have "(i * b + k) mod 2 = k mod 2" using assms(3) by (metis dvd_mult even_add mod2_eq_if)
    with that room assms(1) show ?thesis by simp
  qed
  show "map (label_of N) (batch_of xs b i) = map (\<lambda>k. k mod 2) [0..<b]"
    by (rule nth_equalityI) (use room l in \<open>simp_all add: batch_of_def\<close>)
  have m: "(if k mod 2 = Suc 0 then 1 else 0) = k mod 2" for k :: nat by (cases "even k") (simp_all add: even_iff_mod_2_eq_zero odd_iff_mod_2_eq_one)
  show "map (stego_label N) (batch_of xs b i) = map (\<lambda>k. k mod 2) [0..<b]"
    by (rule nth_equalityI) (use room l m in \<open>simp_all add: batch_of_def stego_label_def\<close>)
qed

lemma mset_concat_map: "mset (concat (map g xs)) = (\<Sum>x \<in># mset xs. mset (g x))"
  by (induction xs) simp_all

lemma batch_nth: "x \<in> set (batch_of xs b i) \<Longrightarrow> 0 < b \<Longrightarrow> \<exists>k < length xs. k div b = i \<and> x = xs ! k"
proof -
  assume x: "x \<in> set (batch_of xs b i)" and b: "0 < b"
  then obtain k where "k < b" "i * b + k < length xs" "x = xs ! (i * b + k)"
    by (auto simp: batch_of_def in_set_conv_nth)
  with b show ?thesis by (intro exI [of _ "i * b + k"]) simp
qed

text \<open>
C25: The table of a test has every image once, unless the number of batches is a multiple of 3. On \<open>n\<close> full batches
whose labels alternate, with batches of even length, the label in each row of the table is that of the image
whose prediction is in the row, although they come from different batches. If 3 does not divide \<open>n\<close>, the rows are
those of the whole set in some order; if it does, all rows are about the batches 2, 5, 8 and so on.
\<close>

theorem csv_covers_set:
  assumes "inference_law N alone" and "examples N 0 = cycle_of xs" and "n * b = length xs" and "0 < n" and "0 < b"
    and "load path = Inr ck" and "even b" and "\<forall>i < length xs. label_of N (xs ! i) = i mod 2"
    and "row = (\<lambda>x. (prob (alone (ck_params ck) x), label_of N x))"
  shows "\<exists>rows means. test_dataset_and_get_csv N prob (int b) (int (length xs)) load path = Inr ((map fst rows, map snd rows), means)
    \<and> length rows = length xs
    \<and> (\<not> 3 dvd n \<longrightarrow> mset rows = mset (map row xs))
    \<and> (3 dvd n \<longrightarrow> set rows \<subseteq> {row (xs ! k) | k. k < length xs \<and> k div b mod 3 = 2})"
proof -
  let ?B = "\<lambda>j. batch_of xs b ((3 * j + 2) mod n)"
  let ?rows = "concat (map (\<lambda>j. map row (?B j)) [0..<n])"
  note alt = alternating_batch [OF assms(8,3,7)]
  have lt: "k mod n < n" for k using assms(4) by simp
  have "map (stego_label N) (batch_of xs b ((3 * j + 1) mod n)) = map (label_of N) (?B j)" for j
    using alt [OF lt] by simp
  then have rows: "map fst ?rows = concat (map (\<lambda>j. map (\<lambda>x. prob (alone (ck_params ck) x)) (?B j)) [0..<n])"
    "map snd ?rows = concat (map (\<lambda>j. map (stego_label N) (batch_of xs b ((3 * j + 1) mod n))) [0..<n])"
    by (simp_all add: map_concat assms(9) comp_def)
  have "length (batch_of xs b (k mod n)) = b" for k
    using arg_cong [OF alt(1) [OF lt], of length] by simp
  then have "length ?rows = length xs" using assms(3) by (simp add: length_concat comp_def sum_list_triv)
  moreover have "mset ?rows = mset (map row xs)" if "\<not> 3 dvd n"
  proof -
    let ?g = "\<lambda>i. map row (batch_of xs b i)"
    have "?rows = concat (map ?g (map (\<lambda>j. (3 * j + 2) mod n) [0..<n]))" by (simp add: comp_def)
    then have "mset ?rows = mset (concat (map ?g [0..<n]))"
      by (simp only: mset_concat_map third_batches [OF assms(4) that])
    also have "concat (map ?g [0..<n]) = map row (concat (map (batch_of xs b) [0..<n]))"
      by (simp add: map_concat comp_def)
    finally show ?thesis by (simp only: concat_batches [OF assms(3)])
  qed
  moreover have "set ?rows \<subseteq> {row (xs ! k) | k. k < length xs \<and> k div b mod 3 = 2}" if d: "3 dvd n"
  proof
    fix r
    assume "r \<in> set ?rows"
    then obtain j x where x: "x \<in> set (?B j)" "r = row x" by auto
    obtain k where k: "k < length xs" "k div b = (3 * j + 2) mod n" "x = xs ! k" using batch_nth [OF x(1) assms(5)] by blast
    have "(3 * j + 2) mod n mod 3 = 2" unfolding mod_mod_cancel [OF d] by presburger
    with x k show "r \<in> {row (xs ! k) | k. k < length xs \<and> k div b mod 3 = 2}" by auto
  qed
  moreover obtain means where "test_dataset_and_get_csv N prob (int b) (int (length xs)) load path = Inr ((map fst ?rows, map snd ?rows), means)"
    unfolding rows using csv_table [where load = load, OF assms(1-6)] by blast
  ultimately show ?thesis by blast
qed

text \<open>Three batches of a cover and its stego: only the last is in the table.\<close>

definition two_class :: "(unit, nat) learner" where
  "two_class = \<lparr>forward = (\<lambda>p t b. map (\<lambda>x. (0, of_nat x)) b), label_of = (\<lambda>x. x mod 2), cross_entropy = (\<lambda>out l. 0),
     reg_loss = (\<lambda>p. 0), minimize = (\<lambda>lr p b. p), schedule = (\<lambda>i. 1), examples = (\<lambda>q. cycle_of [0, 1, 2, 3, 4, 5])\<rparr>"

theorem csv_covers_set_witness:
  "\<exists>rows means. test_dataset_and_get_csv two_class snd 2 6 (\<lambda>p. Inr \<lparr>ck_params = (), ck_training = True, ck_sel = 0, ck_step = 2\<rparr>) []
       = Inr ((map fst rows, map snd rows), means)
     \<and> set rows \<subseteq> {(4, 0), (5, 1)}"
proof -
  let ?ck = "\<lparr>ck_params = (), ck_training = True, ck_sel = 0, ck_step = 2\<rparr>" and ?xs = "[0, 1, 2, 3, 4, 5 :: nat]"
  have law: "inference_law two_class (\<lambda>p x. (0, of_nat x))" by (simp add: inference_law_def two_class_def)
  have alt: "\<forall>i < length ?xs. label_of two_class (?xs ! i) = i mod 2"
    by (simp add: two_class_def All_less_Suc numeral_eq_Suc)
  have "examples two_class 0 = cycle_of ?xs" "3 * 2 = length ?xs" "0 < (3 :: nat)" "0 < (2 :: nat)" "even (2 :: nat)"
    by (simp_all add: two_class_def)
  note table = csv_covers_set [where load = "\<lambda>p. Inr ?ck" and prob = snd and path = "[]", OF law this(1-4) refl this(5) alt refl]
  have e: "length ?xs = 6" "int 2 = 2" "int 6 = 6" "3 dvd (3 :: nat)" by simp_all
  from table obtain rows means where r: "test_dataset_and_get_csv two_class snd 2 6 (\<lambda>p. Inr ?ck) [] = Inr ((map fst rows, map snd rows), means)"
    "set rows \<subseteq> {(of_nat (?xs ! k), label_of two_class (?xs ! k)) | k. k < 6 \<and> k div 2 mod 3 = 2}" unfolding e snd_conv using e(4) by blast
  have "(of_nat (?xs ! k), label_of two_class (?xs ! k)) \<in> {(4 :: pyfloat, 0), (5, 1)}" if "k < 6" "k div 2 mod 3 = 2" for k
  proof -
    from that have "k = 4 \<or> k = 5" by presburger
    then show ?thesis by (elim disjE) (simp_all add: two_class_def)
  qed
  with r(2) have "set rows \<subseteq> {(4, 0), (5, 1)}" by blast
  with r(1) show ?thesis by blast
qed

end
