(* ===== verification/Tasks.thy ===== *)
theory Tasks
  imports Dataset
begin

text \<open>
  CALPA-NET-master/tasks: the scripts that train and test the networks on the lists of files. The texts of
  the lists and what the random training generator yields are arguments; an example is a loaded image with its label.
  The networks themselves are a \<open>learner\<close>.
\<close>

section \<open>The scripts\<close>

text \<open>What the two setup files fix; the sizes of the sets are filled in by the scripts.\<close>

definition srnet_setup :: "string \<Rightarrow> train_cfg" where
  "srnet_setup log_dir =
     \<lparr>train_batch_size = 32, valid_batch_size = 40, valid_ds_size = 0, test_batch_size = 40, test_ds_size = 0,
      train_interval = 875, valid_interval = 875, test_interval = 875, save_interval = 875, max_iter = 500000,
      log_path = log_dir, load_path = None\<rparr>"

definition xunet_setup :: "string \<Rightarrow> train_cfg" where
  "xunet_setup log_dir =
     \<lparr>train_batch_size = 32, valid_batch_size = 40, valid_ds_size = 0, test_batch_size = 40, test_ds_size = 0,
      train_interval = 875, valid_interval = 875, test_interval = 875, save_interval = 875, max_iter = 320000,
      log_path = log_dir, load_path = None\<rparr>"

record lists =
  valid_cover :: string
  valid_stego :: string
  test_cover :: string
  test_stego :: string

definition ds_size :: "string \<Rightarrow> int" where
  "ds_size cover_txt = int (length (path_list cover_txt)) * 2"

definition task_cfg :: "train_cfg \<Rightarrow> lists \<Rightarrow> train_cfg" where
  "task_cfg setup ls = setup\<lparr>valid_ds_size := ds_size (valid_cover ls), test_ds_size := ds_size (test_cover ls)\<rparr>"

definition loaded :: "(string \<Rightarrow> 'im) \<Rightarrow> (nat \<Rightarrow> string \<times> nat) \<Rightarrow> nat \<Rightarrow> 'im \<times> nat" where
  "loaded load_image g k = (load_image (fst (g k)), snd (g k))"

text \<open>The queues of training, validation and test; None if a generator fails, which starves its queue.\<close>

definition feeds :: "(string \<Rightarrow> 'im) \<Rightarrow> (nat \<Rightarrow> 'im \<times> nat) \<Rightarrow> lists \<Rightarrow> (nat \<Rightarrow> nat \<Rightarrow> 'im \<times> nat) option" where
  "feeds load_image train_gen ls =
     (case (gen_train_or_valid_psm (valid_cover ls) (valid_stego ls), gen_train_or_valid_psm (test_cover ls) (test_stego ls)) of
        (Inr valid_gen, Inr test_gen) \<Rightarrow>
          Some (\<lambda>q. if q = 0 then train_gen else if q = 1 then loaded load_image valid_gen else loaded load_image test_gen)
      | _ \<Rightarrow> None)"

text \<open>1\_train\_ori\_*.py and 4\_initial\_train\_ori\_*.py; they differ in the network and the directory.\<close>

definition train_task :: "('p, 'im \<times> nat) learner \<Rightarrow> train_cfg \<Rightarrow> (string \<Rightarrow> 'im) \<Rightarrow> (nat \<Rightarrow> 'im \<times> nat) \<Rightarrow> lists \<Rightarrow> 'p
    \<Rightarrow> exn + ((exn + unit) \<times> 'p session) option" where
  "train_task N setup load_image train_gen ls p0 =
     (let cfg = task_cfg setup ls
      in if valid_ds_size cfg mod valid_batch_size cfg \<noteq> 0 then Inl (Exn ValueError ''change batch size for validation'')
         else Inr (map_option (\<lambda>feed. train (N\<lparr>examples := feed\<rparr>) cfg (\<lambda>path. Inl (Exn OtherErr path)) p0)
                     (feeds load_image train_gen ls)))"

definition out_base :: "string \<Rightarrow> string" where
  "out_base experiment = ''/xxx/xxx/CALPA_output/exp/'' @ experiment @ ''/output/''"

definition srnet_train_task where
  "srnet_train_task N = train_task N (srnet_setup (out_base ''srnet_qf75_juniward_40'' @ ''train_output/''))"

definition srnet_pruned_train_task where
  "srnet_pruned_train_task N = train_task N (srnet_setup (out_base ''srnet_qf75_juniward_40'' @ ''initial_train_output''))"

definition xunet_train_task where
  "xunet_train_task N = train_task N (xunet_setup (out_base ''xunet_qf75_juniward_40'' @ ''train_output/''))"

definition xunet_pruned_train_task where
  "xunet_pruned_train_task N = train_task N (xunet_setup (out_base ''xunet_qf75_juniward_40'' @ ''initial_train_output''))"

text \<open>2\_test\_ori\_*.py.\<close>

definition test_task :: "('p, 'im \<times> nat) learner \<Rightarrow> train_cfg \<Rightarrow> (string \<Rightarrow> 'im) \<Rightarrow> lists \<Rightarrow> (string \<Rightarrow> exn + 'p checkpoint) \<Rightarrow> string
    \<Rightarrow> exn + (exn + pyfloat \<times> pyfloat) option" where
  "test_task N setup load_image ls restore load_ckpt =
     (let test_ds = ds_size (test_cover ls)
      in if test_ds mod test_batch_size setup \<noteq> 0 then Inl (Exn ValueError ''change batch size for testing!'')
         else Inr (case gen_train_or_valid_psm (test_cover ls) (test_stego ls) of
                Inl e \<Rightarrow> None
              | Inr test_gen \<Rightarrow>
                  Some (test_dataset (N\<lparr>examples := \<lambda>q. loaded load_image test_gen\<rparr>) (test_batch_size setup) test_ds restore load_ckpt)))"

definition srnet_test_task where
  "srnet_test_task N load_image ls restore =
     test_task N (srnet_setup []) load_image ls restore (out_base ''srnet_qf75_juniward_40'' @ ''train_output/Model_xxx.ckpt'')"

definition xunet_test_task where
  "xunet_test_task N load_image ls restore =
     test_task N (xunet_setup []) load_image ls restore (out_base ''xunet_qf75_juniward_40'' @ ''train_output/Model_xxx.ckpt'')"

section \<open>Lemmas\<close>

text \<open>The examples of two lists.\<close>

definition list_examples :: "(string \<Rightarrow> 'im) \<Rightarrow> string \<Rightarrow> string \<Rightarrow> ('im \<times> nat) list" where
  "list_examples load_image cover_txt stego_txt = map (\<lambda>p. (load_image (fst p), snd p)) (epoch (path_list cover_txt) (path_list stego_txt))"

lemma length_epoch: "length ss = length cs \<Longrightarrow> length (epoch cs ss) = 2 * length cs"
  by (simp add: epoch_def length_concat comp_def pair_examples_def sum_list_triv)

lemma loaded_examples:
  assumes "gen_train_or_valid_psm c t = Inr g"
  shows "loaded load_image g = cycle_of (list_examples load_image c t)"
    and "int (length (list_examples load_image c t)) = ds_size c" and "list_examples load_image c t \<noteq> []"
proof -
  from assms have g: "g = cycle_of (epoch (path_list c) (path_list t))"
    and ok: "path_list c \<noteq> []" "length (path_list t) = length (path_list c)"
    by (auto simp: gen_train_or_valid_psm_def check_lists_def Let_def split: if_splits)
  have len: "length (epoch (path_list c) (path_list t)) = 2 * length (path_list c)" using length_epoch [OF ok(2)] .
  then have "0 < length (epoch (path_list c) (path_list t))" using ok(1) by simp
  then show "loaded load_image g = cycle_of (list_examples load_image c t)"
    by (intro ext) (simp add: loaded_def g cycle_of_def list_examples_def)
  show "int (length (list_examples load_image c t)) = ds_size c" "list_examples load_image c t \<noteq> []"
    using len ok(1) by (auto simp: list_examples_def ds_size_def)
qed

lemma task_ok:
  assumes "inference_law N alone" and "setup = srnet_setup log_dir \<or> setup = xunet_setup log_dir"
    and "feeds load_image train_gen ls = Some feed" and "40 dvd ds_size (valid_cover ls)" and "40 dvd ds_size (test_cover ls)"
  shows "train_ok (N\<lparr>examples := feed\<rparr>) alone (task_cfg setup ls)
    (list_examples load_image (valid_cover ls) (valid_stego ls)) (list_examples load_image (test_cover ls) (test_stego ls))"
proof -
  from assms(3) obtain g h where g: "gen_train_or_valid_psm (valid_cover ls) (valid_stego ls) = Inr g"
    "gen_train_or_valid_psm (test_cover ls) (test_stego ls) = Inr h"
    and feed: "feed = (\<lambda>q. if q = 0 then train_gen else if q = 1 then loaded load_image g else loaded load_image h)"
    by (auto simp: feeds_def split: sum.splits)
  have "\<not> same_size (task_cfg setup ls)" using assms(2) by (auto simp: same_size_def task_cfg_def srnet_setup_def xunet_setup_def)
  with assms(1,2,4,5) loaded_examples [OF g(1), of load_image] loaded_examples [OF g(2), of load_image] show ?thesis
    by (auto simp: train_ok_def feed task_cfg_def srnet_setup_def xunet_setup_def inference_law_def)
qed

text \<open>A test set that is no multiple of the batch size: the last batch begins the set again, but the divisor is a fraction.\<close>

lemma run_test_overcounts:
  assumes "inference_law N alone" and "\<not> same_size cfg" and "0 < test_batch_size cfg" and "0 < test_ds_size cfg"
    and "ready cfg s" and "ts_sums s TestAccuracy = 0"
    and right: "\<And>k. predicted (alone (ts_params s) (examples N 2 k)) = label_of N (examples N 2 k)"
    and m: "range_len (test_ds_size cfg) (test_batch_size cfg) = Inr m"
  shows "\<exists>l s'. run_test N cfg ts_sel i s = (Inr (), s')
    \<and> ts_log s' = ts_log s @ [(TestLoss, l, i), (TestAccuracy, of_int (int m * test_batch_size cfg) / of_int (test_ds_size cfg), i)]"
proof -
  let ?b = "test_batch_size cfg"
  let ?s = "s\<lparr>ts_training := False, ts_batch := ?b, ts_sel := 2\<rparr>"
  have e: "\<exists>l. forp [0..<m] (\<lambda>_. increment_op N cfg ts_sel TestLoss TestAccuracy) ?s = (Inr (), ?s\<lparr>
        ts_fed := (ts_fed ?s)(ts_sel ?s := ts_fed ?s (ts_sel ?s) + length [0..<m] * nat (ts_batch ?s)),
        ts_sums := (ts_sums ?s)(TestLoss := l, TestAccuracy := ts_sums ?s TestAccuracy
          + of_nat (hits N alone (ts_params ?s) (map (examples N (ts_sel ?s))
              [ts_fed ?s (ts_sel ?s)..<ts_fed ?s (ts_sel ?s) + length [0..<m] * nat (ts_batch ?s)])) / of_nat (nat (ts_batch ?s)))\<rparr>)"
    by (rule passes_run) (use assms in simp_all)
  have h: "hits N alone (ts_params s) (map (examples N 2) [k..<k + n]) = n" for k n
    using right by (simp add: hits_def)
  from e obtain l where l: "evaluate_set N cfg ts_sel (test_ds_size cfg) ?b TestLoss TestAccuracy ?s = (Inr (), ?s\<lparr>
      ts_fed := (ts_fed s)(2 := ts_fed s 2 + m * nat ?b),
      ts_sums := (ts_sums s)(TestLoss := l, TestAccuracy := of_nat (m * nat ?b) / of_nat (nat ?b))\<rparr>)"
    using assms(6) by (auto simp: evaluate_set_def m bindp_def lift_sum_def h)
  have q: "of_nat (m * nat ?b) / of_nat (nat ?b) / (of_int (test_ds_size cfg) / of_int ?b)
      = (of_int (int m * ?b) / of_int (test_ds_size cfg) :: pyfloat)"
    using assms(3,4) by simp
  show ?thesis
    using l q assms(2)
    by (intro exI [of _ "l / (of_int (test_ds_size cfg) / of_int ?b)"])
      (simp add: run_test_def enable_test_def show_batch_size_def add_summary_def enable_training_def
        mean_variable_def num_iterations_def seqp_def bindp_def modifyp_def ret_def)
qed

lemma range_len_over:
  assumes "0 < bs" and "0 < ds" and "range_len ds bs = Inr m"
  shows "ds \<le> int m * bs" and "\<not> bs dvd ds \<Longrightarrow> ds < int m * bs"
proof -
  have m: "int m = (ds + bs - 1) div bs" using assms by (auto simp: range_len_def pos_imp_zdiv_nonneg_iff)
  have "(ds + bs - 1) div bs * bs = (ds + bs - 1) - (ds + bs - 1) mod bs" by (simp add: minus_mod_eq_div_mult)
  moreover have "(ds + bs - 1) mod bs < bs" using assms(1) by simp
  ultimately show le: "ds \<le> int m * bs" unfolding m by linarith
  show "ds < int m * bs" if "\<not> bs dvd ds" using le that by (metis dvd_triv_right order_le_less)
qed

lemma cycle_of_in: "xs \<noteq> [] \<Longrightarrow> cycle_of xs k \<in> set xs"
  by (simp add: cycle_of_def)

section \<open>Property\<close>


text \<open>Twenty pairs to validate on and fifteen to test on: a perfect network gets an accuracy above 1.\<close>

definition sample_lists :: lists where
  "sample_lists = \<lparr>valid_cover = concat (replicate 20 (''c'' @ [newline])), valid_stego = concat (replicate 20 (''s'' @ [newline])),
     test_cover = concat (replicate 15 (''c'' @ [newline])), test_stego = concat (replicate 15 (''s'' @ [newline]))\<rparr>"

definition perfect :: "unit \<Rightarrow> string \<times> nat \<Rightarrow> pyfloat \<times> pyfloat" where
  "perfect p x = (if snd x = 1 then (0, 1) else (1, 0))"

definition perfect_learner :: "(unit, string \<times> nat) learner" where
  "perfect_learner = \<lparr>forward = (\<lambda>p t b. map (perfect p) b), label_of = snd, cross_entropy = (\<lambda>out l. 0),
     reg_loss = (\<lambda>p. 0), minimize = (\<lambda>lr p b. p), schedule = (\<lambda>i. 1), examples = (\<lambda>q k. ([], 0))\<rparr>"

lemma sample_paths:
  "path_list (valid_cover sample_lists) = replicate 20 ''c''" "path_list (valid_stego sample_lists) = replicate 20 ''s''"
  "path_list (test_cover sample_lists) = replicate 15 ''c''" "path_list (test_stego sample_lists) = replicate 15 ''s''"
  by code_simp+


end
