(* ===== verification/Resize.thy ===== *)
theory Resize
  imports Effects
begin

text \<open>
  The preparation of the covers, src/test\_images/BOWS2: matlab\_imresize.py, the port of MATLAB's imresize, and the
  arithmetic of resize\_dataset.py. Arrays are lists of rows of pixels, a pixel is the list of its channels; an array
  without rows has no columns. The elements of an array of bytes are the numbers they stand for.
\<close>

section \<open>The code\<close>

record image =
  is_uint8 :: bool
  two_d :: bool
  cells :: "pyfloat list list list"

definition row_width :: "'a list list \<Rightarrow> nat" where
  "row_width rows = (case rows of [] \<Rightarrow> 0 | r # _ \<Rightarrow> length r)"

definition pixel_channels :: "'a list list list \<Rightarrow> nat" where
  "pixel_channels rows = (case rows of [] \<Rightarrow> 0 | r # _ \<Rightarrow> row_width r)"

definition deriveSizeFromScale :: "nat \<times> nat \<Rightarrow> pyfloat \<times> pyfloat \<Rightarrow> int \<times> int" where
  "deriveSizeFromScale img_shape scale =
     (\<lceil>fst scale * of_nat (fst img_shape)\<rceil>, \<lceil>snd scale * of_nat (snd img_shape)\<rceil>)"

definition division_by_zero :: exn where
  "division_by_zero = Exn OtherErr ''float division by zero''"

definition deriveScaleFromSize :: "nat \<times> nat \<Rightarrow> int \<times> int \<Rightarrow> exn + pyfloat \<times> pyfloat" where
  "deriveScaleFromSize img_shape_in img_shape_out =
     (if fst img_shape_in = 0 \<or> snd img_shape_in = 0 then Inl division_by_zero
      else Inr (of_int (fst img_shape_out) / of_nat (fst img_shape_in),
                of_int (snd img_shape_out) / of_nat (snd img_shape_in)))"

definition triangle :: "pyfloat \<Rightarrow> pyfloat" where
  "triangle x = (if x \<ge> -1 \<and> x < 0 then x + 1 else 0) + (if x \<le> 1 \<and> x \<ge> 0 then 1 - x else 0)"

definition cubic :: "pyfloat \<Rightarrow> pyfloat" where
  "cubic x =
     (let absx = \<bar>x\<bar>; absx2 = absx * absx; absx3 = absx2 * absx
      in (if absx \<le> 1 then 3 / 2 * absx3 - 5 / 2 * absx2 + 1 else 0)
       + (if 1 < absx \<and> absx \<le> 2 then - 1 / 2 * absx3 + 5 / 2 * absx2 - 4 * absx + 2 else 0))"

text \<open>
  A row whose weights sum to 0 is not a number in the code and all 0 here.
\<close>

definition contributions :: "nat \<Rightarrow> int \<Rightarrow> pyfloat \<Rightarrow> (pyfloat \<Rightarrow> pyfloat) \<Rightarrow> pyfloat
    \<Rightarrow> exn + pyfloat list list \<times> nat list list" where
  "contributions in_length out_length scale kern k_width =
     (if scale = 0 then Inl division_by_zero
      else
       let h = (if scale < 1 then (\<lambda>x. scale * kern (scale * x)) else kern);
           kernel_width = (if scale < 1 then k_width / scale else k_width);
           u = map (\<lambda>x. of_int x / scale + 1 / 2 * (1 - 1 / scale)) [1..out_length];
           left = map (\<lambda>y. \<lfloor>y - kernel_width / 2\<rfloor>) u;
           P = nat (\<lceil>kernel_width\<rceil> + 2);
           ind = map (\<lambda>l. map (\<lambda>k. l + int k - 1) [0..<P]) left;
           raw = map2 (\<lambda>y js. map (\<lambda>j. h (y - of_int j - 1)) js) u ind;
           weights = map (\<lambda>ws. map (\<lambda>w. w / sum_list ws) ws) raw;
           aux = [0..<in_length] @ rev [0..<in_length];
           indices = map (map (\<lambda>j. aux ! nat (j mod int (length aux)))) ind;
           ind2store = filter (\<lambda>k. \<exists>ws \<in> set weights. ws ! k \<noteq> 0) [0..<P]
       in Inr (map (\<lambda>ws. map ((!) ws) ind2store) weights, map (\<lambda>js. map ((!) js) ind2store) indices))"

definition weighted :: "nat \<Rightarrow> pyfloat list \<Rightarrow> pyfloat list list \<Rightarrow> pyfloat list" where
  "weighted ch w im_slice = map (\<lambda>c. sum_list (map2 (\<lambda>x p. x * p ! c) w im_slice)) [0..<ch]"

definition clip :: "pyfloat \<Rightarrow> pyfloat \<Rightarrow> pyfloat \<Rightarrow> pyfloat" where
  "clip lo hi x = min (max x lo) hi"

text \<open>\<^verbatim>\<open>np.around\<close> rounds a half to the even neighbour.\<close>

definition around :: "pyfloat \<Rightarrow> int" where
  "around x =
     (let f = \<lfloor>x\<rfloor>; r = x - of_int f
      in if r < 1 / 2 \<or> r = 1 / 2 \<and> even f then f else f + 1)"

definition as_uint8 :: "bool \<Rightarrow> pyfloat list list list \<Rightarrow> pyfloat list list list" where
  "as_uint8 byte_array outimg =
     (if byte_array then map (map (map (\<lambda>x. of_int (around (clip 0 255 x))))) outimg else outimg)"

definition imresizevec :: "bool \<Rightarrow> pyfloat list list list \<Rightarrow> pyfloat list list \<Rightarrow> nat list list \<Rightarrow> nat
    \<Rightarrow> pyfloat list list list" where
  "imresizevec byte_array inimg weights indices along =
     (let ch = pixel_channels inimg
      in as_uint8 byte_array
          (if along = 0 then
             map2 (\<lambda>w ind. map (\<lambda>j. weighted ch w (map (\<lambda>i. inimg ! i ! j) ind)) [0..<row_width inimg]) weights indices
           else
             map (\<lambda>row. map2 (\<lambda>w ind. weighted ch w (map (\<lambda>i. row ! i) ind)) weights indices) inimg))"

definition set_cell :: "nat \<Rightarrow> nat \<Rightarrow> 'a \<Rightarrow> 'a list list \<Rightarrow> 'a list list" where
  "set_cell a b v out = out[a := (out ! a)[b := v]]"

definition imresizemex :: "bool \<Rightarrow> pyfloat list list list \<Rightarrow> pyfloat list list \<Rightarrow> nat list list \<Rightarrow> nat
    \<Rightarrow> pyfloat list list list" where
  "imresizemex byte_array inimg weights indices along =
     (let ch = pixel_channels inimg; zero = replicate ch 0; n = length weights
      in as_uint8 byte_array
          (if along = 0 then
             foldl (\<lambda>out i_img. foldl (\<lambda>out i_w.
                 set_cell i_w i_img (weighted ch (weights ! i_w) (map (\<lambda>i. inimg ! i ! i_img) (indices ! i_w))) out)
               out [0..<n]) (replicate n (replicate (row_width inimg) zero)) [0..<row_width inimg]
           else
             foldl (\<lambda>out i_img. foldl (\<lambda>out i_w.
                 set_cell i_img i_w (weighted ch (weights ! i_w) (map (\<lambda>i. inimg ! i_img ! i) (indices ! i_w))) out)
               out [0..<n]) (replicate (length inimg) (replicate n zero)) [0..<length inimg]))"

definition resizeAlongDim :: "bool \<Rightarrow> pyfloat list list list \<Rightarrow> nat \<Rightarrow> pyfloat list list \<Rightarrow> nat list list \<Rightarrow> string
    \<Rightarrow> pyfloat list list list" where
  "resizeAlongDim byte_array A along weights indices mode =
     (if mode = ''org'' then imresizemex byte_array A weights indices along
      else imresizevec byte_array A weights indices along)"

definition kernel_of :: "string \<Rightarrow> exn + (pyfloat \<Rightarrow> pyfloat)" where
  "kernel_of method =
     (if method = ''bicubic'' then Inr cubic
      else if method = ''bilinear'' then Inr triangle
      else Inl (Exn ValueError ''unidentified kernel method supplied''))"

definition scale_and_size :: "nat \<times> nat \<Rightarrow> pyfloat option \<Rightarrow> (int \<times> int) option \<Rightarrow> exn + (pyfloat \<times> pyfloat) \<times> int \<times> int" where
  "scale_and_size shape scalar_scale output_shape =
     (case (scalar_scale, output_shape) of
        (Some s, None) \<Rightarrow> Inr ((s, s), deriveSizeFromScale shape (s, s))
      | (None, Some out_size) \<Rightarrow>
          (case deriveScaleFromSize shape out_size of Inl e \<Rightarrow> Inl e | Inr scale \<Rightarrow> Inr (scale, out_size))
      | _ \<Rightarrow> Inl (Exn ValueError ''either scalar_scale OR output_shape should be defined''))"

text \<open>The dimension with the smaller scale comes first.\<close>

definition imresize :: "image \<Rightarrow> pyfloat option \<Rightarrow> string \<Rightarrow> (int \<times> int) option \<Rightarrow> string \<Rightarrow> exn + image" where
  "imresize I scalar_scale method output_shape mode =
     (let B = cells I; shape = (length B, row_width B)
      in case kernel_of method of
           Inl e \<Rightarrow> Inl e
         | Inr kern \<Rightarrow>
       (case scale_and_size shape scalar_scale output_shape of
           Inl e \<Rightarrow> Inl e
         | Inr (scale, output_size) \<Rightarrow>
       (case contributions (fst shape) (fst output_size) (fst scale) kern 4 of
           Inl e \<Rightarrow> Inl e
         | Inr (w0, ind0) \<Rightarrow>
       (case contributions (snd shape) (snd output_size) (snd scale) kern 4 of
           Inl e \<Rightarrow> Inl e
         | Inr (w1, ind1) \<Rightarrow>
             let rows = (\<lambda>A. resizeAlongDim (is_uint8 I) A 0 w0 ind0 mode);
                 cols = (\<lambda>A. resizeAlongDim (is_uint8 I) A 1 w1 ind1 mode)
             in Inr (I\<lparr>cells := if fst scale \<le> snd scale then cols (rows B) else rows (cols B)\<rparr>)))))"

definition convertDouble2Byte :: "pyfloat list list \<Rightarrow> byte list list" where
  "convertDouble2Byte I = map (map (\<lambda>x. word_of_int (around (255 * clip 0 1 x)))) I"

text \<open>The middle of \<^verbatim>\<open>resize_worker\<close>: a grey image of bytes, as floats, made 256 by 256 and rounded.\<close>

definition grey_floats :: "byte list list \<Rightarrow> image" where
  "grey_floats img = \<lparr>is_uint8 = False, two_d = True, cells = map (map (\<lambda>b. [of_int (uint b)])) img\<rparr>"

definition quantize :: "image \<Rightarrow> byte list list" where
  "quantize resized_float = map (map (\<lambda>p. word_of_int \<lfloor>clip 0 255 (of_int \<lfloor>hd p + 1 / 2\<rfloor>)\<rfloor>)) (cells resized_float)"

definition resize_pixels :: "byte list list \<Rightarrow> int \<times> int \<Rightarrow> exn + byte list list" where
  "resize_pixels img output_shape =
     (case imresize (grey_floats img) None ''bicubic'' (Some output_shape) ''vec'' of Inl e \<Rightarrow> Inl e | Inr r \<Rightarrow> Inr (quantize r))"

section \<open>The weights\<close>

text \<open>The position that a position outside of the image is mirrored to.\<close>

definition mirror :: "nat \<Rightarrow> int \<Rightarrow> nat" where
  "mirror n j = (let r = nat (j mod (2 * int n)) in if r < n then r else 2 * n - 1 - r)"

lemma mirror_less: "0 < n \<Longrightarrow> mirror n j < n"
proof -
  assume "0 < n"
  then have "nat (j mod (2 * int n)) < 2 * n"
    using pos_mod_bound [of "2 * int n" j] pos_mod_sign [of "2 * int n" j] by linarith
  then show ?thesis by (auto simp: mirror_def Let_def)
qed

lemma mirror_inside: "0 \<le> j \<Longrightarrow> j < int n \<Longrightarrow> mirror n j = nat j"
  by (simp add: mirror_def Let_def)

lemma aux_mirror:
  assumes "0 < n"
  shows "([0..<n] @ rev [0..<n]) ! nat (j mod int (length ([0..<n] @ rev [0..<n]))) = mirror n j"
proof -
  define r where "r = nat (j mod (2 * int n))"
  have r: "r < 2 * n"
    using assms pos_mod_bound [of "2 * int n" j] pos_mod_sign [of "2 * int n" j] unfolding r_def by linarith
  have len: "int (length ([0..<n] @ rev [0..<n])) = 2 * int n" by simp
  have m: "mirror n j = (if r < n then r else 2 * n - 1 - r)" by (simp add: mirror_def r_def Let_def)
  have "([0..<n] @ rev [0..<n]) ! r = mirror n j"
  proof (cases "r < n")
    case True
    then show ?thesis by (simp add: m nth_append)
  next
    case False
    with r have "rev [0..<n] ! (r - n) = 2 * n - 1 - r" by (simp add: rev_nth)
    with False show ?thesis by (simp add: m nth_append)
  qed
  then show ?thesis unfolding len r_def .
qed

lemma upto_map: "[1..int m] = map (\<lambda>a. int a + 1) [0..<m]"
  by (rule nth_equalityI) simp_all

text \<open>Halving an image: eight neighbours of each new pixel count, with these weights.\<close>

definition halving :: "pyfloat list" where
  "halving = [-3 / 256, -9 / 256, 29 / 256, 111 / 256, 111 / 256, 29 / 256, -9 / 256, -3 / 256]"

definition halving_taps :: "nat \<Rightarrow> nat \<Rightarrow> nat list" where
  "halving_taps n a = map (\<lambda>k. mirror (2 * n) (2 * int a - 3 + int k)) [0..<8]"

lemma contributions_half:
  assumes "0 < m"
  shows "contributions (2 * m) (int m) (1 / 2) cubic 4 = Inr (replicate m halving, map (halving_taps m) [0..<m])"
proof -
  let ?ws = "[0, -3 / 256, -9 / 256, 29 / 256, 111 / 256, 111 / 256, 29 / 256, -9 / 256, -3 / 256, 0] :: pyfloat list"
  let ?tap = "\<lambda>a k. 2 * int a - 3 + int k - 1" and ?u = "\<lambda>a. 2 * of_nat a + 3 / 2 :: pyfloat"
  have ten: "[0..<10] = [0, 1, 2, 3, 4, 5, 6, 7, 8, 9]" and eight: "[0..<8] = [0, 1, 2, 3, 4, 5, 6, 7 :: nat]" by code_simp+
  have half: "(if (1 / 2 :: pyfloat) < 1 then f else g) = f" "((1 / 2 :: pyfloat) = 0) = False" for f g :: 'z by simp_all
  have P: "nat (\<lceil>4 / (1 / 2) :: pyfloat\<rceil> + 2) = 10" by simp
  have u: "map (\<lambda>x. of_int x / (1 / 2) + 1 / 2 * (1 - 1 / (1 / 2))) [1..int m] = map ?u [0..<m]"
    by (simp add: upto_map comp_def)
  have "\<lfloor>?u a - 4 / (1 / 2) / 2\<rfloor> = 2 * int a - 3" for a by (simp add: floor_eq_iff)
  then have left: "map (\<lambda>y. \<lfloor>y - 4 / (1 / 2) / 2\<rfloor>) (map ?u [0..<m]) = map (\<lambda>a. 2 * int a - 3) [0..<m]"
    by (simp only: map_map comp_def)
  have ind: "map (\<lambda>l. map (\<lambda>k. l + int k - 1) [0..<10]) (map (\<lambda>a. 2 * int a - 3) [0..<m]) = map (\<lambda>a. map (?tap a) [0..<10]) [0..<m]"
    by (simp only: map_map comp_def)
  have "map (\<lambda>j. 1 / 2 * cubic (1 / 2 * (?u a - of_int j - 1))) (map (?tap a) [0..<10]) = ?ws" for a
  proof -
    have "?u a - of_int (?tap a k) - 1 = (9 / 2 - of_nat k :: pyfloat)" for k by simp
    then show ?thesis by (simp only: ten map_map comp_def) (simp add: cubic_def Let_def)
  qed
  then have raw: "map2 (\<lambda>y js. map (\<lambda>j. 1 / 2 * cubic (1 / 2 * (y - of_int j - 1))) js) (map ?u [0..<m])
      (map (\<lambda>a. map (?tap a) [0..<10]) [0..<m]) = map (\<lambda>a. ?ws) [0..<m]"
    by (simp only: map2_map_map)
  have weights: "map (\<lambda>ws. map (\<lambda>w. w / sum_list ws) ws) (map (\<lambda>a. ?ws) [0..<m]) = map (\<lambda>a. ?ws) [0..<m]"
    by simp
  have kept: "filter (\<lambda>k. \<exists>ws \<in> set (map (\<lambda>a. ?ws) [0..<m]). ws ! k \<noteq> 0) [0..<10] = [1, 2, 3, 4, 5, 6, 7, 8]"
  proof -
    have "set (map (\<lambda>a. ?ws) [0..<m]) = {?ws}" using assms by (simp add: image_constant_conv)
    then show ?thesis by (simp only: ten) simp
  qed
  have indices: "map (map (\<lambda>j. ([0..<2 * m] @ rev [0..<2 * m]) ! nat (j mod int (length ([0..<2 * m] @ rev [0..<2 * m])))))
      (map (\<lambda>a. map (?tap a) [0..<10]) [0..<m]) = map (\<lambda>a. map (\<lambda>k. mirror (2 * m) (?tap a k)) [0..<10]) [0..<m]"
    using assms by (simp only: map_map comp_def aux_mirror)
  have taps: "map ((!) (map (\<lambda>k. mirror (2 * m) (?tap a k)) [0..<10])) [1, 2, 3, 4, 5, 6, 7, 8] = halving_taps m a" for a
    by (simp add: ten eight halving_taps_def algebra_simps)
  show ?thesis
    unfolding contributions_def Let_def half if_False u left P ind raw weights kept indices
    unfolding map_map comp_def taps
    by (simp add: map_replicate_const halving_def)
qed

section \<open>The two ways to apply them\<close>

definition rect :: "nat \<Rightarrow> nat \<Rightarrow> 'a list list \<Rightarrow> bool" where
  "rect h w rows \<longleftrightarrow> length rows = h \<and> (\<forall>r \<in> set rows. length r = w)"

definition grid :: "nat \<Rightarrow> nat \<Rightarrow> (nat \<Rightarrow> nat \<Rightarrow> 'a) \<Rightarrow> 'a list list" where
  "grid h w f = map (\<lambda>a. map (f a) [0..<w]) [0..<h]"

lemma rect_grid [simp]: "rect h w (grid h w f)"
  by (simp add: rect_def grid_def)

lemma rect_replicate [simp]: "rect h w (replicate h (replicate w x))"
  by (simp add: rect_def)

lemma rect_set_cell: "rect h w out \<Longrightarrow> a < h \<Longrightarrow> rect h w (set_cell a b v out)"
  by (auto simp: rect_def set_cell_def dest!: set_update_subset_insert [THEN subsetD])

lemma rect_eqI:
  assumes "rect h w xs" and "\<And>a b. a < h \<Longrightarrow> b < w \<Longrightarrow> xs ! a ! b = f a b"
  shows "xs = grid h w f"
proof (rule nth_equalityI)
  show "length xs = length (grid h w f)" using assms(1) by (simp add: rect_def grid_def)
  fix a
  assume "a < length xs"
  with assms show "xs ! a = grid h w f ! a"
    by (auto simp: rect_def grid_def intro!: nth_equalityI)
qed

text \<open>A loop that fills in cells.\<close>

lemma fill_cells:
  assumes "\<forall>(a, b) \<in> set ps. a < h \<and> b < w"
  shows "rect h w out \<Longrightarrow> rect h w (foldl (\<lambda>out (a, b). set_cell a b (f a b) out) out ps)
    \<and> (\<forall>a < h. \<forall>b < w. foldl (\<lambda>out (a, b). set_cell a b (f a b) out) out ps ! a ! b
         = (if (a, b) \<in> set ps then f a b else out ! a ! b))"
  using assms
proof (induction ps arbitrary: out)
  case (Cons p ps)
  obtain a b where p: "p = (a, b)" "a < h" "b < w" using Cons.prems(2) by (cases p) auto
  from Cons.prems(1) p have "set_cell a b v out ! a' ! b' = (if (a', b') = (a, b) then v else out ! a' ! b')"
    if "a' < h" "b' < w" for a' b' v
    using that by (auto simp: set_cell_def rect_def nth_list_update)
  with Cons.IH [OF rect_set_cell [OF Cons.prems(1) p(2)], of b "f a b"] Cons.prems(2) p show ?case by auto
qed simp

lemma fill_grid:
  assumes "rect h w out" and "\<forall>(a, b) \<in> set ps. a < h \<and> b < w" and "\<forall>a < h. \<forall>b < w. (a, b) \<in> set ps"
  shows "foldl (\<lambda>out (a, b). set_cell a b (f a b) out) out ps = grid h w f"
  by (rule rect_eqI) (use fill_cells [OF assms(2,1), of f] assms(3) in auto)

lemma foldl_pairs:
  "foldl (\<lambda>out x. foldl (\<lambda>out y. g x y out) out ys) out xs = foldl (\<lambda>out (x, y). g x y out) out (List.product xs ys)"
  by (induction xs arbitrary: out) (simp_all add: foldl_map)

lemma map2_grid:
  assumes "length weights = length indices"
  shows "map2 (\<lambda>w ind. map (\<lambda>j. f w ind j) [0..<n]) weights indices = grid (length weights) n (\<lambda>a b. f (weights ! a) (indices ! a) b)"
    and "map (\<lambda>row. map2 (g row) weights indices) rows = grid (length rows) (length weights) (\<lambda>a b. g (rows ! a) (weights ! b) (indices ! b))"
  using assms by (auto simp: grid_def intro!: nth_equalityI)

lemma imresizemex_vec:
  assumes "length weights = length indices"
  shows "imresizemex byte_array img weights indices along = imresizevec byte_array img weights indices along"
proof -
  let ?n = "length weights" and ?ch = "pixel_channels img"
  let ?f = "\<lambda>a b. weighted ?ch (weights ! a) (map (\<lambda>i. img ! i ! b) (indices ! a))"
  let ?g = "\<lambda>a b. weighted ?ch (weights ! b) (map (\<lambda>i. img ! a ! i) (indices ! b))"
  have "foldl (\<lambda>out i_img. foldl (\<lambda>out i_w. set_cell i_w i_img (?f i_w i_img) out) out [0..<?n]) out [0..<row_width img]
      = grid ?n (row_width img) ?f" if "rect ?n (row_width img) out" for out
  proof -
    have "foldl (\<lambda>out i_img. foldl (\<lambda>out i_w. set_cell i_w i_img (?f i_w i_img) out) out [0..<?n]) out [0..<row_width img]
        = foldl (\<lambda>out (a, b). set_cell a b (?f a b) out) out (map prod.swap (List.product [0..<row_width img] [0..<?n]))"
      unfolding foldl_pairs foldl_map by (simp add: case_prod_unfold)
    also have "\<dots> = grid ?n (row_width img) ?f"
      by (rule fill_grid [OF that]) (auto simp: image_iff)
    finally show ?thesis .
  qed
  moreover have "foldl (\<lambda>out i_img. foldl (\<lambda>out i_w. set_cell i_img i_w (?g i_img i_w) out) out [0..<?n]) out [0..<length img]
      = grid (length img) ?n ?g" if "rect (length img) ?n out" for out
    unfolding foldl_pairs by (rule fill_grid [OF that]) auto
  ultimately show ?thesis
    by (simp add: imresizemex_def imresizevec_def Let_def map2_grid [OF assms])
qed

section \<open>Halving an image\<close>

text \<open>The value of a new pixel: both dimensions are weighted, with the positions outside of the image mirrored.\<close>

definition halved :: "(nat \<Rightarrow> nat \<Rightarrow> pyfloat) \<Rightarrow> nat \<Rightarrow> nat \<Rightarrow> nat \<Rightarrow> nat \<Rightarrow> pyfloat" where
  "halved px h w a b =
     sum_list (map2 (\<lambda>x j. x * sum_list (map2 (\<lambda>y i. y * px i j) halving (halving_taps h a))) halving (halving_taps w b))"

lemma halving_taps_less: "0 < n \<Longrightarrow> j \<in> set (halving_taps n a) \<Longrightarrow> j < 2 * n"
  by (auto simp: halving_taps_def mirror_less)

lemma grid_nth [simp]: "a < h \<Longrightarrow> b < w \<Longrightarrow> grid h w f ! a ! b = f a b"
  by (simp add: grid_def)

lemma length_grid [simp]: "length (grid h w f) = h"
  by (simp add: grid_def)

lemma row_width_grid [simp]: "0 < h \<Longrightarrow> row_width (grid h w f) = w"
  by (cases h) (simp_all add: grid_def row_width_def upt_conv_Cons del: upt_Suc)

lemma channels_grid: "0 < h \<Longrightarrow> 0 < w \<Longrightarrow> pixel_channels (grid h w (\<lambda>a b. [f a b])) = 1"
  by (cases h; cases w) (simp_all add: grid_def pixel_channels_def row_width_def upt_conv_Cons del: upt_Suc)

lemma map_grid: "map (map f) (grid h w g) = grid h w (\<lambda>a b. f (g a b))"
  by (simp add: grid_def comp_def)

lemma grid_cong: "h = h' \<Longrightarrow> w = w' \<Longrightarrow> (\<And>a b. a < h' \<Longrightarrow> b < w' \<Longrightarrow> f a b = g a b) \<Longrightarrow> grid h w f = grid h' w' g"
  by (simp add: grid_def)

lemma weighted_one:
  assumes "\<And>i. i \<in> set js \<Longrightarrow> F i = [f i]"
  shows "weighted 1 ws (map F js) = [sum_list (map2 (\<lambda>x i. x * f i) ws js)]"
proof -
  have "map F js = map (\<lambda>i. [f i]) js" using assms by simp
  moreover have "map2 (\<lambda>x p. x * p ! 0) ws (map (\<lambda>i. [f i]) js) = map2 (\<lambda>x i. x * f i) ws js"
    by (simp add: zip_map2 case_prod_unfold comp_def)
  ultimately show ?thesis by (simp only: weighted_def) simp
qed

lemma imresize_half:
  assumes "0 < h" and "0 < w"
  shows "imresize \<lparr>is_uint8 = False, two_d = t, cells = grid (2 * h) (2 * w) (\<lambda>i j. [px i j])\<rparr> None ''bicubic'' (Some (int h, int w)) ''vec''
    = Inr \<lparr>is_uint8 = False, two_d = t, cells = grid h w (\<lambda>a b. [halved px h w a b])\<rparr>"
proof -
  let ?B = "grid (2 * h) (2 * w) (\<lambda>i j. [px i j])"
  let ?mid = "\<lambda>a j. sum_list (map2 (\<lambda>y i. y * px i j) halving (halving_taps h a))"
  have sz: "length ?B = 2 * h" "row_width ?B = 2 * w" using assms by simp_all
  have sc: "scale_and_size (2 * h, 2 * w) None (Some (int h, int w)) = Inr ((1 / 2, 1 / 2), int h, int w)"
    using assms by (simp add: scale_and_size_def deriveScaleFromSize_def)
  have rows: "imresizevec False ?B (replicate h halving) (map (halving_taps h) [0..<h]) 0 = grid h (2 * w) (\<lambda>a j. [?mid a j])"
  proof -
    have "weighted 1 halving (map (\<lambda>i. ?B ! i ! j) (halving_taps h a)) = [?mid a j]" if "j < 2 * w" for a j
      by (rule weighted_one) (use that assms halving_taps_less in simp)
    then show ?thesis
      using assms by (simp add: imresizevec_def Let_def as_uint8_def map2_grid channels_grid sz cong: grid_cong)
  qed
  have cols: "imresizevec False (grid h (2 * w) (\<lambda>a j. [?mid a j])) (replicate w halving) (map (halving_taps w) [0..<w]) 1
      = grid h w (\<lambda>a b. [halved px h w a b])"
  proof -
    have "weighted 1 halving (map (\<lambda>j. grid h (2 * w) (\<lambda>a j. [?mid a j]) ! a ! j) (halving_taps w b)) = [halved px h w a b]"
      if "a < h" for a b
      unfolding halved_def by (rule weighted_one) (use that assms halving_taps_less in simp)
    then show ?thesis
      using assms by (simp add: imresizevec_def Let_def as_uint8_def map2_grid channels_grid cong: grid_cong)
  qed
  show ?thesis
    by (simp add: imresize_def Let_def kernel_of_def sz sc contributions_half [OF assms(1)] contributions_half [OF assms(2)]
        resizeAlongDim_def rows cols [unfolded One_nat_def])
qed

text \<open>The byte that a new pixel becomes.\<close>

definition nearest_byte :: "pyfloat \<Rightarrow> byte" where
  "nearest_byte x = word_of_int (max 0 (min 255 \<lfloor>x + 1 / 2\<rfloor>))"

lemma quantize_grid: "quantize \<lparr>is_uint8 = u, two_d = t, cells = grid h w (\<lambda>a b. [f a b])\<rparr> = grid h w (\<lambda>a b. nearest_byte (f a b))"
proof -
  have "\<lfloor>clip 0 255 (of_int n)\<rfloor> = max 0 (min 255 n)" for n
    by (auto simp: clip_def min_def max_def)
  then show ?thesis by (simp add: quantize_def map_grid nearest_byte_def)
qed

lemma resize_pixels_half:
  assumes "0 < h" and "0 < w"
  shows "resize_pixels (grid (2 * h) (2 * w) px) (int h, int w)
    = Inr (grid h w (\<lambda>a b. nearest_byte (halved (\<lambda>i j. of_int (uint (px i j))) h w a b)))"
  using imresize_half [OF assms, of True "\<lambda>i j. of_int (uint (px i j))"]
  by (simp add: resize_pixels_def grey_floats_def map_grid quantize_grid)

text \<open>The weights sum to 1, so the value does not change where the eight by eight neighbours are equal.\<close>

lemma halving_taps_length [simp]: "length (halving_taps n a) = 8"
  by (simp add: halving_taps_def)

lemma weights_const:
  assumes "length ws = length js" and "\<And>j. j \<in> set js \<Longrightarrow> f j = c"
  shows "sum_list (map2 (\<lambda>x j. x * f j) ws js) = sum_list ws * (c :: pyfloat)"
  using assms by (induction ws js rule: list_induct2) (simp_all add: distrib_right)

lemma sum_halving: "sum_list halving = 1" "length halving = 8"
  by (simp_all add: halving_def)

lemma halved_flat:
  assumes "\<And>i j. i \<in> set (halving_taps h a) \<Longrightarrow> j \<in> set (halving_taps w b) \<Longrightarrow> px i j = c"
  shows "halved px h w a b = c"
proof -
  have "sum_list (map2 (\<lambda>y i. y * px i j) halving (halving_taps h a)) = c" if "j \<in> set (halving_taps w b)" for j
    using weights_const [of halving "halving_taps h a" "\<lambda>i. px i j" c] assms [OF _ that] by (simp add: sum_halving)
  then show ?thesis
    unfolding halved_def using weights_const [of halving "halving_taps w b" _ c] by (simp add: sum_halving)
qed

lemma nearest_byte_of_byte: "nearest_byte (of_int (uint b)) = b"
proof -
  have "0 \<le> uint b" "uint b \<le> 255" using uint_lt2p [of b] by simp_all
  moreover have "\<lfloor>of_int (uint b) + 1 / 2 :: pyfloat\<rfloor> = uint b" by linarith
  ultimately show ?thesis by (simp add: nearest_byte_def min_def)
qed

section \<open>The whole function\<close>

lemma contributions_lengths:
  "contributions n m s kern kw = Inr (w, ind) \<Longrightarrow> length w = length ind"
  by (auto simp: contributions_def Let_def split: if_splits)

text \<open>No position outside of the image is ever read.\<close>

lemma gathered_inside:
  assumes "0 < n"
  shows "\<forall>js \<in> set (map (\<lambda>js. map ((!) js) (filter keep [0..<P]))
      (map (map (\<lambda>j. ([0..<n] @ rev [0..<n]) ! nat (j mod int (length ([0..<n] @ rev [0..<n])))))
         (map (\<lambda>l. map (\<lambda>k. l + int k - 1) [0..<P]) left))). \<forall>j \<in> set js. j < n"
  unfolding aux_mirror [OF assms] using mirror_less [OF assms] by auto

lemma if_Inr: "(if c then Inl e else Inr (x, y)) = Inr (x', y') \<Longrightarrow> y' = y"
  by (simp split: if_splits)

lemma contributions_indices:
  assumes "contributions n m s kern kw = Inr (w, ind)" and "0 < n"
  shows "\<forall>js \<in> set ind. \<forall>j \<in> set js. j < n"
  unfolding if_Inr [OF assms(1) [unfolded contributions_def Let_def]] by (rule gathered_inside [OF assms(2)])

text \<open>
The two ways to resize agree: the loops of mode \<^verbatim>\<open>org\<close> and the array operations of every other mode give the same
image or the same error, for every image, scale, shape and kernel.
\<close>

lemma imresize_modes_agree:
  "imresize I scalar_scale method output_shape ''org'' = imresize I scalar_scale method output_shape mode"
  by (auto simp: imresize_def resizeAlongDim_def Let_def imresizemex_vec contributions_lengths
      split: sum.splits prod.splits)

text \<open>
A grey image of even height and width becomes one of half the size; a new pixel is the
nearest byte to the sum of its eight by eight neighbours under fixed weights, positions outside of the image mirrored,
and where these neighbours are all equal it has their value.
\<close>

lemma cover_is_halved:
  assumes "0 < h" and "0 < w"
  shows "\<exists>new. resize_pixels (grid (2 * h) (2 * w) px) (int h, int w) = Inr (grid h w new)
    \<and> (\<forall>a b. new a b = nearest_byte (halved (\<lambda>i j. of_int (uint (px i j))) h w a b))
    \<and> (\<forall>a b c. (\<forall>i \<in> set (halving_taps h a). \<forall>j \<in> set (halving_taps w b). px i j = c) \<longrightarrow> new a b = c)"
proof -
  let ?px = "\<lambda>i j. of_int (uint (px i j)) :: pyfloat"
  have "nearest_byte (halved ?px h w a b) = c"
    if "\<forall>i \<in> set (halving_taps h a). \<forall>j \<in> set (halving_taps w b). px i j = c" for a b c
  proof -
    have e: "halved ?px h w a b = of_int (uint c)" by (rule halved_flat) (use that in simp)
    show ?thesis unfolding e by (rule nearest_byte_of_byte)
  qed
  with resize_pixels_half [OF assms, of px] show ?thesis by blast
qed

end
