(* ===== verification/Covers.thy ===== *)
theory Covers
  imports Resize "HOL-Library.Multiset" "HOL-Library.List_Lexorder" "HOL-Library.Char_ord"
begin

text \<open>
  The scripts that prepare a data set: src/test\_images/BOWS2 (resize\_dataset.py, the JPEG and PNG converters) and
  CALPA-NET-master/prep/stego\_algorithms/Juniward/Jpegstego.py. Pillow and OpenCV are parameters; the files are a map
  from paths to contents. A pool of processes is a run of its workers in the order in which they end, which is
  an argument: no worker reads what another writes. Progress bars, printed messages and the creation of the directories are left
  out.
\<close>

section \<open>The libraries\<close>

type_synonym 'f files = "string \<rightharpoonup> 'f"

text \<open>\<open>pl_save\<close> gets the format and the numeric options.\<close>

record ('f, 'im) pillow =
  pl_open :: "'f \<Rightarrow> exn + 'im"
  pl_mode :: "'im \<Rightarrow> string"
  pl_convert :: "'im \<Rightarrow> 'im"
  pl_save :: "string \<Rightarrow> (string \<times> int) list \<Rightarrow> 'im \<Rightarrow> exn + 'f"

text \<open>\<^verbatim>\<open>imread\<close> gives None and \<^verbatim>\<open>imwrite\<close> False (no file here) where they fail without an exception.\<close>

record ('f, 'im) opencv =
  cv_imread_grey :: "'f \<Rightarrow> byte list list option"
  cv_imread :: "'f \<Rightarrow> 'im option"
  cv_shape :: "'im \<Rightarrow> nat list"
  cv_grey :: "byte list list \<Rightarrow> 'im"
  cv_imwrite :: "string \<Rightarrow> 'im \<Rightarrow> exn + 'f option"

definition open_image :: "('f, 'im) pillow \<Rightarrow> string \<Rightarrow> ('f files, 'im) prog" where
  "open_image L path = bindp (getp (\<lambda>fs. fs path)) (\<lambda>c. case c of
      None \<Rightarrow> raise (Exn FileNotFound path) | Some f \<Rightarrow> lift_sum (pl_open L f))"

definition save_image :: "('f, 'im) pillow \<Rightarrow> string \<Rightarrow> string \<Rightarrow> (string \<times> int) list \<Rightarrow> 'im \<Rightarrow> ('f files, unit) prog" where
  "save_image L path format options img =
     bindp (lift_sum (pl_save L format options img)) (\<lambda>f. modifyp (\<lambda>fs. fs(path \<mapsto> f)))"

definition imwrite :: "('f, 'im) opencv \<Rightarrow> string \<Rightarrow> 'im \<Rightarrow> ('f files, bool) prog" where
  "imwrite V path img =
     bindp (lift_sum (cv_imwrite V path img)) (\<lambda>r. case r of
        None \<Rightarrow> ret False | Some f \<Rightarrow> seqp (modifyp (\<lambda>fs. fs(path \<mapsto> f))) (ret True))"

text \<open>\<^verbatim>\<open>Path.stem\<close>: the name without what follows its last dot, unless the dot is its first or last character.\<close>

definition stem :: "string \<Rightarrow> string" where
  "stem name = (let i = py_rfind name ''.'' in if 0 < i \<and> i < int (length name) - 1 then take (nat i) name else name)"

text \<open>\<^verbatim>\<open>try: ... return None / except Exception as e: return ...\<close>\<close>

definition or_report :: "string \<Rightarrow> ('f files, string option) prog \<Rightarrow> ('f files, string option) prog" where
  "or_report text worker = catchp worker (\<lambda>e. ret (Some (text @ '': '' @ exn_str e)))"

text \<open>\<^verbatim>\<open>str\<close> of a tuple of numbers.\<close>

definition tuple_str :: "nat list \<Rightarrow> string" where
  "tuple_str ns = ''('' @ join '', '' (map (\<lambda>n. int_str (int n)) ns) @ (if length ns = 1 then '',)'' else '')'')"

section \<open>The workers\<close>

definition cover_path :: "string \<Rightarrow> string" where
  "cover_path name = ''cover/'' @ name"

definition resized_path :: "string \<Rightarrow> string" where
  "resized_path name = ''cover_resized/'' @ name"

lemma paths_inj [simp]:
  "cover_path a = cover_path b \<longleftrightarrow> a = b" "resized_path a = resized_path b \<longleftrightarrow> a = b"
  "cover_path a \<noteq> resized_path b" "resized_path a \<noteq> cover_path b"
  by (simp_all add: cover_path_def resized_path_def)

definition resize_worker :: "('f, 'im) opencv \<Rightarrow> string \<Rightarrow> ('f files, string option) prog" where
  "resize_worker V name =
     or_report (''Error on '' @ name)
      (bindp (getp (\<lambda>fs. fs (cover_path name))) (\<lambda>c.
       case Option.bind c (cv_imread_grey V) of
         None \<Rightarrow> ret (Some (''Failed to read: '' @ name))
       | Some img \<Rightarrow>
           bindp (lift_sum (resize_pixels img (256, 256))) (\<lambda>resized_uint8.
           seqp (imwrite V (resized_path name) (cv_grey V resized_uint8)) (ret None))))"

definition to_L :: "('f, 'im) pillow \<Rightarrow> 'im \<Rightarrow> 'im" where
  "to_L L img = (if pl_mode L img \<noteq> ''L'' then pl_convert L img else img)"

definition jpeg_options :: "int \<Rightarrow> (string \<times> int) list" where
  "jpeg_options quality = [(''quality'', quality), (''optimize'', 0), (''subsampling'', 0)]"

definition jpeg_path :: "string \<Rightarrow> string" where
  "jpeg_path name = ''cover_resized_jpg/'' @ stem name @ ''.jpg''"

text \<open>jpg\_converter\_qf75.py and jpg\_converter\_qf95.py differ in the constant only.\<close>

definition precise_jpeg_worker :: "('f, 'im) pillow \<Rightarrow> int \<Rightarrow> string \<Rightarrow> ('f files, string option) prog" where
  "precise_jpeg_worker L quality_factor name =
     or_report (''Forensic Fault on '' @ name)
      (bindp (open_image L (resized_path name)) (\<lambda>img.
       seqp (save_image L (jpeg_path name) ''JPEG'' (jpeg_options quality_factor) (to_L L img))
            (ret None)))"

definition jpeg_worker_qf95 :: "('f, 'im) pillow \<Rightarrow> string \<Rightarrow> ('f files, string option) prog" where
  "jpeg_worker_qf95 L = precise_jpeg_worker L 95"

definition convert_worker :: "('f, 'im) pillow \<Rightarrow> string \<Rightarrow> ('f files, string option) prog" where
  "convert_worker L name =
     or_report (''Error processing '' @ name)
      (bindp (open_image L (resized_path name)) (\<lambda>img0.
       let img = to_L L img0; base_name = stem name
       in seqp (save_image L (''cover_resized_png/'' @ base_name @ ''.png'') ''PNG'' [] img)
         (seqp (save_image L (''cover_resized_jpg75/'' @ base_name @ ''.jpg'') ''JPEG'' (jpeg_options 75) img)
         (seqp (save_image L (''cover_resized_jpg95/'' @ base_name @ ''.jpg'') ''JPEG'' (jpeg_options 95) img)
               (ret None)))))"

definition lossless_conversion_worker :: "('f, 'im) opencv \<Rightarrow> (string \<times> string) \<times> string \<Rightarrow> ('f files, string option) prog" where
  "lossless_conversion_worker V task =
     (let ((dir, name), output_dir) = task
      in or_report (''System Error on '' @ name)
          (bindp (getp (\<lambda>fs. fs (dir @ ''/'' @ name))) (\<lambda>c.
           case Option.bind c (cv_imread V) of
             None \<Rightarrow> ret (Some (''Corrupt File/Failed to read: '' @ name))
           | Some img \<Rightarrow>
               if length (cv_shape V img) \<noteq> 2
               then ret (Some (''Forensic Alert: '' @ name @ '' is not a 2D grayscale matrix. Shape: '' @ tuple_str (cv_shape V img)))
               else seqp (imwrite V (output_dir @ ''/'' @ stem name @ ''.png'') img) (ret None))))"

section \<open>The pools\<close>

definition run_pool :: "('t \<Rightarrow> ('f files, string option) prog) \<Rightarrow> 't list \<Rightarrow> ('f files, string list) prog" where
  "run_pool worker completed = bindp (mapp worker completed) (\<lambda>results. ret (map the (filter (\<lambda>r. r \<noteq> None) results)))"

text \<open>The main functions over a directory; None where there is nothing to do.\<close>

definition pool_main :: "(string \<Rightarrow> ('f files, string option) prog) \<Rightarrow> (string list \<Rightarrow> string list) \<Rightarrow> string list
    \<Rightarrow> ('f files, string list option) prog" where
  "pool_main worker as_completed names =
     (let image_files = filter (\<lambda>nm. endswith nm ''.pgm'') names
      in if image_files = [] then ret None
         else bindp (run_pool worker (as_completed image_files)) (\<lambda>errors. ret (Some errors)))"

definition jpeg_main_qf75 where
  "jpeg_main_qf75 L = pool_main (precise_jpeg_worker L 75)"

definition jpeg_main_qf95 where
  "jpeg_main_qf95 L = pool_main (jpeg_worker_qf95 L)"

definition precise_main where
  "precise_main L = pool_main (convert_worker L)"

definition png_tasks :: "(string \<Rightarrow> string list option) \<Rightarrow> (string \<Rightarrow> bool) \<Rightarrow> ((string \<times> string) \<times> string) list" where
  "png_tasks listdir is_regular =
     concat (map (\<lambda>sub. case listdir sub of
         None \<Rightarrow> []
       | Some names \<Rightarrow> map (\<lambda>nm. ((sub, nm), ''cover_resized_png/'' @ sub))
                        (filter (\<lambda>nm. contains nm ''.'' \<and> is_regular (sub @ ''/'' @ nm)) names)) [''cover_resized''])"

definition png_main :: "('f, 'im) opencv \<Rightarrow> (((string \<times> string) \<times> string) list \<Rightarrow> ((string \<times> string) \<times> string) list)
    \<Rightarrow> (string \<Rightarrow> string list option) \<Rightarrow> (string \<Rightarrow> bool) \<Rightarrow> ('f files, string list option) prog" where
  "png_main V as_completed listdir is_regular =
     (let tasks = png_tasks listdir is_regular
      in if tasks = [] then ret None
         else bindp (run_pool (lossless_conversion_worker V) (as_completed tasks)) (\<lambda>errors. ret (Some errors)))"

section \<open>Jpegstego.py\<close>

text \<open>
  What J-UNIWARD is started with: the cover, the directory of the stegos, the payload and the seed. \<open>there\<close> says which
  stegos exist.
\<close>

type_synonym embedding = "string \<times> string \<times> pyfloat \<times> nat"

fun stego_loop :: "(string \<Rightarrow> bool) \<Rightarrow> string \<Rightarrow> pyfloat \<Rightarrow> nat \<Rightarrow> nat \<Rightarrow> string list \<Rightarrow> nat \<Rightarrow> embedding list" where
  "stego_loop there stego_path alpha offset offset_unit [] line_counter = []"
| "stego_loop there stego_path alpha offset offset_unit (cover_image # rest) line_counter =
     (if line_counter < offset then stego_loop there stego_path alpha offset offset_unit rest (line_counter + 1)
      else if line_counter \<ge> offset + offset_unit then []
      else (if \<not> there cover_image then [(cover_image, stego_path, alpha, line_counter)] else [])
             @ stego_loop there stego_path alpha offset offset_unit rest (line_counter + 1))"

definition generate_stego_images :: "(string \<Rightarrow> bool) \<Rightarrow> string list \<Rightarrow> string \<Rightarrow> pyfloat \<Rightarrow> nat \<Rightarrow> nat \<Rightarrow> embedding list" where
  "generate_stego_images there names stego_path alpha idx offset_unit =
     stego_loop there stego_path alpha (idx * offset_unit) offset_unit
       (sort (filter (\<lambda>nm. endswith nm ''.jpg'' \<and> \<not> startswith nm ''.'') names)) 0"

definition stego_main :: "(string \<Rightarrow> bool) \<Rightarrow> string list \<Rightarrow> embedding list list" where
  "stego_main there names =
     map (\<lambda>i. generate_stego_images there names ''/data1/dataset/wuwl/jpeg/juniward20/'' (1 / 5) i 1000) [0..<10]"

section \<open>Pools whose workers keep apart\<close>

text \<open>
  A worker that looks at one file of its own and writes files of its own: \<open>effect\<close> gives its result and what it writes.
\<close>

lemma find_unique:
  assumes "t \<in> set vs" and "P t" and "\<And>t'. t' \<in> set vs \<Longrightarrow> P t' \<Longrightarrow> t' = t"
  shows "find P vs = Some t"
proof -
  have "find P vs \<noteq> None" using assms(1,2) by (metis find_None_iff)
  then obtain t' where t': "find P vs = Some t'" by blast
  then have "t' \<in> set vs" "P t'" by (metis find_Some_iff nth_mem)+
  with assms(3) t' show ?thesis by blast
qed

locale apart =
  fixes worker :: "'t \<Rightarrow> ('f files, string option) prog"
    and good :: "'t \<Rightarrow> bool"
    and source :: "'t \<Rightarrow> string"
    and targets :: "'t \<Rightarrow> string set"
    and effect :: "'t \<Rightarrow> 'f option \<Rightarrow> string option \<times> 'f files"
  assumes worker_effect: "good t \<Longrightarrow> worker t fs = (Inr (fst (effect t (fs (source t)))), fs ++ snd (effect t (fs (source t))))"
    and writes: "good t \<Longrightarrow> dom (snd (effect t c)) \<subseteq> targets t"
    and reads: "good t \<Longrightarrow> good t' \<Longrightarrow> source t \<notin> targets t'"
    and separate: "good t \<Longrightarrow> good t' \<Longrightarrow> t \<noteq> t' \<Longrightarrow> targets t \<inter> targets t' = {}"
begin

definition result :: "'f files \<Rightarrow> 't \<Rightarrow> string option" where
  "result fs t = fst (effect t (fs (source t)))"

definition after :: "'f files \<Rightarrow> 't list \<Rightarrow> 'f files" where
  "after fs ts = (\<lambda>path. case find (\<lambda>t. path \<in> targets t) ts of
       None \<Rightarrow> fs path | Some t \<Rightarrow> (fs ++ snd (effect t (fs (source t)))) path)"

lemma same_source:
  assumes "good t" "good t'"
  shows "(fs ++ snd (effect t c)) (source t') = fs (source t')"
  using writes [OF assms(1), of c] reads [OF assms(2,1)] by (auto simp: map_add_def dom_def split: option.splits)

lemma mapp_apart:
  "distinct ts \<Longrightarrow> \<forall>t \<in> set ts. good t \<Longrightarrow> mapp worker ts fs = (Inr (map (result fs) ts), after fs ts)"
proof (induction ts arbitrary: fs)
  case Nil
  then show ?case by (simp add: after_def ret_def)
next
  case (Cons t ts)
  let ?fs = "fs ++ snd (effect t (fs (source t)))"
  have t: "good t" and rest: "\<forall>t' \<in> set ts. good t'" "distinct ts" "t \<notin> set ts" using Cons.prems by simp_all
  have src: "?fs (source t') = fs (source t')" if "t' \<in> set ts" for t'
    using same_source [OF t] rest(1) that by blast
  have res: "map (result ?fs) ts = map (result fs) ts" using src by (simp add: result_def)
  have aft: "after ?fs ts = after fs (t # ts)"
  proof
    fix path
    show "after ?fs ts path = after fs (t # ts) path"
    proof (cases "find (\<lambda>t. path \<in> targets t) ts")
      case None
      show ?thesis
      proof (cases "path \<in> targets t")
        case False
        then have "path \<notin> dom (snd (effect t (fs (source t))))" using writes [OF t] by blast
        with None False show ?thesis by (simp add: after_def map_add_def domIff)
      qed (use None in \<open>simp add: after_def\<close>)
    next
      case (Some t')
      then have t': "t' \<in> set ts" "path \<in> targets t'" by (auto simp: find_Some_iff)
      then have "path \<notin> targets t" using separate [OF t, of t'] rest by blast
      then have "path \<notin> dom (snd (effect t (fs (source t))))" using writes [OF t] by blast
      with Some \<open>path \<notin> targets t\<close> src [OF t'(1)] show ?thesis
        by (simp add: after_def map_add_def domIff split: option.split)
    qed
  qed
  have "worker t fs = (Inr (result fs t), ?fs)" using worker_effect [OF t, of fs] by (simp add: result_def)
  with Cons.IH [OF rest(2,1), of ?fs] show ?case
    by (simp add: bindp_def ret_def res aft)
qed

lemma after_order:
  assumes "set ts = set us" and "\<forall>t \<in> set us. good t"
  shows "after fs ts = after fs us"
proof
  fix path
  show "after fs ts path = after fs us path"
  proof (cases "\<exists>t \<in> set us. path \<in> targets t")
    case True
    then obtain t where t: "t \<in> set us" "path \<in> targets t" by blast
    have uniq: "t' = t" if "t' \<in> set us" "path \<in> targets t'" for t'
    proof (rule ccontr)
      assume "t' \<noteq> t"
      with assms(2) t(1) that(1) have "targets t' \<inter> targets t = {}" by (intro separate) auto
      with t(2) that(2) show False by blast
    qed
    have "find (\<lambda>t. path \<in> targets t) vs = Some t" if "set vs = set us" for vs
    proof (rule find_unique)
      show "t \<in> set vs" using that t(1) by simp
      show "path \<in> targets t" by (rule t(2))
      show "t' = t" if "t' \<in> set vs" "path \<in> targets t'" for t'
        by (rule uniq) (use that \<open>set vs = set us\<close> in simp_all)
    qed
    with assms(1) show ?thesis by (simp add: after_def)
  next
    case False
    then have "find (\<lambda>t. path \<in> targets t) vs = None" if "set vs = set us" for vs
      using that by (simp add: find_None_iff)
    with assms(1) show ?thesis by (simp add: after_def)
  qed
qed

text \<open>Whatever the order: the same files, the same errors.\<close>

lemma pool_order:
  assumes "mset ts = mset us" and "distinct us" and "\<forall>t \<in> set us. good t"
  shows "\<exists>errors. run_pool worker ts fs = (Inr errors, after fs us)
    \<and> mset errors = mset (map the (filter (\<lambda>r. r \<noteq> None) (map (result fs) us)))"
proof -
  have s: "set ts = set us" "distinct ts"
    using mset_eq_setD [OF assms(1)] mset_eq_imp_distinct_iff [OF assms(1)] assms(2) by simp_all
  have "mapp worker ts fs = (Inr (map (result fs) ts), after fs us)"
    using mapp_apart [OF s(2)] assms(3) s(1) after_order [OF s(1) assms(3)] by simp
  moreover have "mset (map the (filter (\<lambda>r. r \<noteq> None) (map (result fs) ts))) = mset (map the (filter (\<lambda>r. r \<noteq> None) (map (result fs) us)))"
    by (simp only: mset_map mset_filter assms(1))
  ultimately show ?thesis by (simp add: run_pool_def bindp_def ret_def del: mset_map mset_filter)
qed

end

section \<open>The workers keep apart\<close>

definition written :: "string \<Rightarrow> exn + 'f option \<Rightarrow> 'f files" where
  "written path r = (case r of Inr (Some f) \<Rightarrow> [path \<mapsto> f] | _ \<Rightarrow> Map.empty)"

lemma dom_written: "dom (written path r) \<subseteq> {path}"
  by (auto simp: written_def split: sum.splits option.splits)

fun failed :: "string \<Rightarrow> exn + 'a \<Rightarrow> string option" where
  "failed text (Inl e) = Some (text @ '': '' @ exn_str e)"
| "failed text (Inr x) = None"

definition resize_effect :: "('f, 'im) opencv \<Rightarrow> string \<Rightarrow> 'f option \<Rightarrow> string option \<times> 'f files" where
  "resize_effect V name c =
     (case Option.bind c (cv_imread_grey V) of
        None \<Rightarrow> (Some (''Failed to read: '' @ name), Map.empty)
      | Some img \<Rightarrow>
          (let path = resized_path name;
               r = (case resize_pixels img (256, 256) of Inl e \<Rightarrow> Inl e | Inr new \<Rightarrow> cv_imwrite V path (cv_grey V new))
           in (failed (''Error on '' @ name) r, written path r)))"

lemma resize_worker_effect:
  "resize_worker V t fs = (Inr (fst (resize_effect V t (fs (cover_path t)))), fs ++ snd (resize_effect V t (fs (cover_path t))))"
  by (auto simp: resize_worker_def resize_effect_def or_report_def imwrite_def written_def run_defs Let_def
      split: option.splits sum.splits)

lemma dom_resize_effect: "dom (snd (resize_effect V t c)) \<subseteq> {resized_path t}"
  by (simp add: resize_effect_def Let_def dom_written split: option.split)

interpretation resizing: apart "resize_worker V" "\<lambda>name. True" "\<lambda>name. cover_path name" "\<lambda>name. {resized_path name}" "resize_effect V"
  by unfold_locales (rule resize_worker_effect, rule dom_resize_effect, simp_all)

definition jpeg_effect :: "('f, 'im) pillow \<Rightarrow> int \<Rightarrow> string \<Rightarrow> 'f option \<Rightarrow> string option \<times> 'f files" where
  "jpeg_effect L quality_factor name c =
     (let r = (case c of None \<Rightarrow> Inl (Exn FileNotFound (resized_path name))
               | Some f \<Rightarrow> (case pl_open L f of Inl e \<Rightarrow> Inl e
                   | Inr img \<Rightarrow> (case pl_save L ''JPEG'' (jpeg_options quality_factor) (to_L L img) of
                       Inl e \<Rightarrow> Inl e | Inr g \<Rightarrow> Inr (Some g))))
      in (failed (''Forensic Fault on '' @ name) r, written (jpeg_path name) r))"

lemma jpeg_worker_effect:
  "precise_jpeg_worker L q t fs = (Inr (fst (jpeg_effect L q t (fs (resized_path t)))),
     fs ++ snd (jpeg_effect L q t (fs (resized_path t))))"
  by (auto simp: precise_jpeg_worker_def jpeg_effect_def jpeg_path_def open_image_def save_image_def or_report_def written_def run_defs Let_def
      split: option.splits sum.splits)

lemma dom_jpeg_effect: "dom (snd (jpeg_effect L q t c)) \<subseteq> {jpeg_path t}"
  by (simp add: jpeg_effect_def Let_def dom_written)

text \<open>Names of the covers: something before the suffix.\<close>

definition pgm_name :: "string \<Rightarrow> bool" where
  "pgm_name name \<longleftrightarrow> (\<exists>b. b \<noteq> [] \<and> name = b @ ''.pgm'')"

lemma rfind_pgm: "0 \<le> i \<Longrightarrow> rfind_from i (b @ ''.pgm'') ''.'' = i + int (length b)"
  by (induction b arbitrary: i) (simp_all add: startswith_def Let_def)

lemma stem_pgm: "b \<noteq> [] \<Longrightarrow> stem (b @ ''.pgm'') = b"
  by (simp add: stem_def py_rfind_def rfind_pgm)

lemma jpeg_path_inj: "pgm_name s \<Longrightarrow> pgm_name t \<Longrightarrow> jpeg_path s = jpeg_path t \<longleftrightarrow> s = t"
  by (auto simp: pgm_name_def jpeg_path_def stem_pgm)

interpretation encoding: apart "precise_jpeg_worker L q" pgm_name "\<lambda>name. resized_path name" "\<lambda>name. {jpeg_path name}" "jpeg_effect L q"
  by unfold_locales (rule jpeg_worker_effect, rule dom_jpeg_effect, simp add: jpeg_path_def resized_path_def, simp add: jpeg_path_inj)

section \<open>Properties\<close>

abbreviation resized_files :: "('f, 'im) opencv \<Rightarrow> 'f files \<Rightarrow> string list \<Rightarrow> 'f files" where
  "resized_files V \<equiv> apart.after (\<lambda>name. cover_path name) (\<lambda>name. {resized_path name}) (resize_effect V)"

lemma resizing_after:
  "resized_files V fs ts path =
     (case find (\<lambda>nm. path = resized_path nm) ts of None \<Rightarrow> fs path
      | Some nm \<Rightarrow> (fs ++ snd (resize_effect V nm (fs (cover_path nm)))) path)"
  by (simp add: resizing.after_def)

lemma resizing_after_at:
  "nm \<in> set ts \<Longrightarrow> resized_files V fs ts (resized_path nm)
     = (fs ++ snd (resize_effect V nm (fs (cover_path nm)))) (resized_path nm)"
  unfolding resizing_after by (subst find_unique [of nm]) simp_all

lemma resizing_after_other:
  "(\<And>nm. nm \<in> set ts \<Longrightarrow> path \<noteq> resized_path nm) \<Longrightarrow> resized_files V fs ts path = fs path"
proof -
  assume "\<And>nm. nm \<in> set ts \<Longrightarrow> path \<noteq> resized_path nm"
  then have "find (\<lambda>nm. path = resized_path nm) ts = None" by (auto simp: find_None_iff)
  then show ?thesis by (simp add: resizing_after)
qed

text \<open>
C35: The covers are resized in any order. Whatever the order in which the workers of the pool end, the run leaves the same
files and reports the same failures: every cover of 512 by 512 that OpenCV can write becomes its exact half in the other
directory, all other files stay as they are, and the errors are those of the covers that cannot be read, resized or
written. A cover for which \<^verbatim>\<open>imwrite\<close> returns False has neither a file nor an error.
\<close>

theorem covers_resized_in_any_order:
  assumes "images = filter (\<lambda>nm. endswith nm ''.pgm'') names" and "images \<noteq> []" and "distinct images"
    and "mset (order images) = mset images"
    and "outcome = (\<lambda>nm. fst (resize_effect V nm (fs (cover_path nm))))"
  shows "\<exists>errors fs'. pool_main (resize_worker V) order names fs = (Inr (Some errors), fs')
    \<and> mset errors = mset (map the (filter (\<lambda>r. r \<noteq> None) (map outcome images)))
    \<and> (\<forall>path. (\<forall>nm \<in> set images. path \<noteq> resized_path nm) \<longrightarrow> fs' path = fs path)
    \<and> (\<forall>nm \<in> set images. \<forall>px new r.
         Option.bind (fs (cover_path nm)) (cv_imread_grey V) = Some (grid 512 512 px)
         \<and> new = grid 256 256 (\<lambda>a b. nearest_byte (halved (\<lambda>i j. of_int (uint (px i j))) 256 256 a b))
         \<and> cv_imwrite V (resized_path nm) (cv_grey V new) = Inr r \<longrightarrow>
           outcome nm = None \<and> fs' (resized_path nm) = (case r of None \<Rightarrow> fs (resized_path nm) | Some f \<Rightarrow> Some f))"
proof -
  let ?fs = "resized_files V fs images"
  obtain errors where run: "run_pool (resize_worker V) (order images) fs = (Inr errors, ?fs)"
    and errors: "mset errors = mset (map the (filter (\<lambda>r. r \<noteq> None) (map outcome images)))"
    using resizing.pool_order [OF assms(4,3)] by (auto simp: resizing.result_def [abs_def] assms(5))
  have "pool_main (resize_worker V) order names fs = (Inr (Some errors), ?fs)"
    unfolding pool_main_def assms(1) [symmetric] using assms(2) run by (simp add: bindp_def ret_def)
  moreover have "?fs path = fs path" if "\<forall>nm \<in> set images. path \<noteq> resized_path nm" for path
    by (rule resizing_after_other) (use that in blast)
  moreover have "outcome nm = None \<and> ?fs (resized_path nm) = (case r of None \<Rightarrow> fs (resized_path nm) | Some f \<Rightarrow> Some f)"
    if nm: "nm \<in> set images" and img: "Option.bind (fs (cover_path nm)) (cv_imread_grey V) = Some (grid 512 512 px)"
      and new: "new = grid 256 256 (\<lambda>a b. nearest_byte (halved (\<lambda>i j. of_int (uint (px i j))) 256 256 a b))"
      and r: "cv_imwrite V (resized_path nm) (cv_grey V new) = Inr r" for nm px new r
  proof -
    have "resize_pixels (grid 512 512 px) (256, 256) = Inr new"
      using resize_pixels_half [of 256 256 px] by (simp add: new)
    then have e: "resize_effect V nm (fs (cover_path nm)) = (None, written (resized_path nm) (Inr r))"
      by (simp add: resize_effect_def img r Let_def)
    show ?thesis
      unfolding resizing_after_at [OF nm] e assms(5) by (cases r) (simp_all add: e written_def)
  qed
  ultimately show ?thesis using errors by blast
qed

definition raw_opencv :: "(byte list list, byte list list) opencv" where
  "raw_opencv = \<lparr>cv_imread_grey = Some, cv_imread = Some, cv_shape = (\<lambda>im. [length im, row_width im]), cv_grey = (\<lambda>im. im),
     cv_imwrite = (\<lambda>path im. Inr (Some im))\<rparr>"

theorem covers_resized_in_any_order_witness:
  "\<exists>errors fs'. pool_main (resize_worker raw_opencv) rev [''a.pgm'', ''b.txt'', ''c.pgm''] [cover_path ''a.pgm'' \<mapsto> grid 512 512 (\<lambda>i j. 7)]
      = (Inr (Some errors), fs')
     \<and> mset errors = {#''Failed to read: c.pgm''#}
     \<and> fs' (resized_path ''a.pgm'') = Some (grid 256 256 (\<lambda>a b. nearest_byte (halved (\<lambda>i j. of_int (uint ((\<lambda>i j. 7 :: byte) i j))) 256 256 a b)))"
proof -
  let ?fs = "[cover_path ''a.pgm'' \<mapsto> grid 512 512 (\<lambda>i j. 7)]" and ?px = "\<lambda>i j. 7 :: byte"
  let ?outcome = "\<lambda>nm. fst (resize_effect raw_opencv nm (?fs (cover_path nm)))"
  let ?new = "grid 256 256 (\<lambda>a b. nearest_byte (halved (\<lambda>i j. of_int (uint (?px i j))) 256 256 a b))"
  have im: "filter (\<lambda>nm. endswith nm ''.pgm'') [''a.pgm'', ''b.txt'', ''c.pgm''] = [''a.pgm'', ''c.pgm'']" by code_simp
  have prem: "[''a.pgm'', ''c.pgm''] \<noteq> []" "distinct [''a.pgm'', ''c.pgm'']" "mset (rev [''a.pgm'', ''c.pgm'']) = mset [''a.pgm'', ''c.pgm'']"
    by simp_all
  from covers_resized_in_any_order [where order = rev, OF im [symmetric] prem refl, of raw_opencv ?fs]
  obtain errors fs' where e: "pool_main (resize_worker raw_opencv) rev [''a.pgm'', ''b.txt'', ''c.pgm''] ?fs = (Inr (Some errors), fs')"
    "mset errors = mset (map the (filter (\<lambda>r. r \<noteq> None) (map ?outcome [''a.pgm'', ''c.pgm''])))"
    and o: "\<forall>nm \<in> set [''a.pgm'', ''c.pgm'']. \<forall>px new r.
         Option.bind (?fs (cover_path nm)) (cv_imread_grey raw_opencv) = Some (grid 512 512 px)
         \<and> new = grid 256 256 (\<lambda>a b. nearest_byte (halved (\<lambda>i j. of_int (uint (px i j))) 256 256 a b))
         \<and> cv_imwrite raw_opencv (resized_path nm) (cv_grey raw_opencv new) = Inr r \<longrightarrow>
           ?outcome nm = None \<and> fs' (resized_path nm) = (case r of None \<Rightarrow> ?fs (resized_path nm) | Some f \<Rightarrow> Some f)"
    by blast
  have "Option.bind (?fs (cover_path ''a.pgm'')) (cv_imread_grey raw_opencv) = Some (grid 512 512 ?px)"
    "cv_imwrite raw_opencv (resized_path ''a.pgm'') (cv_grey raw_opencv ?new) = Inr (Some ?new)"
    by (simp_all add: raw_opencv_def)
  with o have a: "?outcome ''a.pgm'' = None" "fs' (resized_path ''a.pgm'') = Some ?new" by fastforce+
  have "?outcome ''c.pgm'' = Some ''Failed to read: c.pgm''" by (simp add: resize_effect_def)
  with e a show ?thesis by simp
qed

section \<open>What the other scripts do\<close>

text \<open>
  Files that differ only in what follows the last dot have one PNG: which of them it shows depends on the order, and
  no error is reported.
\<close>

lemma png_names_collide:
  assumes "run = (\<lambda>tasks. snd (run_pool (lossless_conversion_worker raw_opencv) tasks [''d/a.pgm'' \<mapsto> [[1]], ''d/a.bmp'' \<mapsto> [[2]]]) ''o/a.png'')"
  shows "run [((''d'', ''a.pgm''), ''o''), ((''d'', ''a.bmp''), ''o'')] = Some [[2]]"
    and "run [((''d'', ''a.bmp''), ''o''), ((''d'', ''a.pgm''), ''o'')] = Some [[1]]"
proof -
  have st: "stem ''a.pgm'' = ''a''" "stem ''a.bmp'' = ''a''" by code_simp+
  show "run [((''d'', ''a.pgm''), ''o''), ((''d'', ''a.bmp''), ''o'')] = Some [[2]]"
    and "run [((''d'', ''a.bmp''), ''o''), ((''d'', ''a.pgm''), ''o'')] = Some [[1]]"
    by (simp_all add: assms run_pool_def lossless_conversion_worker_def or_report_def imwrite_def run_defs raw_opencv_def st)
qed

text \<open>The ten workers of Jpegstego.py share the first 10000 covers.\<close>

lemma stego_loop_upt:
  "lc \<le> length covers \<Longrightarrow> stego_loop there dir alpha off unit (drop lc covers) lc =
     map (\<lambda>k. (covers ! k, dir, alpha, k)) (filter (\<lambda>k. off \<le> k \<and> k < off + unit \<and> \<not> there (covers ! k)) [lc..<length covers])"
proof (induction "length covers - lc" arbitrary: lc)
  case 0
  then show ?case by simp
next
  case (Suc d)
  then have lc: "lc < length covers" by simp
  have d: "drop lc covers = covers ! lc # drop (Suc lc) covers" using lc by (simp add: Cons_nth_drop_Suc)
  have u: "[lc..<length covers] = lc # [Suc lc..<length covers]" using lc by (simp add: upt_conv_Cons)
  show ?case
  proof (cases "off + unit \<le> lc")
    case True
    then have "filter (\<lambda>k. off \<le> k \<and> k < off + unit \<and> \<not> there (covers ! k)) [lc..<length covers] = []"
      by (auto simp: filter_empty_conv)
    with True show ?thesis by (simp add: d)
  next
    case False
    with Suc.hyps(1) [of "Suc lc"] Suc.hyps(2) lc show ?thesis by (simp add: d u)
  qed
qed

lemma filter_between: "filter (\<lambda>k. a \<le> k \<and> k < b \<and> P k) [0..<n] = filter P [min a n..<min b n]"
proof (induction n)
  case (Suc n)
  consider "n < a" | "a \<le> n" "n < b" | "b \<le> n" by linarith
  then show ?case
  proof cases
    case 2
    then have "[min a (Suc n)..<min b (Suc n)] = [a..<n] @ [n]" by simp
    with 2 Suc show ?thesis by (simp add: min_def)
  qed (use Suc in \<open>auto simp: min_def\<close>)
qed simp

lemma filter_parts:
  "concat (map (\<lambda>i. filter (\<lambda>k. i * unit \<le> k \<and> k < i * unit + unit \<and> P k) [0..<n]) [0..<m]) = filter P [0..<min (m * unit) n]"
proof (induction m)
  case (Suc m)
  have "[0..<min (Suc m * unit) n] = [0..<min (m * unit) n] @ [min (m * unit) n..<min (m * unit + unit) n]"
    using upt_add_eq_append [of 0 "min (m * unit) n" "min (m * unit + unit) n - min (m * unit) n"] by (simp add: add.commute)
  with Suc show ?case unfolding filter_between by simp
qed simp

definition covers_of :: "string list \<Rightarrow> string list" where
  "covers_of names = sort (filter (\<lambda>nm. endswith nm ''.jpg'' \<and> \<not> startswith nm ''.'') names)"

lemma stego_covers_once:
  "concat (stego_main there names) =
     map (\<lambda>k. (covers_of names ! k, ''/data1/dataset/wuwl/jpeg/juniward20/'', 1 / 5, k))
       (filter (\<lambda>k. \<not> there (covers_of names ! k)) [0..<min 10000 (length (covers_of names))])"
proof -
  have "generate_stego_images there names dir alpha i 1000 =
      map (\<lambda>k. (covers_of names ! k, dir, alpha, k))
        (filter (\<lambda>k. i * 1000 \<le> k \<and> k < i * 1000 + 1000 \<and> \<not> there (covers_of names ! k)) [0..<length (covers_of names)])" for dir alpha i
    using stego_loop_upt [of 0 "covers_of names"] by (simp add: generate_stego_images_def covers_of_def)
  moreover have "concat (map (\<lambda>i. map f (g i)) js) = map f (concat (map g js))" for f :: "nat \<Rightarrow> embedding" and g :: "nat \<Rightarrow> nat list" and js
    by (simp add: map_concat comp_def)
  ultimately show ?thesis
    using filter_parts [of 1000 "\<lambda>k. \<not> there (covers_of names ! k)" "length (covers_of names)" 10]
    by (simp only: stego_main_def) simp
qed

end
