(* ===== verification/Spec2Isabelle.thy ===== *)
theory Spec2Isabelle
  imports Servicer Scans DataLayer XuNet Detect Mitm Gateways SocLive Queues Dataset Lifecycle Delivery ProxyWorker
    CsvReport Tasks Covers
begin

text \<open>
  A verification library of STEGNAR, a system that looks for hidden messages in the images that cross a
  network. The services are Python programs under \<^verbatim>\<open>src/\<close>; this library models them definition by definition
  and proves what makes them correct, one by one and together.

  \<^bold>\<open>The program.\<close> An endpoint agent (\<^verbatim>\<open>endpoint-agent/\<close>) sniffs packets, reads the TLS key log and streams
  chunks over gRPC; an intercepting proxy (\<^verbatim>\<open>stegnar-proxy/addon.py\<close>) queues the images it sees in the same
  format. The routing system (\<^verbatim>\<open>routing-system/\<close>) limits the rate of an endpoint, collects its chunks by stream,
  asks the cache in Redis, builds a capture, cuts the image out of it, has it analysed and queues an event on a
  Redis stream. The MITM gateway (\<^verbatim>\<open>mitm-gateway/\<close>) runs the analysis in a worker process, which builds the
  pruned SRNet of CALPA-NET (\<^verbatim>\<open>CALPA-NET-master/\<close>), the research code that trains the networks and finds the pruning
  rates. The data layer (\<^verbatim>\<open>data-layer/\<close>) writes the queued events to PostgreSQL. The SOC API
  (\<^verbatim>\<open>soc-api/server.py\<close>) shows all of this, keeps the settings, and analyses uploaded images and captures in jobs
  of its own, through the same worker, cache and queue.

  \<^bold>\<open>How code is modelled.\<close> \<open>Prelude\<close> has the values, strings, dictionaries and exceptions of Python; floats
  are rationals, so no rounding, infinity or not-a-number occurs, and a \<^verbatim>\<open>datetime\<close> is its ISO text. \<open>Effects\<close> has
  the programs: a function from a state to an exception or a result with the new state. Everything outside the
  repository (Redis, PostgreSQL, MinIO, Docker, gRPC, files, external programs, the clock) is a value of \<open>call\<close>, its
  answer a parameter \<open>env\<close> that may depend on all that happened before, and the state records the history. What a
  theorem needs of a service is a named hypothesis (\<open>redis_zset_law\<close>, \<open>redis_hash_law\<close>, \<open>float_roundtrip\<close>,
  \<open>inference_law\<close>) with a concrete instance in its witness. The program logic is in \<open>Effects\<close>: \<open>emits\<close> and
  \<open>adds\<close> for events, \<open>no_raise\<close>, \<open>wp\<close>, \<open>keeps\<close>; locale \<open>history_property\<close> turns a property of histories that
  is closed under append into rules for programs.

  \<^bold>\<open>Theories.\<close>

  \<^item> Interfaces. \<open>Tables\<close>: the keyed table (locale \<open>table\<close>, on association lists) of the stream table, the key
    store, the job table and the settings. \<open>Images\<close>: \<^verbatim>\<open>_sniff_image\<close> of the router and the proxy and
    \<^verbatim>\<open>_is_image_bytes\<close> of the SOC (locales \<open>prefix_probe\<close>, \<open>magic_probe\<close>). \<open>Messages\<close>: the messages of
    \<^verbatim>\<open>proto/stegnar.proto\<close>. \<open>TempFiles\<close>: which paths a history leaves behind.
  \<^item> Routing system. \<open>RateLimiter\<close> (rate\_limiter.py), \<open>HashCache\<close> (cache.py: a refinement of a finite map),
    \<open>KeyStore\<close> (key\_store.py, locale \<open>key_log\<close>), \<open>ObjectStore\<close> (the two minio\_client.py), \<open>PcapBuilder\<close>
    (pcap\_builder.py), \<open>RoutingWriters\<close> (pg\_writer.py, queue\_writer.py, dispatcher.py), \<open>Servicer\<close> (servicer.py: what
    one stream causes, grouping, the reaper), \<open>Scans\<close> (the scan slots of servicer.py as a step relation over all
    interleavings).
  \<^item> Data layer. \<open>DataLayer\<close> (main.py, pg\_writer.py).
  \<^item> Processes. \<open>Lifecycle\<close>: \<^verbatim>\<open>serve\<close> of the router, the gateway and the data layer: the order of start and end, and
    what happens when the consumer dies.
  \<^item> CALPA-NET. \<open>NetGraph\<close> (graphs as lists of operations in order of creation, with shapes), \<open>RateConfig\<close> (the
    configuration files), \<open>CalpaNet\<close> and \<open>XuNet\<close> (models/ and tasks/: SRNet, XuNet2, the pruned networks and the
    worker's port), \<open>Detect\<close> (libs/psm/detect\_*.py: the searches for the rates), \<open>Training\<close>
    (libs/*/utils\_multistep\_lr*.py and the generators: the training loop, its evaluations and checkpoints, Adamax),
    \<open>Queues\<close> (queues.py: threads, queue and session as a state machine), \<open>CsvReport\<close> (which images the table of a
    test is about), \<open>Dataset\<close> (prep/divide\_dataset), \<open>Tasks\<close> (tasks/: the training and test scripts).
  \<^item> Covers. \<open>Resize\<close> (test\_images/BOWS2/matlab\_imresize.py on rationals), \<open>Covers\<close> (the scripts that resize, convert
    and embed; locale \<open>apart\<close> for pools whose workers do not touch each other's files).
  \<^item> Gateway. \<open>Mitm\<close> (main.py, calpa\_runner.py, calpa\_worker.py).
  \<^item> Edges. \<open>Endpoint\<close> (endpoint-agent/), \<open>Gateways\<close> (the hooks of stegnar-proxy/addon.py, install-server/serve.py),
    \<open>ProxyWorker\<close> (\<^verbatim>\<open>stream_worker\<close> beside the hooks as a step relation), \<open>Delivery\<close> (what the router makes of what
    the two probes send).
  \<^item> SOC API, all of it server.py. \<open>SocCore\<close> (shared helpers), \<open>SocQueries\<close> (the requests that read), \<open>SocIngest\<close>
    (extraction, worker runs, job threads), \<open>SocApi\<close> (settings, uploads, live events, retention, the table of routes);
    \<open>SocJobs\<close>, \<open>SocRoutes\<close>, \<open>SocLife\<close> and \<open>SocLive\<close> prove what jobs do, which SQL and status a request can give, the
    invariants of the process, and what survives a restart.

  \<^bold>\<open>What the lemmas show.\<close>

  \<^item> Protocols: which events a finished stream, a job or a message can show, in which order (\<open>Servicer\<close>, \<open>SocJobs\<close>,
    \<open>DataLayer\<close>, \<open>Lifecycle\<close>), and that errors are never cached or lost silently where the code promises it.
  \<^item> Resources: scan slots, temporary files, containers and streams are given back on every path (\<open>Servicer\<close>,
    \<open>PcapBuilder\<close>, \<open>SocJobs\<close>, \<open>Mitm\<close>), with the exceptions the code has as part of the statement.
  \<^item> Data: rows, cache entries, settings and lists of files come back as they were written (\<open>DataLayer\<close>, \<open>HashCache\<close>,
    \<open>SocLive\<close>, \<open>Dataset\<close>); the proxy hands on every image once (\<open>ProxyWorker\<close>).
  \<^item> Networks: the worker builds the graph of the task, pruned networks are well shaped, the searches end and record
    what they measured (\<open>XuNet\<close>, \<open>CalpaNet\<close>, \<open>Detect\<close>); a training task records exact accuracies, and a checkpoint
    reproduces them (\<open>Tasks\<close>, \<open>Training\<close>), on the batches that the concurrent queue really hands out (\<open>Queues\<close>).
  \<^item> Covers: halving an image is a fixed filter of eight by eight neighbours, both ways to apply it agree, no position
    outside is read (\<open>Resize\<close>), and the result of a pool does not depend on the order of its workers (\<open>Covers\<close>).
  \<^item> Processes: reachable states of the SOC are in order and accepted jobs end (\<open>SocLife\<close>); the counter of scans is
    bounded in all interleavings (\<open>Scans\<close>).
  \<^item> Across services: the key lines of the agent's log are the keys that the router exports, and the images of a
    connection are one payload (\<open>Delivery\<close>); below, the worker's verdict reaches the database and the screen, and what
    the SOC caches is a hit of the router.

  \<^bold>\<open>Bounds and fuel.\<close> A loop that the program never leaves takes the number of its passes, or the list of what
  each pass finds, as an argument: the attempts to connect (\<open>init_pool\<close>, \<open>dl_connect\<close>; the result says whether one
  succeeded), the passes of the consumer and of the live events, the cycles of the agent, the heartbeats. Theorems
  hold for every number, so no bound hides a behaviour. The searches of \<open>Detect\<close> end by a measure, proved there; all
  other loops run over finite lists. A stream of training examples is a function of its position.

  \<^bold>\<open>Not modelled.\<close> TensorFlow's computation of a graph, its gradients and sessions, Scapy, tshark, Docker and the
  drivers are parameters or calls. The text formats of JSON and of configuration files are the libraries', as are
  Flask's routing, multipart uploads and gRPC's transport; the 32-bit rounding of the floats in messages is left out.
  What becomes of a chunk in a failing gRPC stream is not in the repository: \<open>ProxyWorker\<close> ends where a chunk is handed
  to gRPC. Left out are logging and printing everywhere; \<^verbatim>\<open>main\<close> of the agent, which starts tasks only;
  \<^verbatim>\<open>get_thinet_input\<close> and the unused \<^verbatim>\<open>optimistic_restore_vars\<close>; the scripts 3\_detect\_*.py, which check a size
  and call one search of \<open>Detect\<close>; the inverse DCT of prep/decompress\_jpg, which TensorFlow computes; generated
  stubs, shell scripts, the web front end and the MATLAB code. \<open>Resize\<close> is exact where the code rounds its floats.
  \<^verbatim>\<open>libs/srnet/SRNet.py\<close> and \<^verbatim>\<open>libs/srnet/queues.py\<close> repeat files that are modelled. Coroutines of the router are
  interleaved only in \<open>Scans\<close>; elsewhere what others do to shared state while a coroutine waits is an argument.
\<close>

section \<open>Properties that span services\<close>

lemma upper_verdicts: "upper ''STEGO'' = ''STEGO''" "upper ''CLEAN'' = ''CLEAN''"
  by code_simp+

text \<open>
C3: The verdict of the worker reaches the database and the analyst. Every dictionary the worker prints with
exit code 0 is understood by the SOC, with the worker's label and confidence; the data layer turns the
entry that the SOC queues for it (at a time after 1970 and before the year 10000) into one row with this
label and confidence, the digest, the file name and the job; and the row is shown as malicious exactly
if the worker said \<^verbatim>\<open>STEGO\<close>.
\<close>

theorem verdict_reaches_database:
  assumes "result_dict d" and "float_roundtrip L" and "0 < now" and "now < 253402300800000"
  shows "\<exists>r label conf. parsed_result L cfg (PDict d) = Inr r
    \<and> map_of d ''predicted_label'' = Some (PStr label) \<and> map_of d ''confidence'' = Some (PFloat conf)
    \<and> insert_event E L (ingest_entry L job_id (cr_classification r) (cr_confidence r) sha name (py_trunc (cr_latency r)) now) w
      = do_call E (Pg (PgExecute sql_insert_event
          [PFloat (of_int now / 1000), PStr ''soc-ingest'', PStr job_id, PStr ''soc-api'', PStr ''soc-ingest'', PStr sha,
           PInt 0, PFloat conf, PStr label, PInt (py_trunc (cr_latency r)), PStr ''calpa_srnet_pruned'', PStr [], PStr name])) w
    \<and> shown_verdict (upper label) = (if label = ''STEGO'' then ''malicious'' else ''benign'')"
proof -
  obtain label p x dev lat art where l: "label \<in> {''STEGO'', ''CLEAN''}" and d:
    "d = [(''predicted_label'', PStr label), (''confidence'', PFloat p), (''raw_score'', PFloat x), (''device'', PStr dev),
          (''latency_ms'', PInt lat), (''model_type'', PStr ''calpa_srnet_pruned''), (''artifact_id'', art)]"
    using assms(1) unfolding result_dict_def by blast
  obtain r where r: "parsed_result L cfg (PDict d) = Inr r" "cr_classification r = label" "cr_confidence r = p"
    using l by (auto simp: parsed_result_def d py_get_def dict_get_def to_float_def)
  have row: "insert_event E L (ingest_entry L job_id label p sha name n now) w
      = do_call E (Pg (PgExecute sql_insert_event
          [PFloat (of_int now / 1000), PStr ''soc-ingest'', PStr job_id, PStr ''soc-api'', PStr ''soc-ingest'', PStr sha,
           PInt 0, PFloat p, PStr label, PInt n, PStr ''calpa_srnet_pruned'', PStr [], PStr name])) w" for n
    using assms(2-4)
    by (simp add: insert_event_def ingest_entry_def from_ms_def int_field_def opt_field_def dict_get_def float_roundtrip_def
        or_str_def bindp_def lift_sum_def ret_def Let_def)
  have "shown_verdict (upper label) = (if label = ''STEGO'' then ''malicious'' else ''benign'')"
    using l upper_verdicts by (auto simp: shown_verdict_def dict_get_def)
  with r row show ?thesis by (simp add: d)
qed

theorem verdict_reaches_database_witness:
  "\<exists>r. parsed_result ref_lib sample_soc (PDict
      [(''predicted_label'', PStr ''STEGO''), (''confidence'', PFloat 1), (''raw_score'', PFloat 1), (''device'', PStr ''CPU''),
       (''latency_ms'', PInt 12), (''model_type'', PStr ''calpa_srnet_pruned''), (''artifact_id'', PStr ''a'')]) = Inr r"
proof -
  have "result_dict [(''predicted_label'', PStr ''STEGO''), (''confidence'', PFloat 1), (''raw_score'', PFloat 1),
      (''device'', PStr ''CPU''), (''latency_ms'', PInt 12), (''model_type'', PStr ''calpa_srnet_pruned''), (''artifact_id'', PStr ''a'')]"
    by (simp add: result_dict_def)
  from verdict_reaches_database [OF this ref_lib_roundtrip, of 5 sample_soc "\<lambda>h c. Inr PNone" "''j''" "''s''" "''n''" idle_soc]
  show ?thesis by auto
qed

lemma write_redis_cache_store:
  "sha \<noteq> [] \<Longrightarrow> write_redis_cache E L sha verdict score = catchp (store E L 604800 sha verdict score) (\<lambda>_. ret ())"
  by (simp add: write_redis_cache_def store_def cache_prefix_def whenp_def Let_def)

text \<open>
C17: The SOC fills the cache of the router. While no key expires, when the SOC has written the verdict of a
digest (both Redis commands were answered), the router's next lookup of that digest, if it gets its
answers, is a hit with exactly this verdict and score, and an empty digest is never written.
\<close>

theorem soc_cache_is_router_hit:
  assumes "redis_hash_law (\<lambda>_ _. False) E" and "float_roundtrip L" and "sha \<noteq> []" and "cache_abs L m (trace w)"
    and "store E L 604800 sha verdict score w = (Inr (), w1)"
    and "lookup E L ttl sha (snd (write_redis_cache E L sha verdict score w)) = (Inr found, w2)"
  shows "found = Some (verdict, score) \<and> write_redis_cache E L [] verdict score w = (Inr (), w)"
proof -
  have w1: "snd (write_redis_cache E L sha verdict score w) = w1"
    using assms(3,5) by (simp add: write_redis_cache_store catchp_def)
  have "cache_abs L (m(sha \<mapsto> (verdict, score))) (trace w1)"
    using wp_store [OF assms(4), of E 604800 sha verdict score] assms(5) by (simp add: wp_def)
  from wp_lookup [OF assms(1,2) this, of ttl sha] assms(6) w1 show ?thesis
    by (simp add: wp_def write_redis_cache_def whenp_def ret_def)
qed

theorem soc_cache_is_router_hit_witness:
  "fst (lookup (hash_env (\<lambda>_ _. False)) ref_lib 60 ''ab'' (snd (write_redis_cache (hash_env (\<lambda>_ _. False)) ref_lib ''ab'' ''STEGO'' (1/2) idle_soc)))
     = Inr (Some (''STEGO'', 1/2))"
proof -
  let ?E = "hash_env (\<lambda>_ _. False)"
  obtain w1 where s: "store ?E ref_lib 604800 ''ab'' ''STEGO'' (1/2) idle_soc = (Inr (), w1)"
    by (simp add: store_def run_defs hash_env_def)
  have "\<exists>found. fst (lookup ?E ref_lib 60 ''ab'' (snd (write_redis_cache ?E ref_lib ''ab'' ''STEGO'' (1/2) idle_soc))) = Inr found"
    using ref_lib_roundtrip
    by (simp add: write_redis_cache_store catchp_def store_def lookup_def run_defs hash_env_def cache_prefix_def hash_of_def
        dict_get_def float_roundtrip_def idle_soc_def Let_def)
  then obtain found w2 where l: "lookup ?E ref_lib 60 ''ab'' (snd (write_redis_cache ?E ref_lib ''ab'' ''STEGO'' (1/2) idle_soc)) = (Inr found, w2)"
    by (metis prod.collapse)
  have "cache_abs ref_lib Map.empty (trace idle_soc)" by (simp add: idle_soc_def cache_abs_empty)
  from soc_cache_is_router_hit [OF hash_env_law ref_lib_roundtrip _ this s l] l show ?thesis by simp
qed

end
